theory Spec2Isabelle
  imports Main "HOL-Library.Word" "HOL-Library.Sublist"
begin

section \<open>Controller bootstrap of argo-events (controllers/cmd/start.go)\<close>

text \<open>
  The theory embeds the two functions of \<^verbatim>\<open>controllers/cmd/start.go\<close>,
  \<^verbatim>\<open>lookupEnvDurationOr\<close> and \<^verbatim>\<open>Start\<close>. Both are straight-line
  code over external collaborators (the process environment, the configuration
  loader, the controller runtime). Every external call is an entry of a record of
  outcomes (\<open>Externals\<close>), the effects the process leaves behind are a record
  (\<open>World\<close>), and a fatal log call ends the run: the result of a run is
  \<open>Inl (exit code, world)\<close> when the process exited and \<open>Inr (value, world)\<close> when
  the code ran on.
\<close>

subsection \<open>Data\<close>

text \<open>\<^verbatim>\<open>time.Duration\<close> is an int64 count of nanoseconds.\<close>

type_synonym Duration = "64 word"

definition Second :: Duration where
  "Second = 1000000000"

definition imageEnvVar :: string where
  "imageEnvVar = ''ARGO_EVENTS_IMAGE''"

record ArgoEventsControllerOpts =
  Namespaced :: bool
  ManagedNamespace :: string
  LeaderElection :: bool
  MetricsPort :: "32 word"
  HealthPort :: "32 word"

text \<open>
  The object kinds the file names: the three custom resources
  (\<^verbatim>\<open>eventbusv1alpha1.EventBus\<close>, \<^verbatim>\<open>eventsourcev1alpha1.EventSource\<close>,
  \<^verbatim>\<open>sensorv1alpha1.Sensor\<close>) and the four built-in kinds
  (\<^verbatim>\<open>corev1.ConfigMap\<close>, \<^verbatim>\<open>appv1.StatefulSet\<close>, \<^verbatim>\<open>appv1.Deployment\<close>,
  \<^verbatim>\<open>corev1.Service\<close>).
\<close>

datatype Kind = EventBus | EventSource | Sensor | ConfigMap | StatefulSet | Deployment | Service

text \<open>
  The constants \<^verbatim>\<open>eventbus.ControllerName\<close>, \<^verbatim>\<open>eventsource.ControllerName\<close> and
  \<^verbatim>\<open>sensor.ControllerName\<close> are declared in the controller packages, outside this
  file; they are kept symbolic.
\<close>

datatype ControllerName = eventbus_ControllerName | eventsource_ControllerName | sensor_ControllerName

text \<open>
  \<^verbatim>\<open>cache.Options\<close> with the one field the file sets. \<^verbatim>\<open>cache.Config{}\<close> is
  the empty struct; a nil map is the empty map.
\<close>

record cache_Options =
  DefaultNamespaces :: "string \<rightharpoonup> unit"

text \<open>
  \<^verbatim>\<open>ctrl.Options\<close> with the fields the file sets. The three timing fields are
  pointers (\<^verbatim>\<open>*time.Duration\<close>): \<open>None\<close> is nil.
\<close>

record ctrl_Options =
  Metrics_BindAddress :: string
  HealthProbeBindAddress :: string
  Cache :: cache_Options
  Options_LeaderElection :: bool
  LeaderElectionID :: string
  LeaseDuration :: "Duration option"
  RenewDeadline :: "Duration option"
  RetryPeriod :: "Duration option"

text \<open>
  The manager is known by the options it was built from; \<^verbatim>\<open>mgr.GetCache()\<close> is
  the cache built from the \<^verbatim>\<open>Cache\<close> field of those options, identified here
  with that field. The client, the scheme, the REST mapper, the kube client and the
  logger are handles with no content of their own in this file.
\<close>

record Manager =
  mgr_Options :: ctrl_Options

definition mgr_GetCache :: "Manager \<Rightarrow> cache_Options" where
  "mgr_GetCache mgr = Cache (mgr_Options mgr)"

datatype Client = mgr_GetClient
datatype Scheme = mgr_GetScheme
datatype RESTMapper = mgr_GetRESTMapper
datatype KubeClient = kubeClient
datatype Logger = logger

text \<open>The three reconciler constructors, with the arguments the file passes.\<close>

datatype 'c Reconciler =
    eventbus_NewReconciler Client KubeClient Scheme 'c Logger
  | eventsource_NewReconciler Client Scheme string Logger
  | sensor_NewReconciler Client Scheme string Logger

record 'c Controller =
  controller_name :: ControllerName
  controller_Reconciler :: "'c Reconciler"

text \<open>What a call of \<^verbatim>\<open>Watch\<close> is given: a source, an event handler, predicates.\<close>

datatype Source = source_Kind cache_Options Kind

datatype OwnerOption = OnlyControllerOwner

datatype EventHandler =
    EnqueueRequestForObject
  | EnqueueRequestForOwner Scheme RESTMapper Kind "OwnerOption list"

datatype Predicate =
    GenerationChangedPredicate
  | LabelChangedPredicate
  | predicate_Or "Predicate list"

record Watch =
  watch_controller :: ControllerName
  watch_source :: Source
  watch_handler :: EventHandler
  watch_predicates :: "Predicate list"

subsection \<open>External calls and the world\<close>

text \<open>
  The calls the two functions make on their collaborators, with the arguments an
  outcome can depend on. The world records them in the order they are made.
  \<open>Call_ParseDuration key v\<close> is the call \<^verbatim>\<open>time.ParseDuration(v)\<close> that
  \<^verbatim>\<open>lookupEnvDurationOr\<close> makes for \<open>key\<close>.
\<close>

datatype 'c Call =
    Call_LoadConfig
  | Call_ValidateConfig 'c
  | Call_LookupEnv string
  | Call_ParseDuration string string
  | Call_GetConfigOrDie
  | Call_NewManager ctrl_Options
  | Call_NewForConfigOrDie
  | Call_AddReadyzCheck string
  | Call_AddHealthzCheck string
  | Call_AddToScheme Kind
  | Call_controller_New ControllerName
  | Call_Watch ControllerName Kind
  | Call_mgr_Start

text \<open>
  The outcomes of the external calls. An error return is \<open>Some\<close> of its message
  (\<open>None\<close> is nil); \<^verbatim>\<open>time.ParseDuration\<close> and \<^verbatim>\<open>controllers.LoadConfig\<close>
  return an error (\<open>Inl\<close>) or a value (\<open>Inr\<close>). \<^verbatim>\<open>time.ParseDuration\<close> is the
  standard library's and is a parameter here.
\<close>

record 'c Externals =
  os_LookupEnv :: "string \<rightharpoonup> string"
  time_ParseDuration :: "string \<Rightarrow> string + Duration"
  controllers_LoadConfig :: "string + 'c"
  controllers_ValidateConfig :: "'c \<Rightarrow> string option"
  ctrl_GetConfig :: "string option"
  ctrl_NewManager :: "ctrl_Options \<Rightarrow> string option"
  kubernetes_NewForConfig :: "string option"
  mgr_AddReadyzCheck :: "string \<Rightarrow> string option"
  mgr_AddHealthzCheck :: "string \<Rightarrow> string option"
  AddToScheme :: "Kind \<Rightarrow> string option"
  controller_New :: "ControllerName \<Rightarrow> string option"
  controller_Watch :: "ControllerName \<Rightarrow> Kind \<Rightarrow> string option"
  mgr_Start :: "string option"

datatype Level = InfoLevel | ErrorLevel | FatalLevel

record 'c World =
  logs :: "(Level \<times> string) list"
  calls :: "'c Call list"
  manager :: "Manager option"
  controllers :: "'c Controller list"
  watches :: "Watch list"

definition init_World :: "'c World" where
  "init_World = \<lparr>logs = [], calls = [], manager = None, controllers = [], watches = []\<rparr>"

type_synonym ('a, 'c) Result = "(int \<times> 'c World) + ('a \<times> 'c World)"

definition invoke :: "'c Call \<Rightarrow> 'c World \<Rightarrow> 'c World" where
  "invoke c w = w\<lparr>calls := calls w @ [c]\<rparr>"

definition log :: "Level \<Rightarrow> string \<Rightarrow> 'c World \<Rightarrow> 'c World" where
  "log l msg w = w\<lparr>logs := logs w @ [(l, msg)]\<rparr>"

text \<open>
  \<^verbatim>\<open>logger.Fatalw\<close> and \<^verbatim>\<open>logger.Fatalf\<close> (zap's sugared logger, which
  \<^verbatim>\<open>logging.NewArgoEventsLogger\<close> returns): the entry is written at the fatal level
  and the process exits with status 1. Nothing after the call runs.
\<close>

definition Fatalw :: "string \<Rightarrow> 'c World \<Rightarrow> ('a, 'c) Result" where
  "Fatalw msg w = Inl (1, log FatalLevel msg w)"

text \<open>
  The two \<^verbatim>\<open>OrDie\<close> helpers: \<^verbatim>\<open>ctrl.GetConfigOrDie\<close> logs and exits with status 1,
  \<^verbatim>\<open>kubernetes.NewForConfigOrDie\<close> panics (a Go program that panics exits with
  status 2).
\<close>

definition GetConfigOrDie :: "'c Externals \<Rightarrow> 'c World \<Rightarrow> (unit, 'c) Result" where
  "GetConfigOrDie x w0 =
     (let w = invoke Call_GetConfigOrDie w0 in
      case ctrl_GetConfig x of
        Some err \<Rightarrow> Inl (1, w)
      | None \<Rightarrow> Inr ((), w))"

definition NewForConfigOrDie :: "'c Externals \<Rightarrow> 'c World \<Rightarrow> (KubeClient, 'c) Result" where
  "NewForConfigOrDie x w0 =
     (let w = invoke Call_NewForConfigOrDie w0 in
      case kubernetes_NewForConfig x of
        Some err \<Rightarrow> Inl (2, w)
      | None \<Rightarrow> Inr (kubeClient, w))"

text \<open>Sequencing: the second computation runs only when the first did not exit.\<close>

definition bind :: "('c World \<Rightarrow> ('a, 'c) Result) \<Rightarrow> ('a \<Rightarrow> 'c World \<Rightarrow> ('b, 'c) Result)
    \<Rightarrow> 'c World \<Rightarrow> ('b, 'c) Result" where
  "bind m f w = (case m w of Inl e \<Rightarrow> Inl e | Inr (a, w') \<Rightarrow> f a w')"

text \<open>
  The pattern \<^verbatim>\<open>if err := call; err != nil { logger.Fatalw(msg, ...) }\<close>: the call
  is made, and its error is fatal.
\<close>

definition orFatal :: "'c Call \<Rightarrow> string option \<Rightarrow> string \<Rightarrow> 'c World \<Rightarrow> (unit, 'c) Result" where
  "orFatal c err msg w0 =
     (let w = invoke c w0 in
      case err of
        Some e \<Rightarrow> Fatalw msg w
      | None \<Rightarrow> Inr ((), w))"

subsection \<open>\<^verbatim>\<open>fmt.Sprintf(":%d", port)\<close>\<close>

fun digits10 :: "nat \<Rightarrow> string" where
  "digits10 n =
     (if n < 10 then [''0123456789'' ! n]
      else digits10 (n div 10) @ [''0123456789'' ! (n mod 10)])"

declare digits10.simps [simp del]

definition itoa :: "int \<Rightarrow> string" where
  "itoa i = (if i < 0 then CHR ''-'' # digits10 (nat (- i)) else digits10 (nat i))"

definition bindAddress :: "32 word \<Rightarrow> string" where
  "bindAddress port = CHR '':'' # itoa (sint port)"

subsection \<open>\<^verbatim>\<open>lookupEnvDurationOr\<close> (lines 45 to 57)\<close>

definition lookupEnvDurationOr ::
    "'c Externals \<Rightarrow> string \<Rightarrow> Duration \<Rightarrow> 'c World \<Rightarrow> (Duration, 'c) Result" where
  "lookupEnvDurationOr x key o' w0 =
     (let w = invoke (Call_LookupEnv key) w0 in
      case os_LookupEnv x key of
        Some v \<Rightarrow>
          if v \<noteq> [] then
            (let w = invoke (Call_ParseDuration key v) w in
             case time_ParseDuration x v of
               Inl err \<Rightarrow> Fatalw ''parsing %s duration'' w
             | Inr d \<Rightarrow> Inr (d, w))
          else Inr (o', w)
      | None \<Rightarrow> Inr (o', w))"

subsection \<open>\<^verbatim>\<open>Start\<close> (lines 59 to 222)\<close>

text \<open>
  Lines 61 to 66: \<^verbatim>\<open>controllers.LoadConfig\<close> and its error check. Lines 72 to 75:
  the lookup of the image name and its check.
\<close>

definition LoadConfig :: "'c Externals \<Rightarrow> 'c World \<Rightarrow> ('c, 'c) Result" where
  "LoadConfig x w0 =
     (let w = invoke Call_LoadConfig w0 in
      case controllers_LoadConfig x of
        Inl err \<Rightarrow> Fatalw ''Failed to load global configuration file'' w
      | Inr config \<Rightarrow> Inr (config, w))"

definition LookupImage :: "'c Externals \<Rightarrow> 'c World \<Rightarrow> (string, 'c) Result" where
  "LookupImage x w0 =
     (let w = invoke (Call_LookupEnv imageEnvVar) w0 in
      case os_LookupEnv x imageEnvVar of
        None \<Rightarrow>
          Fatalw (''required environment variable '' @ [CHR 0x27] @ imageEnvVar
                    @ [CHR 0x27] @ '' not defined'') w
      | Some imageName \<Rightarrow> Inr (imageName, w))"

text \<open>Lines 76 to 95: the manager's options.\<close>

definition Start_options ::
    "ArgoEventsControllerOpts \<Rightarrow> 'c Externals \<Rightarrow> 'c World \<Rightarrow> (ctrl_Options, 'c) Result" where
  "Start_options eventsOpts x w =
     (let opts = \<lparr>Metrics_BindAddress = bindAddress (MetricsPort eventsOpts),
                  HealthProbeBindAddress = bindAddress (HealthPort eventsOpts),
                  Cache = \<lparr>DefaultNamespaces = Map.empty\<rparr>,
                  Options_LeaderElection = False,
                  LeaderElectionID = [],
                  LeaseDuration = None,
                  RenewDeadline = None,
                  RetryPeriod = None\<rparr>;
          opts = (if Namespaced eventsOpts
                  then opts\<lparr>Cache := \<lparr>DefaultNamespaces = [ManagedNamespace eventsOpts \<mapsto> ()]\<rparr>\<rparr>
                  else opts)
      in if LeaderElection eventsOpts then
           (let opts = opts\<lparr>Options_LeaderElection := True,
                             LeaderElectionID := ''argo-events-controller''\<rparr> in
            bind (lookupEnvDurationOr x ''LEADER_ELECTION_LEASE_DURATION'' (15 * Second))
              (\<lambda>d1. bind (lookupEnvDurationOr x ''LEADER_ELECTION_RENEW_DEADLINE'' (10 * Second))
              (\<lambda>d2. bind (lookupEnvDurationOr x ''LEADER_ELECTION_RETRY_PERIOD'' (5 * Second))
              (\<lambda>d3 w. Inr (opts\<lparr>LeaseDuration := Some d1, RenewDeadline := Some d2,
                                  RetryPeriod := Some d3\<rparr>, w)))) w)
         else Inr (opts, w))"

text \<open>Lines 96 to 123: the manager, the kube client, the probes and the scheme.\<close>

definition NewManager :: "'c Externals \<Rightarrow> ctrl_Options \<Rightarrow> 'c World \<Rightarrow> (Manager, 'c) Result" where
  "NewManager x opts w0 =
     (let w = invoke (Call_NewManager opts) w0 in
      case ctrl_NewManager x opts of
        Some err \<Rightarrow> Fatalw ''Unable to get a controller-runtime manager'' w
      | None \<Rightarrow>
          (let mgr = \<lparr>mgr_Options = opts\<rparr> in Inr (mgr, w\<lparr>manager := Some mgr\<rparr>)))"

definition Start_manager ::
    "'c Externals \<Rightarrow> ctrl_Options \<Rightarrow> 'c World \<Rightarrow> (Manager \<times> KubeClient, 'c) Result" where
  "Start_manager x opts =
     bind (GetConfigOrDie x) (\<lambda>restConfig.
     bind (NewManager x opts) (\<lambda>mgr.
     bind (NewForConfigOrDie x) (\<lambda>kubeClient.
     bind (orFatal (Call_AddReadyzCheck ''readiness'') (mgr_AddReadyzCheck x ''readiness'')
             ''Unable add a readiness check'') (\<lambda>_.
     bind (orFatal (Call_AddHealthzCheck ''liveness'') (mgr_AddHealthzCheck x ''liveness'')
             ''Unable add a health check'') (\<lambda>_.
     bind (orFatal (Call_AddToScheme EventBus) (AddToScheme x EventBus)
             ''Unable to add scheme'') (\<lambda>_.
     bind (orFatal (Call_AddToScheme EventSource) (AddToScheme x EventSource)
             ''Unable to add EventSource scheme'') (\<lambda>_.
     bind (orFatal (Call_AddToScheme Sensor) (AddToScheme x Sensor)
             ''Unable to add Sensor scheme'') (\<lambda>_ w.
     Inr ((mgr, kubeClient), w)))))))))"

text \<open>
  \<^verbatim>\<open>controller.New(name, mgr, controller.Options{Reconciler: r})\<close> followed by its
  error check, and \<^verbatim>\<open>c.Watch(source, handler, predicates...)\<close> followed by its
  error check. A controller or a watch is recorded when the call returned no error.
\<close>

definition New :: "'c Externals \<Rightarrow> ControllerName \<Rightarrow> 'c Reconciler \<Rightarrow> string
    \<Rightarrow> 'c World \<Rightarrow> ('c Controller, 'c) Result" where
  "New x name r msg w0 =
     (let w = invoke (Call_controller_New name) w0 in
      case controller_New x name of
        Some err \<Rightarrow> Fatalw msg w
      | None \<Rightarrow>
          (let c = \<lparr>controller_name = name, controller_Reconciler = r\<rparr>
           in Inr (c, w\<lparr>controllers := controllers w @ [c]\<rparr>)))"

fun source_kind :: "Source \<Rightarrow> Kind" where
  "source_kind (source_Kind c k) = k"

fun source_cache :: "Source \<Rightarrow> cache_Options" where
  "source_cache (source_Kind c k) = c"

definition Watch_on :: "'c Externals \<Rightarrow> 'c Controller \<Rightarrow> Source \<Rightarrow> EventHandler \<Rightarrow> Predicate list
    \<Rightarrow> string \<Rightarrow> 'c World \<Rightarrow> (unit, 'c) Result" where
  "Watch_on x c src h ps msg w0 =
     (let w = invoke (Call_Watch (controller_name c) (source_kind src)) w0 in
      case controller_Watch x (controller_name c) (source_kind src) of
        Some err \<Rightarrow> Fatalw msg w
      | None \<Rightarrow>
          Inr ((), w\<lparr>watches := watches w @
                 [\<lparr>watch_controller = controller_name c, watch_source = src,
                   watch_handler = h, watch_predicates = ps\<rparr>]\<rparr>))"

text \<open>Lines 125 to 161: the EventBus controller and its four watches.\<close>

definition Start_eventbus ::
    "'c Externals \<Rightarrow> Manager \<Rightarrow> KubeClient \<Rightarrow> 'c \<Rightarrow> 'c World \<Rightarrow> (unit, 'c) Result" where
  "Start_eventbus x mgr kc config =
     bind (New x eventbus_ControllerName
             (eventbus_NewReconciler mgr_GetClient kc mgr_GetScheme config logger)
             ''Unable to set up EventBus controller'') (\<lambda>eventBusController.
     bind (Watch_on x eventBusController (source_Kind (mgr_GetCache mgr) EventBus)
             EnqueueRequestForObject
             [predicate_Or [GenerationChangedPredicate, LabelChangedPredicate]]
             ''Unable to watch EventBus'') (\<lambda>_.
     bind (Watch_on x eventBusController (source_Kind (mgr_GetCache mgr) ConfigMap)
             (EnqueueRequestForOwner mgr_GetScheme mgr_GetRESTMapper EventBus [OnlyControllerOwner])
             [GenerationChangedPredicate]
             ''Unable to watch ConfigMaps'') (\<lambda>_.
     bind (Watch_on x eventBusController (source_Kind (mgr_GetCache mgr) StatefulSet)
             (EnqueueRequestForOwner mgr_GetScheme mgr_GetRESTMapper EventBus [OnlyControllerOwner])
             [GenerationChangedPredicate]
             ''Unable to watch StatefulSets'') (\<lambda>_.
     Watch_on x eventBusController (source_Kind (mgr_GetCache mgr) Service)
             (EnqueueRequestForOwner mgr_GetScheme mgr_GetRESTMapper EventBus [OnlyControllerOwner])
             [GenerationChangedPredicate]
             ''Unable to watch Services''))))"

text \<open>Lines 163 to 192: the EventSource controller and its three watches.\<close>

definition Start_eventsource ::
    "'c Externals \<Rightarrow> Manager \<Rightarrow> string \<Rightarrow> 'c World \<Rightarrow> (unit, 'c) Result" where
  "Start_eventsource x mgr imageName =
     bind (New x eventsource_ControllerName
             (eventsource_NewReconciler mgr_GetClient mgr_GetScheme imageName logger)
             ''Unable to set up EventSource controller'') (\<lambda>eventSourceController.
     bind (Watch_on x eventSourceController (source_Kind (mgr_GetCache mgr) EventSource)
             EnqueueRequestForObject
             [predicate_Or [GenerationChangedPredicate, LabelChangedPredicate]]
             ''Unable to watch EventSources'') (\<lambda>_.
     bind (Watch_on x eventSourceController (source_Kind (mgr_GetCache mgr) Deployment)
             (EnqueueRequestForOwner mgr_GetScheme mgr_GetRESTMapper EventSource [OnlyControllerOwner])
             [GenerationChangedPredicate]
             ''Unable to watch Deployments'') (\<lambda>_.
     Watch_on x eventSourceController (source_Kind (mgr_GetCache mgr) Service)
             (EnqueueRequestForOwner mgr_GetScheme mgr_GetRESTMapper EventSource [OnlyControllerOwner])
             [GenerationChangedPredicate]
             ''Unable to watch Services'')))"

text \<open>Lines 194 to 216: the Sensor controller and its two watches.\<close>

definition Start_sensor ::
    "'c Externals \<Rightarrow> Manager \<Rightarrow> string \<Rightarrow> 'c World \<Rightarrow> (unit, 'c) Result" where
  "Start_sensor x mgr imageName =
     bind (New x sensor_ControllerName
             (sensor_NewReconciler mgr_GetClient mgr_GetScheme imageName logger)
             ''Unable to set up Sensor controller'') (\<lambda>sensorController.
     bind (Watch_on x sensorController (source_Kind (mgr_GetCache mgr) Sensor)
             EnqueueRequestForObject
             [predicate_Or [GenerationChangedPredicate, LabelChangedPredicate]]
             ''Unable to watch Sensors'') (\<lambda>_.
     Watch_on x sensorController (source_Kind (mgr_GetCache mgr) Deployment)
             (EnqueueRequestForOwner mgr_GetScheme mgr_GetRESTMapper Sensor [OnlyControllerOwner])
             [GenerationChangedPredicate]
             ''Unable to watch Deployments''))"

text \<open>
  Lines 218 to 221: the manager runs until the signal handler's context is cancelled;
  what \<^verbatim>\<open>mgr.Start\<close> returns then is an outcome of the environment.
\<close>

definition Start_run :: "'c Externals \<Rightarrow> 'c World \<Rightarrow> (unit, 'c) Result" where
  "Start_run x w =
     orFatal Call_mgr_Start (mgr_Start x) ''Unable to start controller manager''
       (log InfoLevel ''Starting controller manager'' w)"

text \<open>Lines 125 to 221 together: the three controllers, then the run.\<close>

definition Start_controllers ::
    "'c Externals \<Rightarrow> Manager \<Rightarrow> KubeClient \<Rightarrow> 'c \<Rightarrow> string \<Rightarrow> 'c World \<Rightarrow> (unit, 'c) Result" where
  "Start_controllers x mgr kc config imageName =
     bind (Start_eventbus x mgr kc config) (\<lambda>_.
     bind (Start_eventsource x mgr imageName) (\<lambda>_.
     bind (Start_sensor x mgr imageName) (\<lambda>_.
     Start_run x)))"

text \<open>
  The whole function, from a fresh process. The callback handed to
  \<^verbatim>\<open>controllers.LoadConfig\<close> (it logs a failed reload of the configuration file)
  runs only after bootstrap, from the loader's file watcher, and is not part of the
  sequence.
\<close>

definition Start :: "ArgoEventsControllerOpts \<Rightarrow> 'c Externals \<Rightarrow> (unit, 'c) Result" where
  "Start eventsOpts x =
     bind (LoadConfig x) (\<lambda>config.
     bind (orFatal (Call_ValidateConfig config) (controllers_ValidateConfig x config)
             ''Global configuration file validation failed'') (\<lambda>_.
     bind (LookupImage x) (\<lambda>imageName.
     bind (Start_options eventsOpts x) (\<lambda>opts.
     bind (Start_manager x opts) (\<lambda>(mgr, kc).
     Start_controllers x mgr kc config imageName))))) init_World"

text \<open>The world a run ends in, and whether the process exited.\<close>

fun world_of :: "('a, 'c) Result \<Rightarrow> 'c World" where
  "world_of (Inl (code, w)) = w"
| "world_of (Inr (a, w)) = w"

fun exit_code :: "('a, 'c) Result \<Rightarrow> int option" where
  "exit_code (Inl (code, w)) = Some code"
| "exit_code (Inr (a, w)) = None"

subsection \<open>Reading a run\<close>

text \<open>The three optional keys of the leader election, as \<^verbatim>\<open>Start\<close> names them.\<close>

definition leaderElectionKeys :: "string list" where
  "leaderElectionKeys =
     [''LEADER_ELECTION_LEASE_DURATION'', ''LEADER_ELECTION_RENEW_DEADLINE'',
      ''LEADER_ELECTION_RETRY_PERIOD'']"

text \<open>
  A value is malformed for a key when the key is set, its value is not empty and
  \<^verbatim>\<open>time.ParseDuration\<close> returns an error for it.
\<close>

definition malformed :: "'c Externals \<Rightarrow> string \<Rightarrow> bool" where
  "malformed x key =
     (case os_LookupEnv x key of
        None \<Rightarrow> False
      | Some v \<Rightarrow> v \<noteq> [] \<and> isl (time_ParseDuration x v))"

text \<open>
  Whether a call returned what the code treats as an error. Looking up a key of the
  environment is an error only for the required image name.
\<close>

fun call_failed :: "'c Externals \<Rightarrow> 'c Call \<Rightarrow> bool" where
  "call_failed x Call_LoadConfig = isl (controllers_LoadConfig x)"
| "call_failed x (Call_ValidateConfig config) = (controllers_ValidateConfig x config \<noteq> None)"
| "call_failed x (Call_LookupEnv key) = (key = imageEnvVar \<and> os_LookupEnv x key = None)"
| "call_failed x (Call_ParseDuration key v) = isl (time_ParseDuration x v)"
| "call_failed x Call_GetConfigOrDie = (ctrl_GetConfig x \<noteq> None)"
| "call_failed x (Call_NewManager opts) = (ctrl_NewManager x opts \<noteq> None)"
| "call_failed x Call_NewForConfigOrDie = (kubernetes_NewForConfig x \<noteq> None)"
| "call_failed x (Call_AddReadyzCheck n) = (mgr_AddReadyzCheck x n \<noteq> None)"
| "call_failed x (Call_AddHealthzCheck n) = (mgr_AddHealthzCheck x n \<noteq> None)"
| "call_failed x (Call_AddToScheme k) = (AddToScheme x k \<noteq> None)"
| "call_failed x (Call_controller_New n) = (controller_New x n \<noteq> None)"
| "call_failed x (Call_Watch n k) = (controller_Watch x n k \<noteq> None)"
| "call_failed x Call_mgr_Start = (mgr_Start x \<noteq> None)"

text \<open>
  The place of a call in the bootstrap sequence of section 4.6 of the specification:
  load the configuration, validate it, resolve the image name, assemble the options
  (the three durations), construct the manager, register the probes, register the
  three kinds with the scheme, build each controller and register its watches (bus,
  source, sensor; the primary watch first, then the secondary ones as the table of
  section 4.4 lists them), run. The two calls that open the cluster connection, which
  the specification does not list, stand where the code makes them. A call the file
  never makes has the place of its group.
\<close>

fun bootstrap_position :: "'c Call \<Rightarrow> nat" where
  "bootstrap_position Call_LoadConfig = 0"
| "bootstrap_position (Call_ValidateConfig config) = 1"
| "bootstrap_position (Call_LookupEnv key) =
     (if key = ''LEADER_ELECTION_LEASE_DURATION'' then 3
      else if key = ''LEADER_ELECTION_RENEW_DEADLINE'' then 5
      else if key = ''LEADER_ELECTION_RETRY_PERIOD'' then 7
      else 2)"
| "bootstrap_position (Call_ParseDuration key v) =
     (if key = ''LEADER_ELECTION_LEASE_DURATION'' then 4
      else if key = ''LEADER_ELECTION_RENEW_DEADLINE'' then 6
      else 8)"
| "bootstrap_position Call_GetConfigOrDie = 9"
| "bootstrap_position (Call_NewManager opts) = 10"
| "bootstrap_position Call_NewForConfigOrDie = 11"
| "bootstrap_position (Call_AddReadyzCheck n) = 12"
| "bootstrap_position (Call_AddHealthzCheck n) = 13"
| "bootstrap_position (Call_AddToScheme k) =
     (if k = EventBus then 14 else if k = EventSource then 15 else 16)"
| "bootstrap_position (Call_controller_New n) =
     (case n of eventbus_ControllerName \<Rightarrow> 17
              | eventsource_ControllerName \<Rightarrow> 22
              | sensor_ControllerName \<Rightarrow> 26)"
| "bootstrap_position (Call_Watch n k) =
     (case n of
        eventbus_ControllerName \<Rightarrow>
          (if k = EventBus then 18 else if k = ConfigMap then 19
           else if k = StatefulSet then 20 else 21)
      | eventsource_ControllerName \<Rightarrow>
          (if k = EventSource then 23 else if k = Deployment then 24 else 25)
      | sensor_ControllerName \<Rightarrow>
          (if k = Sensor then 27 else 28))"
| "bootstrap_position Call_mgr_Start = 29"

fun is_registration :: "'c Call \<Rightarrow> bool" where
  "is_registration (Call_controller_New n) = True"
| "is_registration (Call_Watch n k) = True"
| "is_registration c = False"

text \<open>
  The places every run passes that gets that far: all but the three calls of
  \<^verbatim>\<open>time.ParseDuration\<close>, which are made only for a key that is set and not
  empty, and, without leader election, the three lookups of the optional keys.
\<close>

definition expected :: "bool \<Rightarrow> nat \<Rightarrow> bool" where
  "expected le p = (p \<noteq> 4 \<and> p \<noteq> 6 \<and> p \<noteq> 8 \<and> (le \<or> (p \<noteq> 3 \<and> p \<noteq> 5 \<and> p \<noteq> 7)))"

text \<open>
  The places a run may pass at all: without leader election, none of the six places
  of the optional keys.
\<close>

definition called :: "bool \<Rightarrow> nat \<Rightarrow> bool" where
  "called le p = (le \<or> p < 3 \<or> 9 \<le> p)"

text \<open>
  A run from world \<open>w\<close> with result \<open>r\<close> keeps the bootstrap discipline between the
  places \<open>lo\<close> and \<open>hi\<close>: the calls it adds are in strictly increasing place, each at
  a place the run may pass, no call but the last returned an error, no expected place
  before the last call made was skipped, and the process exited (with a status other
  than 0) exactly when the last call returned an error; a run that did not exit passed
  every expected place.
\<close>

definition disciplined ::
    "bool \<Rightarrow> 'c Externals \<Rightarrow> nat \<Rightarrow> nat \<Rightarrow> 'c World \<Rightarrow> ('a, 'c) Result \<Rightarrow> bool" where
  "disciplined le x lo hi w r =
     (let cs = drop (length (calls w)) (calls (world_of r));
          reached = (case exit_code r of None \<Rightarrow> hi | Some code \<Rightarrow> bootstrap_position (last cs))
      in
        calls (world_of r) = calls w @ cs \<and>
        sorted_wrt (<) (map bootstrap_position cs) \<and>
        list_all (\<lambda>c. lo \<le> bootstrap_position c \<and> bootstrap_position c < hi) cs \<and>
        list_all (\<lambda>c. called le (bootstrap_position c)) cs \<and>
        list_all (\<lambda>c. \<not> call_failed x c) (butlast cs) \<and>
        list_all (\<lambda>p. expected le p \<longrightarrow> p \<in> set (map bootstrap_position cs)) [lo..<reached] \<and>
        (case exit_code r of
           None \<Rightarrow> list_all (\<lambda>c. \<not> call_failed x c) cs
         | Some code \<Rightarrow> code \<noteq> 0 \<and> cs \<noteq> [] \<and> call_failed x (last cs)))"

text \<open>
  A run from world \<open>w\<close> with result \<open>r\<close> registers the controllers \<open>cs\<close> and the
  watches \<open>ws\<close>: it leaves the manager as it is, a run that did not exit added exactly
  \<open>cs\<close> and \<open>ws\<close>, in this order, and a run that exited added some of them, from
  the front.
\<close>

definition registers ::
    "'c Controller list \<Rightarrow> Watch list \<Rightarrow> 'c World \<Rightarrow> ('a, 'c) Result \<Rightarrow> bool" where
  "registers cs ws w r =
     (manager (world_of r) = manager w \<and>
      (case exit_code r of
         None \<Rightarrow>
           controllers (world_of r) = controllers w @ cs \<and> watches (world_of r) = watches w @ ws
       | Some code \<Rightarrow>
           prefix (controllers (world_of r)) (controllers w @ cs) \<and>
           prefix (watches (world_of r)) (watches w @ ws)))"

text \<open>
  Nothing has been built: no manager, no controller, no watch, and every call made
  stands before the construction of the manager (place 10). No such call builds a
  controller, registers a watch or starts the manager.
\<close>

definition untouched :: "'c World \<Rightarrow> bool" where
  "untouched w =
     (manager w = None \<and> controllers w = [] \<and> watches w = [] \<and>
      list_all (\<lambda>c. bootstrap_position c < 10) (calls w))"

text \<open>Every watch of the world was registered on a controller the world holds.\<close>

definition owned :: "'c World \<Rightarrow> bool" where
  "owned w = list_all (\<lambda>wt. list_ex (\<lambda>c. controller_name c = watch_controller wt) (controllers w))
     (watches w)"

text \<open>
  Section 6 of the specification: "namespaced=true" restricts the object cache to
  the managed namespace; otherwise no namespace is configured and the cache is
  cluster-scoped.
\<close>

definition spec_cacheScope :: "ArgoEventsControllerOpts \<Rightarrow> cache_Options" where
  "spec_cacheScope eventsOpts =
     \<lparr>DefaultNamespaces =
        (if Namespaced eventsOpts then [ManagedNamespace eventsOpts \<mapsto> ()] else Map.empty)\<rparr>"

subsection \<open>The wiring as the specification tabulates it\<close>

text \<open>
  Section 4.4 of the specification: a primary watch has the predicate
  "generation changed or labels changed" and enqueues the object itself; a secondary
  watch has the predicate "generation changed" only and enqueues the controlling owner
  of the registered kind. The table gives, per controller, the primary kind and the
  secondary kinds.
\<close>

definition primary_watch :: "cache_Options \<Rightarrow> ControllerName \<Rightarrow> Kind \<Rightarrow> Watch" where
  "primary_watch c n k =
     \<lparr>watch_controller = n, watch_source = source_Kind c k,
      watch_handler = EnqueueRequestForObject,
      watch_predicates = [predicate_Or [GenerationChangedPredicate, LabelChangedPredicate]]\<rparr>"

definition secondary_watch :: "cache_Options \<Rightarrow> ControllerName \<Rightarrow> Kind \<Rightarrow> Kind \<Rightarrow> Watch" where
  "secondary_watch c n owner k =
     \<lparr>watch_controller = n, watch_source = source_Kind c k,
      watch_handler = EnqueueRequestForOwner mgr_GetScheme mgr_GetRESTMapper owner [OnlyControllerOwner],
      watch_predicates = [GenerationChangedPredicate]\<rparr>"

definition wiring_table :: "(ControllerName \<times> Kind \<times> Kind list) list" where
  "wiring_table =
     [(eventbus_ControllerName, EventBus, [ConfigMap, StatefulSet, Service]),
      (eventsource_ControllerName, EventSource, [Deployment, Service]),
      (sensor_ControllerName, Sensor, [Deployment])]"

definition wiring :: "cache_Options \<Rightarrow> Watch list" where
  "wiring c =
     concat (map (\<lambda>(n, k, ks). primary_watch c n k # map (secondary_watch c n k) ks) wiring_table)"

text \<open>The kind a controller reconciles, and the kind a watch enqueues requests for.\<close>

fun reconciler_kind :: "'c Reconciler \<Rightarrow> Kind" where
  "reconciler_kind (eventbus_NewReconciler c kc s config l) = EventBus"
| "reconciler_kind (eventsource_NewReconciler c s img l) = EventSource"
| "reconciler_kind (sensor_NewReconciler c s img l) = Sensor"

definition watch_target :: "Watch \<Rightarrow> Kind" where
  "watch_target wt =
     (case watch_handler wt of
        EnqueueRequestForObject \<Rightarrow> source_kind (watch_source wt)
      | EnqueueRequestForOwner s m owner opts \<Rightarrow> owner)"

definition is_primary :: "Kind \<Rightarrow> bool" where
  "is_primary k = (k = EventBus \<or> k = EventSource \<or> k = Sensor)"

text \<open>The image name a reconciler was given, if it was given one.\<close>

fun reconciler_image :: "'c Reconciler \<Rightarrow> string option" where
  "reconciler_image (eventbus_NewReconciler c kc s config l) = None"
| "reconciler_image (eventsource_NewReconciler c s img l) = Some img"
| "reconciler_image (sensor_NewReconciler c s img l) = Some img"

text \<open>
  A reconciler, a controller and a world with the image name replaced by \<open>v\<close>
  wherever a reconciler was given one, and a result with its world transformed.
\<close>

fun set_image :: "string \<Rightarrow> 'c Reconciler \<Rightarrow> 'c Reconciler" where
  "set_image v (eventbus_NewReconciler c kc s config l) = eventbus_NewReconciler c kc s config l"
| "set_image v (eventsource_NewReconciler c s img l) = eventsource_NewReconciler c s v l"
| "set_image v (sensor_NewReconciler c s img l) = sensor_NewReconciler c s v l"

definition set_image_controller :: "string \<Rightarrow> 'c Controller \<Rightarrow> 'c Controller" where
  "set_image_controller v c = c\<lparr>controller_Reconciler := set_image v (controller_Reconciler c)\<rparr>"

definition set_image_world :: "string \<Rightarrow> 'c World \<Rightarrow> 'c World" where
  "set_image_world v w = w\<lparr>controllers := map (set_image_controller v) (controllers w)\<rparr>"

fun map_world :: "('c World \<Rightarrow> 'c World) \<Rightarrow> ('a, 'c) Result \<Rightarrow> ('a, 'c) Result" where
  "map_world F (Inl (code, w)) = Inl (code, F w)"
| "map_world F (Inr (a, w)) = Inr (a, F w)"

text \<open>The collaborators with the image variable set to \<open>v\<close>.\<close>

definition with_image :: "string \<Rightarrow> 'c Externals \<Rightarrow> 'c Externals" where
  "with_image v x = x\<lparr>os_LookupEnv := (os_LookupEnv x)(imageEnvVar \<mapsto> v)\<rparr>"

text \<open>
  Two computations commute with a transformation \<open>F\<close> of the world (and \<open>G\<close> of the
  value): the second, run from the transformed world, ends as the first does, in the
  transformed world and with the transformed value.
\<close>

definition commutes :: "('c World \<Rightarrow> 'c World) \<Rightarrow> ('a \<Rightarrow> 'b)
    \<Rightarrow> ('c World \<Rightarrow> ('a, 'c) Result) \<Rightarrow> ('c World \<Rightarrow> ('b, 'c) Result) \<Rightarrow> bool" where
  "commutes F G m1 m2 =
     (\<forall>w. m2 (F w) = (case m1 w of Inl (code, w') \<Rightarrow> Inl (code, F w')
                                | Inr (a, w') \<Rightarrow> Inr (G a, F w')))"

subsection \<open>Events\<close>

text \<open>
  Modelled from the spec: the predicates and event handlers of the controller runtime
  (\<^verbatim>\<open>sigs.k8s.io/controller-runtime\<close>, packages \<^verbatim>\<open>predicate\<close> and \<^verbatim>\<open>handler\<close>),
  which the file configures and whose code is not part of the repository. Section 3
  and section 4.4 of the specification: a predicate is a boolean function over the old
  and the new object; "generation changed" and "labels changed" compare the two
  objects' generation and labels; an object's own handler enqueues the object's
  namespaced name; an owner handler resolves the object's controller-owner reference
  and, if it names the registered kind, enqueues the owner's namespaced name, and
  otherwise drops the event.
\<close>

record OwnerReference =
  ref_Kind :: Kind
  ref_Name :: string
  ref_Controller :: bool

record Object =
  obj_Kind :: Kind
  obj_Namespace :: string
  obj_Name :: string
  obj_Generation :: int
  obj_Labels :: "string \<rightharpoonup> string"
  obj_OwnerReferences :: "OwnerReference list"
  obj_Status :: string

type_synonym Request = "string \<times> string"

fun holds :: "Predicate \<Rightarrow> Object \<Rightarrow> Object \<Rightarrow> bool" where
  "holds GenerationChangedPredicate old new = (obj_Generation old \<noteq> obj_Generation new)"
| "holds LabelChangedPredicate old new = (obj_Labels old \<noteq> obj_Labels new)"
| "holds (predicate_Or ps) old new = list_ex (\<lambda>p. holds p old new) ps"

fun handler_requests :: "EventHandler \<Rightarrow> Object \<Rightarrow> Request list" where
  "handler_requests EnqueueRequestForObject obj = [(obj_Namespace obj, obj_Name obj)]"
| "handler_requests (EnqueueRequestForOwner s m owner opts) obj =
     (case find ref_Controller (obj_OwnerReferences obj) of
        None \<Rightarrow> []
      | Some r \<Rightarrow> if ref_Kind r = owner then [(obj_Namespace obj, ref_Name r)] else [])"

text \<open>
  What an update of an object (from \<open>old\<close> to \<open>new\<close>) enqueues through one watch, and
  through a list of watches, with the controller whose queue receives each request.
\<close>

definition watch_enqueues :: "Watch \<Rightarrow> Object \<Rightarrow> Object \<Rightarrow> Request list" where
  "watch_enqueues wt old new =
     (if source_kind (watch_source wt) = obj_Kind new
         \<and> list_all (\<lambda>p. holds p old new) (watch_predicates wt)
      then handler_requests (watch_handler wt) new
      else [])"

definition dispatch :: "Watch list \<Rightarrow> Object \<Rightarrow> Object \<Rightarrow> (ControllerName \<times> Request) list" where
  "dispatch ws old new =
     concat (map (\<lambda>wt. map (Pair (watch_controller wt)) (watch_enqueues wt old new)) ws)"

subsection \<open>Sample inputs\<close>

text \<open>
  Inputs for the examples. \<open>sample_ParseDuration\<close> is a table of two outcomes of
  \<^verbatim>\<open>time.ParseDuration\<close>: the standard library parses "20s" as twenty seconds and
  rejects "abc". A string that is not in the table is given an error here; no example
  uses one. \<open>healthy env\<close> is an environment \<open>env\<close> in which every collaborator
  succeeds.
\<close>

definition sample_ParseDuration :: "string \<Rightarrow> string + Duration" where
  "sample_ParseDuration s =
     (if s = ''20s'' then Inr (20 * Second)
      else if s = ''abc'' then Inl ''time: invalid duration''
      else Inl ''not in the sample table'')"

definition healthy :: "(string \<rightharpoonup> string) \<Rightarrow> string Externals" where
  "healthy env =
     \<lparr>os_LookupEnv = env,
      time_ParseDuration = sample_ParseDuration,
      controllers_LoadConfig = Inr ''config'',
      controllers_ValidateConfig = (\<lambda>config. None),
      ctrl_GetConfig = None,
      ctrl_NewManager = (\<lambda>opts. None),
      kubernetes_NewForConfig = None,
      mgr_AddReadyzCheck = (\<lambda>n. None),
      mgr_AddHealthzCheck = (\<lambda>n. None),
      AddToScheme = (\<lambda>k. None),
      controller_New = (\<lambda>n. None),
      controller_Watch = (\<lambda>n k. None),
      mgr_Start = None\<rparr>"

definition sample_Opts :: "bool \<Rightarrow> bool \<Rightarrow> ArgoEventsControllerOpts" where
  "sample_Opts namespaced leaderElection =
     \<lparr>Namespaced = namespaced, ManagedNamespace = ''argo-events'',
      LeaderElection = leaderElection, MetricsPort = 7777, HealthPort = 8081\<rparr>"

text \<open>
  Every collaborator succeeds but \<^verbatim>\<open>Watch\<close> on Deployments for the EventSource
  controller, which returns an error.
\<close>

definition failing_Watch :: "string Externals" where
  "failing_Watch = (healthy [imageEnvVar \<mapsto> ''img''])
     \<lparr>controller_Watch := (\<lambda>n k. if n = eventsource_ControllerName \<and> k = Deployment
                                  then Some ''no kind match'' else None)\<rparr>"

text \<open>
  A config map in namespace "argo-events" with the given generation, labels and
  owner references, and an event bus "default" in the same namespace.
\<close>

definition sample_ConfigMap :: "int \<Rightarrow> (string \<rightharpoonup> string) \<Rightarrow> OwnerReference list \<Rightarrow> Object" where
  "sample_ConfigMap g ls refs =
     \<lparr>obj_Kind = ConfigMap, obj_Namespace = ''argo-events'', obj_Name = ''default-config'',
      obj_Generation = g, obj_Labels = ls, obj_OwnerReferences = refs, obj_Status = []\<rparr>"

definition sample_EventBus :: "int \<Rightarrow> (string \<rightharpoonup> string) \<Rightarrow> string \<Rightarrow> Object" where
  "sample_EventBus g ls status =
     \<lparr>obj_Kind = EventBus, obj_Namespace = ''argo-events'', obj_Name = ''default'',
      obj_Generation = g, obj_Labels = ls, obj_OwnerReferences = [], obj_Status = status\<rparr>"

section \<open>Sequencing and the bootstrap discipline\<close>

lemma Second_times: "15 * Second = 15000000000" "10 * Second = 10000000000" "5 * Second = 5000000000"
  by (simp_all add: Second_def)

lemma bind_Inl: "m w = Inl e \<Longrightarrow> bind m f w = Inl e"
  by (simp add: bind_def)

lemma bind_Inr: "m w = Inr (a, w') \<Longrightarrow> bind m f w = f a w'"
  by (simp add: bind_def)

lemma disciplinedI:
  assumes "calls (world_of r) = calls w @ cs"
    and "sorted_wrt (<) (map bootstrap_position cs)"
    and "list_all (\<lambda>c. lo \<le> bootstrap_position c \<and> bootstrap_position c < hi) cs"
    and "list_all (\<lambda>c. called le (bootstrap_position c)) cs"
    and "list_all (\<lambda>c. \<not> call_failed x c) (butlast cs)"
    and "\<And>p. lo \<le> p \<Longrightarrow> expected le p \<Longrightarrow>
           p < (case exit_code r of None \<Rightarrow> hi | Some code \<Rightarrow> bootstrap_position (last cs)) \<Longrightarrow>
           p \<in> bootstrap_position ` set cs"
    and "case exit_code r of
           None \<Rightarrow> list_all (\<lambda>c. \<not> call_failed x c) cs
         | Some code \<Rightarrow> code \<noteq> 0 \<and> cs \<noteq> [] \<and> call_failed x (last cs)"
  shows "disciplined le x lo hi w r"
  using assms by (simp add: disciplined_def Let_def list_all_iff)

lemma disciplinedD:
  assumes "disciplined le x lo hi w r"
  obtains cs where "calls (world_of r) = calls w @ cs"
    and "sorted_wrt (<) (map bootstrap_position cs)"
    and "list_all (\<lambda>c. lo \<le> bootstrap_position c \<and> bootstrap_position c < hi) cs"
    and "list_all (\<lambda>c. called le (bootstrap_position c)) cs"
    and "list_all (\<lambda>c. \<not> call_failed x c) (butlast cs)"
    and "\<forall>p. lo \<le> p \<longrightarrow> expected le p \<longrightarrow>
           p < (case exit_code r of None \<Rightarrow> hi | Some code \<Rightarrow> bootstrap_position (last cs)) \<longrightarrow>
           p \<in> bootstrap_position ` set cs"
    and "case exit_code r of
           None \<Rightarrow> list_all (\<lambda>c. \<not> call_failed x c) cs
         | Some code \<Rightarrow> code \<noteq> 0 \<and> cs \<noteq> [] \<and> call_failed x (last cs)"
proof -
  let ?cs = "drop (length (calls w)) (calls (world_of r))"
  from assms have "calls (world_of r) = calls w @ ?cs"
    and "sorted_wrt (<) (map bootstrap_position ?cs)"
    and "list_all (\<lambda>c. lo \<le> bootstrap_position c \<and> bootstrap_position c < hi) ?cs"
    and "list_all (\<lambda>c. called le (bootstrap_position c)) ?cs"
    and "list_all (\<lambda>c. \<not> call_failed x c) (butlast ?cs)"
    and "\<forall>p. lo \<le> p \<longrightarrow> expected le p \<longrightarrow>
           p < (case exit_code r of None \<Rightarrow> hi | Some code \<Rightarrow> bootstrap_position (last ?cs)) \<longrightarrow>
           p \<in> bootstrap_position ` set ?cs"
    and "case exit_code r of
           None \<Rightarrow> list_all (\<lambda>c. \<not> call_failed x c) ?cs
         | Some code \<Rightarrow> code \<noteq> 0 \<and> ?cs \<noteq> [] \<and> call_failed x (last ?cs)"
    by (simp_all add: disciplined_def Let_def list_all_iff)
  then show thesis by (rule that)
qed

lemma disciplined_bind:
  assumes m: "disciplined le x lo mid w (m w)"
    and f: "\<And>a w'. m w = Inr (a, w') \<Longrightarrow> disciplined le x mid hi w' (f a w')"
    and le: "lo \<le> mid" "mid \<le> hi"
  shows "disciplined le x lo hi w (bind m f w)"
proof (cases "m w")
  case (Inl e)
  obtain code w1 where e: "e = (code, w1)" by (cases e)
  with Inl have b: "bind m f w = Inl (code, w1)" and mw: "m w = Inl (code, w1)"
    by (simp_all add: bind_def)
  from m obtain cs where c1: "calls (world_of (m w)) = calls w @ cs"
    and c2: "sorted_wrt (<) (map bootstrap_position cs)"
    and c3: "list_all (\<lambda>c. lo \<le> bootstrap_position c \<and> bootstrap_position c < mid) cs"
    and c4: "list_all (\<lambda>c. called le (bootstrap_position c)) cs"
    and c5: "list_all (\<lambda>c. \<not> call_failed x c) (butlast cs)"
    and c6: "\<forall>p. lo \<le> p \<longrightarrow> expected le p \<longrightarrow>
           p < (case exit_code (m w) of None \<Rightarrow> mid | Some code \<Rightarrow> bootstrap_position (last cs)) \<longrightarrow>
           p \<in> bootstrap_position ` set cs"
    and c7: "case exit_code (m w) of
           None \<Rightarrow> list_all (\<lambda>c. \<not> call_failed x c) cs
         | Some code \<Rightarrow> code \<noteq> 0 \<and> cs \<noteq> [] \<and> call_failed x (last cs)"
    by (rule disciplinedD)
  have c3': "list_all (\<lambda>c. lo \<le> bootstrap_position c \<and> bootstrap_position c < hi) cs"
    using c3 le by (auto simp add: list_all_iff)
  show ?thesis
    unfolding b
    using c1 c2 c3' c4 c5 c6 c7 unfolding mw
    by (intro disciplinedI [where cs = cs]) simp_all
next
  case (Inr p)
  obtain a w' where p: "p = (a, w')" by (cases p)
  with Inr have mw: "m w = Inr (a, w')" by simp
  then have b: "bind m f w = f a w'" by (rule bind_Inr)
  from m obtain cs1 where c1: "calls w' = calls w @ cs1"
    and c2: "sorted_wrt (<) (map bootstrap_position cs1)"
    and c3: "list_all (\<lambda>c. lo \<le> bootstrap_position c \<and> bootstrap_position c < mid) cs1"
    and c4: "list_all (\<lambda>c. called le (bootstrap_position c)) cs1"
    and c5: "list_all (\<lambda>c. \<not> call_failed x c) cs1"
    and c6: "\<forall>p. lo \<le> p \<longrightarrow> expected le p \<longrightarrow> p < mid \<longrightarrow> p \<in> bootstrap_position ` set cs1"
    unfolding mw by (auto elim!: disciplinedD)
  from f [OF mw] obtain cs2 where d1: "calls (world_of (f a w')) = calls w' @ cs2"
    and d2: "sorted_wrt (<) (map bootstrap_position cs2)"
    and d3: "list_all (\<lambda>c. mid \<le> bootstrap_position c \<and> bootstrap_position c < hi) cs2"
    and d4: "list_all (\<lambda>c. called le (bootstrap_position c)) cs2"
    and d5: "list_all (\<lambda>c. \<not> call_failed x c) (butlast cs2)"
    and d6: "\<forall>p. mid \<le> p \<longrightarrow> expected le p \<longrightarrow>
           p < (case exit_code (f a w') of None \<Rightarrow> hi | Some code \<Rightarrow> bootstrap_position (last cs2)) \<longrightarrow>
           p \<in> bootstrap_position ` set cs2"
    and d7: "case exit_code (f a w') of
           None \<Rightarrow> list_all (\<lambda>c. \<not> call_failed x c) cs2
         | Some code \<Rightarrow> code \<noteq> 0 \<and> cs2 \<noteq> [] \<and> call_failed x (last cs2)"
    by (rule disciplinedD)
  have 1: "calls (world_of (f a w')) = calls w @ (cs1 @ cs2)"
    using c1 d1 by simp
  have 2: "sorted_wrt (<) (map bootstrap_position (cs1 @ cs2))"
    using c2 c3 d2 d3 by (fastforce simp add: sorted_wrt_append list_all_iff)
  have 3: "list_all (\<lambda>c. lo \<le> bootstrap_position c \<and> bootstrap_position c < hi) (cs1 @ cs2)"
    using c3 d3 le by (fastforce simp add: list_all_iff)
  have 4: "list_all (\<lambda>c. called le (bootstrap_position c)) (cs1 @ cs2)"
    using c4 d4 by simp
  have 5: "list_all (\<lambda>c. \<not> call_failed x c) (butlast (cs1 @ cs2))"
    using c5 d5 by (auto simp add: butlast_append list_all_iff dest: in_set_butlastD)
  have 6: "p \<in> bootstrap_position ` set (cs1 @ cs2)"
    if "lo \<le> p" "expected le p"
      "p < (case exit_code (f a w') of None \<Rightarrow> hi | Some code \<Rightarrow> bootstrap_position (last (cs1 @ cs2)))"
    for p
  proof (cases "p < mid")
    case True
    with that c6 show ?thesis by auto
  next
    case False
    moreover have "last (cs1 @ cs2) = last cs2" if "exit_code (f a w') \<noteq> None"
      using that d7 by (auto split: option.splits)
    ultimately have "p \<in> bootstrap_position ` set cs2"
      using that d6 [rule_format, of p] by (auto split: option.splits)
    then show ?thesis by auto
  qed
  have 7: "case exit_code (f a w') of
           None \<Rightarrow> list_all (\<lambda>c. \<not> call_failed x c) (cs1 @ cs2)
         | Some code \<Rightarrow> code \<noteq> 0 \<and> cs1 @ cs2 \<noteq> [] \<and> call_failed x (last (cs1 @ cs2))"
    using c5 d7 by (auto split: option.splits)
  show ?thesis unfolding b by (rule disciplinedI [OF 1 2 3 4 5 6 7])
qed

lemma disciplined_skip:
  assumes "\<And>p. lo \<le> p \<Longrightarrow> p < hi \<Longrightarrow> \<not> expected le p"
  shows "disciplined le x lo hi w (Inr (a, w))"
  using assms by (intro disciplinedI [where cs = "[]"]) auto

lemma disciplined_return: "disciplined le x p p w (Inr (a, w))"
  by (rule disciplined_skip) simp

lemma disciplined_one_call:
  assumes c: "calls (world_of r) = calls w @ [c]"
    and p: "bootstrap_position c = p" and q: "q = Suc p" and a: "called le p"
    and ok: "exit_code r = None \<Longrightarrow> \<not> call_failed x c"
    and ex: "\<And>code. exit_code r = Some code \<Longrightarrow> code \<noteq> 0 \<and> call_failed x c"
  shows "disciplined le x p q w r"
proof (rule disciplinedI [where cs = "[c]"])
  show "calls (world_of r) = calls w @ [c]" by (rule c)
  show "sorted_wrt (<) (map bootstrap_position [c])" by simp
  show "list_all (\<lambda>c. p \<le> bootstrap_position c \<and> bootstrap_position c < q) [c]"
    using p q by simp
  show "list_all (\<lambda>c. called le (bootstrap_position c)) [c]"
    using p a by simp
  show "list_all (\<lambda>c. \<not> call_failed x c) (butlast [c])" by simp
  show "case exit_code r of
           None \<Rightarrow> list_all (\<lambda>c. \<not> call_failed x c) [c]
         | Some code \<Rightarrow> code \<noteq> 0 \<and> [c] \<noteq> [] \<and> call_failed x (last [c])"
    using ok ex by (cases "exit_code r") simp_all
  fix p'
  assume "p \<le> p'" "expected le p'"
    "p' < (case exit_code r of None \<Rightarrow> q | Some code \<Rightarrow> bootstrap_position (last [c]))"
  then have "p' = p" using p q by (cases "exit_code r") simp_all
  then show "p' \<in> bootstrap_position ` set [c]" using p by simp
qed

lemma disciplined_orFatal:
  assumes "bootstrap_position c = p" "call_failed x c \<longleftrightarrow> err \<noteq> None" "q = Suc p" "called le p"
  shows "disciplined le x p q w (orFatal c err msg w)"
  using assms
  by (intro disciplined_one_call [where c = c]; cases err)
    (simp_all add: orFatal_def invoke_def Fatalw_def log_def)

lemma disciplined_lookupEnvDurationOr:
  assumes pos: "bootstrap_position (Call_LookupEnv key :: 'c Call) = p"
    and pos': "\<And>v. bootstrap_position (Call_ParseDuration key v :: 'c Call) = Suc p"
    and key: "key \<noteq> imageEnvVar" and q: "q = Suc (Suc p)" and ne: "\<not> expected le (Suc p)"
    and le: "le"
  shows "disciplined le (x :: 'c Externals) p q w (lookupEnvDurationOr x key d w)"
proof -
  let ?r = "lookupEnvDurationOr x key d w"
  have nf: "\<not> call_failed x (Call_LookupEnv key)" using key by simp
  have fallback: "disciplined le x p q w ?r" if r: "?r = Inr (d, invoke (Call_LookupEnv key) w)"
  proof (rule disciplinedI [where cs = "[Call_LookupEnv key]"])
    show "calls (world_of ?r) = calls w @ [Call_LookupEnv key]"
      by (simp add: r invoke_def)
    show "sorted_wrt (<) (map bootstrap_position [Call_LookupEnv key :: 'c Call])" by simp
    show "list_all (\<lambda>c. p \<le> bootstrap_position c \<and> bootstrap_position c < q) [Call_LookupEnv key :: 'c Call]"
      using pos q by (simp del: bootstrap_position.simps)
    show "list_all (\<lambda>c. called le (bootstrap_position c)) [Call_LookupEnv key :: 'c Call]"
      using le by (simp add: called_def)
    show "list_all (\<lambda>c. \<not> call_failed x c) (butlast [Call_LookupEnv key])" by simp
    show "case exit_code ?r of
           None \<Rightarrow> list_all (\<lambda>c. \<not> call_failed x c) [Call_LookupEnv key]
         | Some code \<Rightarrow> code \<noteq> 0 \<and> [Call_LookupEnv key :: 'c Call] \<noteq> []
                         \<and> call_failed x (last [Call_LookupEnv key])"
      using nf by (simp add: r del: call_failed.simps)
    fix p'
    assume "p \<le> p'" "expected le p'"
      "p' < (case exit_code ?r of None \<Rightarrow> q
             | Some code \<Rightarrow> bootstrap_position (last [Call_LookupEnv key :: 'c Call]))"
    then have "p' = p" using q ne by (cases "p' = Suc p") (simp_all add: r)
    then show "p' \<in> bootstrap_position ` set [Call_LookupEnv key :: 'c Call]"
      using pos by (simp del: bootstrap_position.simps)
  qed
  show ?thesis
  proof (cases "os_LookupEnv x key")
    case None
    then show ?thesis by (intro fallback) (simp add: lookupEnvDurationOr_def)
  next
    case (Some v)
    show ?thesis
    proof (cases "v = []")
      case True
      with Some show ?thesis by (intro fallback) (simp add: lookupEnvDurationOr_def)
    next
      case False
      let ?cs = "[Call_LookupEnv key, Call_ParseDuration key v] :: 'c Call list"
      have c: "calls (world_of ?r) = calls w @ ?cs"
        using Some False
        by (cases "time_ParseDuration x v")
          (simp_all add: lookupEnvDurationOr_def invoke_def Fatalw_def log_def)
      have e: "case exit_code ?r of
           None \<Rightarrow> list_all (\<lambda>c. \<not> call_failed x c) ?cs
         | Some code \<Rightarrow> code \<noteq> 0 \<and> ?cs \<noteq> [] \<and> call_failed x (last ?cs)"
        using Some False key
        by (cases "time_ParseDuration x v")
          (simp_all add: lookupEnvDurationOr_def invoke_def Fatalw_def log_def)
      show ?thesis
      proof (rule disciplinedI [where cs = ?cs])
        show "calls (world_of ?r) = calls w @ ?cs" by (rule c)
        show "sorted_wrt (<) (map bootstrap_position ?cs)"
          using pos pos' by (simp del: bootstrap_position.simps)
        show "list_all (\<lambda>c. p \<le> bootstrap_position c \<and> bootstrap_position c < q) ?cs"
          using pos pos' q by (simp del: bootstrap_position.simps)
        show "list_all (\<lambda>c. called le (bootstrap_position c)) ?cs"
          using le by (simp add: called_def)
        show "list_all (\<lambda>c. \<not> call_failed x c) (butlast ?cs)" using key by simp
        show "case exit_code ?r of
           None \<Rightarrow> list_all (\<lambda>c. \<not> call_failed x c) ?cs
         | Some code \<Rightarrow> code \<noteq> 0 \<and> ?cs \<noteq> [] \<and> call_failed x (last ?cs)" by (rule e)
        fix p'
        assume "p \<le> p'" "expected le p'"
          "p' < (case exit_code ?r of None \<Rightarrow> q | Some code \<Rightarrow> bootstrap_position (last ?cs))"
        then have "p' < Suc (Suc p)" using q pos'
          by (cases "exit_code ?r") (simp_all del: bootstrap_position.simps)
        with \<open>p \<le> p'\<close> \<open>expected le p'\<close> ne have "p' = p" by (cases "p' = Suc p") simp_all
        then show "p' \<in> bootstrap_position ` set ?cs"
          using pos by (simp del: bootstrap_position.simps)
      qed
    qed
  qed
qed

lemma disciplined_GetConfigOrDie: "disciplined le x 9 10 w (GetConfigOrDie x w)"
  by (intro disciplined_one_call [where c = Call_GetConfigOrDie]; cases "ctrl_GetConfig x")
    (simp_all add: GetConfigOrDie_def invoke_def called_def)

lemma disciplined_NewManager: "disciplined le x 10 11 w (NewManager x opts w)"
  by (intro disciplined_one_call [where c = "Call_NewManager opts"]; cases "ctrl_NewManager x opts")
    (simp_all add: NewManager_def invoke_def Fatalw_def log_def Let_def called_def)

lemma disciplined_NewForConfigOrDie: "disciplined le x 11 12 w (NewForConfigOrDie x w)"
  by (intro disciplined_one_call [where c = Call_NewForConfigOrDie]; cases "kubernetes_NewForConfig x")
    (simp_all add: NewForConfigOrDie_def invoke_def called_def)

lemma disciplined_New:
  assumes "bootstrap_position (Call_controller_New n :: 'c Call) = p" "q = Suc p" "called le p"
  shows "disciplined le x p q w (New x n (r :: 'c Reconciler) msg w)"
  using assms
  by (intro disciplined_one_call [where c = "Call_controller_New n"]; cases "controller_New x n")
    (simp_all add: New_def invoke_def Fatalw_def log_def Let_def del: bootstrap_position.simps)

lemma New_Inr: "New x n r msg w = Inr (c, w') \<Longrightarrow> controller_name c = n"
  by (auto simp add: New_def Fatalw_def Let_def split: option.splits)

lemma disciplined_Watch_on:
  assumes "controller_name c = n" "bootstrap_position (Call_Watch n (source_kind src) :: 'c Call) = p"
    and "q = Suc p" "called le p"
  shows "disciplined le x p q w (Watch_on x (c :: 'c Controller) src h ps msg w)"
  using assms
  by (intro disciplined_one_call [where c = "Call_Watch n (source_kind src)"];
      cases "controller_Watch x n (source_kind src)")
    (simp_all add: Watch_on_def invoke_def Fatalw_def log_def Let_def del: bootstrap_position.simps)

lemma disciplined_LoadConfig: "disciplined le x 0 1 w (LoadConfig x w)"
  by (intro disciplined_one_call [where c = Call_LoadConfig]; cases "controllers_LoadConfig x")
    (simp_all add: LoadConfig_def invoke_def Fatalw_def log_def called_def)

lemma disciplined_LookupImage: "disciplined le x 2 3 w (LookupImage x w)"
  by (intro disciplined_one_call [where c = "Call_LookupEnv imageEnvVar"];
      cases "os_LookupEnv x imageEnvVar")
    (simp_all add: LookupImage_def invoke_def Fatalw_def log_def imageEnvVar_def called_def)

lemma disciplined_Start_options:
  "disciplined (LeaderElection eventsOpts) x 3 9 w (Start_options eventsOpts x w)"
proof (cases "LeaderElection eventsOpts")
  case False
  have "\<not> expected False p" if "3 \<le> p" "p < 9" for p
    using that unfolding expected_def by arith
  with False show ?thesis
    by (simp add: Start_options_def Let_def disciplined_skip)
next
  case True
  then show ?thesis
    unfolding Start_options_def Let_def
    apply (simp only: if_True)
    apply (rule disciplined_bind [where mid = 5])
       apply (rule disciplined_lookupEnvDurationOr [where p = 3]; simp add: imageEnvVar_def expected_def)
      apply (rule disciplined_bind [where mid = 7])
         apply (rule disciplined_lookupEnvDurationOr [where p = 5]; simp add: imageEnvVar_def expected_def)
        apply (rule disciplined_bind [where mid = 9])
           apply (rule disciplined_lookupEnvDurationOr [where p = 7]; simp add: imageEnvVar_def expected_def)
          apply (rule disciplined_return)
         apply simp_all
    done
qed

lemma disciplined_Start_manager: "disciplined le x 9 17 w (Start_manager x opts w)"
  unfolding Start_manager_def
  apply (rule disciplined_bind [where mid = 10])
     apply (rule disciplined_GetConfigOrDie)
    apply (rule disciplined_bind [where mid = 11])
       apply (rule disciplined_NewManager)
      apply (rule disciplined_bind [where mid = 12])
         apply (rule disciplined_NewForConfigOrDie)
        apply (rule disciplined_bind [where mid = 13])
           apply (rule disciplined_orFatal [where p = 12]; simp add: called_def)
          apply (rule disciplined_bind [where mid = 14])
             apply (rule disciplined_orFatal [where p = 13]; simp add: called_def)
            apply (rule disciplined_bind [where mid = 15])
               apply (rule disciplined_orFatal [where p = 14]; simp add: called_def)
              apply (rule disciplined_bind [where mid = 16])
                 apply (rule disciplined_orFatal [where p = 15]; simp add: called_def)
                apply (rule disciplined_bind [where mid = 17])
                   apply (rule disciplined_orFatal [where p = 16]; simp add: called_def)
                  apply (rule disciplined_return)
                 apply simp_all
  done

lemma disciplined_Start_eventbus: "disciplined le x 17 22 w (Start_eventbus x mgr kc config w)"
  unfolding Start_eventbus_def
  apply (rule disciplined_bind [where mid = 18])
     apply (rule disciplined_New [where p = 17]; simp add: called_def)
    apply (drule New_Inr)
    apply (rule disciplined_bind [where mid = 19])
       apply (rule disciplined_Watch_on [where p = 18 and n = eventbus_ControllerName]; simp add: called_def)
      apply (rule disciplined_bind [where mid = 20])
         apply (rule disciplined_Watch_on [where p = 19 and n = eventbus_ControllerName]; simp add: called_def)
        apply (rule disciplined_bind [where mid = 21])
           apply (rule disciplined_Watch_on [where p = 20 and n = eventbus_ControllerName]; simp add: called_def)
          apply (rule disciplined_Watch_on [where p = 21 and n = eventbus_ControllerName]; simp add: called_def)
         apply simp_all
  done

lemma disciplined_Start_eventsource: "disciplined le x 22 26 w (Start_eventsource x mgr imageName w)"
  unfolding Start_eventsource_def
  apply (rule disciplined_bind [where mid = 23])
     apply (rule disciplined_New [where p = 22]; simp add: called_def)
    apply (drule New_Inr)
    apply (rule disciplined_bind [where mid = 24])
       apply (rule disciplined_Watch_on [where p = 23 and n = eventsource_ControllerName]; simp add: called_def)
      apply (rule disciplined_bind [where mid = 25])
         apply (rule disciplined_Watch_on [where p = 24 and n = eventsource_ControllerName]; simp add: called_def)
        apply (rule disciplined_Watch_on [where p = 25 and n = eventsource_ControllerName]; simp add: called_def)
       apply simp_all
  done

lemma disciplined_Start_sensor: "disciplined le x 26 29 w (Start_sensor x mgr imageName w)"
  unfolding Start_sensor_def
  apply (rule disciplined_bind [where mid = 27])
     apply (rule disciplined_New [where p = 26]; simp add: called_def)
    apply (drule New_Inr)
    apply (rule disciplined_bind [where mid = 28])
       apply (rule disciplined_Watch_on [where p = 27 and n = sensor_ControllerName]; simp add: called_def)
      apply (rule disciplined_Watch_on [where p = 28 and n = sensor_ControllerName]; simp add: called_def)
     apply simp_all
  done

lemma disciplined_Start_run: "disciplined le x 29 30 w (Start_run x w)"
proof -
  have "disciplined le x 29 30 (log InfoLevel ''Starting controller manager'' w) (Start_run x w)"
    unfolding Start_run_def by (rule disciplined_orFatal [where p = 29]; simp add: called_def)
  then show ?thesis by (simp add: disciplined_def log_def)
qed

lemma disciplined_Start_controllers:
  "disciplined le x 17 30 w (Start_controllers x mgr kc config imageName w)"
  unfolding Start_controllers_def
  apply (rule disciplined_bind [where mid = 22])
     apply (rule disciplined_Start_eventbus)
    apply (rule disciplined_bind [where mid = 26])
       apply (rule disciplined_Start_eventsource)
      apply (rule disciplined_bind [where mid = 29])
         apply (rule disciplined_Start_sensor)
        apply (rule disciplined_Start_run)
       apply simp_all
  done

lemma disciplined_Start:
  "disciplined (LeaderElection eventsOpts) x 0 30 init_World (Start eventsOpts x)"
  unfolding Start_def
  apply (rule disciplined_bind [where mid = 1])
     apply (rule disciplined_LoadConfig)
    apply (rule disciplined_bind [where mid = 2])
       apply (rule disciplined_orFatal [where p = 1]; simp add: called_def)
      apply (rule disciplined_bind [where mid = 3])
         apply (rule disciplined_LookupImage)
        apply (rule disciplined_bind [where mid = 9])
           apply (rule disciplined_Start_options)
          apply (rule disciplined_bind [where mid = 17])
             apply (rule disciplined_Start_manager)
            apply (simp only: split_paired_all prod.case)
            apply (rule disciplined_Start_controllers)
           apply simp_all
  done

section \<open>What a run registers\<close>

lemma exit_code_Inr [simp]: "exit_code (Inr p) = None"
  by (cases p) simp

lemma world_of_Inr [simp]: "world_of (Inr p) = snd p"
  by (cases p) simp

lemma exit_code_Inl [simp]: "exit_code (Inl e) = Some (fst e)"
  by (cases e) simp

lemma world_of_Inl [simp]: "world_of (Inl e) = snd e"
  by (cases e) simp

lemma registers_bind:
  assumes m: "registers cs1 ws1 w (m w)"
    and f: "\<And>a w'. m w = Inr (a, w') \<Longrightarrow> registers cs2 ws2 w' (f a w')"
  shows "registers (cs1 @ cs2) (ws1 @ ws2) w (bind m f w)"
proof (cases "m w")
  case (Inl e)
  then have b: "bind m f w = Inl e" by (rule bind_Inl)
  from m Inl show ?thesis
    unfolding b by (auto simp add: registers_def intro: prefix_order.trans)
next
  case (Inr p)
  obtain a w' where p: "p = (a, w')" by (cases p)
  with Inr have mw: "m w = Inr (a, w')" by simp
  then have b: "bind m f w = f a w'" by (rule bind_Inr)
  from m mw have 1: "manager w' = manager w" "controllers w' = controllers w @ cs1"
    "watches w' = watches w @ ws1"
    by (simp_all add: registers_def)
  from f [OF mw] 1 show ?thesis
    unfolding b by (cases "exit_code (f a w')") (simp_all add: registers_def)
qed

lemma registers_bind_left:
  assumes "registers cs ws w (m w)"
    and "\<And>a w'. m w = Inr (a, w') \<Longrightarrow> registers [] [] w' (f a w')"
  shows "registers cs ws w (bind m f w)"
  using registers_bind [of cs ws w m "[]" "[]" f] assms by simp

lemma registers_bind_right:
  assumes "registers [] [] w (m w)"
    and "\<And>a w'. m w = Inr (a, w') \<Longrightarrow> registers cs ws w' (f a w')"
  shows "registers cs ws w (bind m f w)"
  using registers_bind [of "[]" "[]" w m cs ws f] assms by simp

lemma registers_return: "registers [] [] w (Inr (a, w))"
  by (simp add: registers_def)

lemma registers_orFatal: "registers [] [] w (orFatal c err msg w)"
  by (cases err) (simp_all add: registers_def orFatal_def invoke_def Fatalw_def log_def)

lemma registers_LoadConfig: "registers [] [] w (LoadConfig x w)"
  by (cases "controllers_LoadConfig x")
    (simp_all add: registers_def LoadConfig_def invoke_def Fatalw_def log_def)

lemma registers_LookupImage: "registers [] [] w (LookupImage x w)"
  by (cases "os_LookupEnv x imageEnvVar")
    (simp_all add: registers_def LookupImage_def invoke_def Fatalw_def log_def)

lemma registers_lookupEnvDurationOr: "registers [] [] w (lookupEnvDurationOr x key d w)"
  by (simp add: registers_def lookupEnvDurationOr_def invoke_def Fatalw_def log_def Let_def
      split: option.splits sum.splits)

lemma registers_Start_options: "registers [] [] w (Start_options eventsOpts x w)"
  unfolding Start_options_def Let_def
  by (auto intro!: registers_bind_right registers_lookupEnvDurationOr registers_return)

lemma registers_GetConfigOrDie: "registers [] [] w (GetConfigOrDie x w)"
  by (cases "ctrl_GetConfig x") (simp_all add: registers_def GetConfigOrDie_def invoke_def)

lemma registers_NewForConfigOrDie: "registers [] [] w (NewForConfigOrDie x w)"
  by (cases "kubernetes_NewForConfig x")
    (simp_all add: registers_def NewForConfigOrDie_def invoke_def)

lemma registers_New:
  "registers [\<lparr>controller_name = n, controller_Reconciler = r\<rparr>] [] w (New x n r msg w)"
  by (cases "controller_New x n")
    (simp_all add: registers_def New_def invoke_def Fatalw_def log_def Let_def)

lemma New_Inr_eq:
  "New x n r msg w = Inr (c, w') \<Longrightarrow> c = \<lparr>controller_name = n, controller_Reconciler = r\<rparr>"
  by (auto simp add: New_def Fatalw_def Let_def split: option.splits)

lemma registers_Watch_on:
  "registers [] [\<lparr>watch_controller = controller_name c, watch_source = src, watch_handler = h,
       watch_predicates = ps\<rparr>] w (Watch_on x c src h ps msg w)"
  by (cases "controller_Watch x (controller_name c) (source_kind src)")
    (simp_all add: registers_def Watch_on_def invoke_def Fatalw_def log_def Let_def)

lemma registers_Start_run: "registers [] [] w (Start_run x w)"
  by (cases "mgr_Start x")
    (simp_all add: registers_def Start_run_def orFatal_def invoke_def Fatalw_def log_def)

lemma registers_Start_eventbus:
  "registers
     [\<lparr>controller_name = eventbus_ControllerName,
       controller_Reconciler = eventbus_NewReconciler mgr_GetClient kc mgr_GetScheme config logger\<rparr>]
     (primary_watch (mgr_GetCache mgr) eventbus_ControllerName EventBus
        # map (secondary_watch (mgr_GetCache mgr) eventbus_ControllerName EventBus)
            [ConfigMap, StatefulSet, Service])
     w (Start_eventbus x mgr kc config w)"
  unfolding Start_eventbus_def
  apply (rule registers_bind [of "[c]" "[]" _ _ "[]" for c, simplified])
   apply (rule registers_New)
  apply (drule New_Inr_eq)
  apply (simp only: primary_watch_def secondary_watch_def list.map)
  apply (rule registers_bind [of "[]" "[w1]" _ _ "[]" for w1, simplified])
   apply (rule registers_Watch_on [where c = "\<lparr>controller_name = eventbus_ControllerName, controller_Reconciler = r\<rparr>" for r, simplified])
  apply (rule registers_bind [of "[]" "[w1]" _ _ "[]" for w1, simplified])
   apply (rule registers_Watch_on [where c = "\<lparr>controller_name = eventbus_ControllerName, controller_Reconciler = r\<rparr>" for r, simplified])
  apply (rule registers_bind [of "[]" "[w1]" _ _ "[]" for w1, simplified])
   apply (rule registers_Watch_on [where c = "\<lparr>controller_name = eventbus_ControllerName, controller_Reconciler = r\<rparr>" for r, simplified])
  apply (rule registers_Watch_on [where c = "\<lparr>controller_name = eventbus_ControllerName, controller_Reconciler = r\<rparr>" for r, simplified])
  done

lemma registers_Start_eventsource:
  "registers
     [\<lparr>controller_name = eventsource_ControllerName,
       controller_Reconciler = eventsource_NewReconciler mgr_GetClient mgr_GetScheme imageName logger\<rparr>]
     (primary_watch (mgr_GetCache mgr) eventsource_ControllerName EventSource
        # map (secondary_watch (mgr_GetCache mgr) eventsource_ControllerName EventSource)
            [Deployment, Service])
     w (Start_eventsource x mgr imageName w)"
  unfolding Start_eventsource_def
  apply (rule registers_bind [of "[c]" "[]" _ _ "[]" for c, simplified])
   apply (rule registers_New)
  apply (drule New_Inr_eq)
  apply (simp only: primary_watch_def secondary_watch_def list.map)
  apply (rule registers_bind [of "[]" "[w1]" _ _ "[]" for w1, simplified])
   apply (rule registers_Watch_on [where c = "\<lparr>controller_name = eventsource_ControllerName, controller_Reconciler = r\<rparr>" for r, simplified])
  apply (rule registers_bind [of "[]" "[w1]" _ _ "[]" for w1, simplified])
   apply (rule registers_Watch_on [where c = "\<lparr>controller_name = eventsource_ControllerName, controller_Reconciler = r\<rparr>" for r, simplified])
  apply (rule registers_Watch_on [where c = "\<lparr>controller_name = eventsource_ControllerName, controller_Reconciler = r\<rparr>" for r, simplified])
  done

lemma registers_Start_sensor:
  "registers
     [\<lparr>controller_name = sensor_ControllerName,
       controller_Reconciler = sensor_NewReconciler mgr_GetClient mgr_GetScheme imageName logger\<rparr>]
     (primary_watch (mgr_GetCache mgr) sensor_ControllerName Sensor
        # map (secondary_watch (mgr_GetCache mgr) sensor_ControllerName Sensor) [Deployment])
     w (Start_sensor x mgr imageName w)"
  unfolding Start_sensor_def
  apply (rule registers_bind [of "[c]" "[]" _ _ "[]" for c, simplified])
   apply (rule registers_New)
  apply (drule New_Inr_eq)
  apply (simp only: primary_watch_def secondary_watch_def list.map)
  apply (rule registers_bind [of "[]" "[w1]" _ _ "[]" for w1, simplified])
   apply (rule registers_Watch_on [where c = "\<lparr>controller_name = sensor_ControllerName, controller_Reconciler = r\<rparr>" for r, simplified])
  apply (rule registers_Watch_on [where c = "\<lparr>controller_name = sensor_ControllerName, controller_Reconciler = r\<rparr>" for r, simplified])
  done

text \<open>The three controllers a complete run builds.\<close>

lemma registers_Start_controllers:
  "registers
     [\<lparr>controller_name = eventbus_ControllerName,
       controller_Reconciler = eventbus_NewReconciler mgr_GetClient kc mgr_GetScheme config logger\<rparr>,
      \<lparr>controller_name = eventsource_ControllerName,
       controller_Reconciler = eventsource_NewReconciler mgr_GetClient mgr_GetScheme imageName logger\<rparr>,
      \<lparr>controller_name = sensor_ControllerName,
       controller_Reconciler = sensor_NewReconciler mgr_GetClient mgr_GetScheme imageName logger\<rparr>]
     (wiring (mgr_GetCache mgr))
     w (Start_controllers x mgr kc config imageName w)"
proof -
  have "registers ([c1] @ [c2] @ [c3] @ []) (ws1 @ ws2 @ ws3 @ []) w
          (bind m1 (\<lambda>_. bind m2 (\<lambda>_. bind m3 (\<lambda>_. m4))) w)"
    if "\<And>w. registers [c1] ws1 w (m1 w)" "\<And>w. registers [c2] ws2 w (m2 w)"
      "\<And>w. registers [c3] ws3 w (m3 w)" "\<And>w. registers [] [] w (m4 w)"
    for c1 c2 c3 :: "'a Controller" and ws1 ws2 ws3 m1 m2 m3
      and m4 :: "'a World \<Rightarrow> (unit, 'a) Result"
    by (intro registers_bind that)
  from this [OF registers_Start_eventbus registers_Start_eventsource registers_Start_sensor
      registers_Start_run]
  show ?thesis
    by (simp add: Start_controllers_def wiring_def wiring_table_def)
qed

lemma Start_run_frame:
  "manager (world_of (Start_run x w)) = manager w"
  "controllers (world_of (Start_run x w)) = controllers w"
  "watches (world_of (Start_run x w)) = watches w"
  by (cases "mgr_Start x"; simp add: Start_run_def orFatal_def invoke_def Fatalw_def log_def)+

lemma disciplined_calls_before:
  assumes "disciplined le x lo hi w r" "bootstrap_position c \<ge> hi" "c \<in> set (calls (world_of r))"
  shows "c \<in> set (calls w)"
proof -
  from assms(1) obtain cs where "calls (world_of r) = calls w @ cs"
    and "list_all (\<lambda>c. lo \<le> bootstrap_position c \<and> bootstrap_position c < hi) cs"
    by (rule disciplinedD)
  with assms(2,3) show ?thesis by (auto simp add: list_all_iff)
qed

lemma disciplined_calls_after:
  assumes "disciplined le x lo hi w r" "bootstrap_position c < lo" "c \<in> set (calls (world_of r))"
  shows "c \<in> set (calls w)"
proof -
  from assms(1) obtain cs where "calls (world_of r) = calls w @ cs"
    and "list_all (\<lambda>c. lo \<le> bootstrap_position c \<and> bootstrap_position c < hi) cs"
    by (rule disciplinedD)
  with assms(2,3) show ?thesis by (auto simp add: list_all_iff)
qed

lemma reached_bind:
  assumes reached: "Call_mgr_Start \<in> set (calls (world_of (bind m f w)))"
    and d: "disciplined le x lo hi w (m w)"
    and reg: "registers cs ws w (m w)"
    and notin: "Call_mgr_Start \<notin> set (calls w)"
    and hi: "hi \<le> 29"
  obtains a w' where "m w = Inr (a, w')" "bind m f w = f a w'"
    "manager w' = manager w" "controllers w' = controllers w @ cs" "watches w' = watches w @ ws"
    "Call_mgr_Start \<notin> set (calls w')"
proof -
  have before: "Call_mgr_Start \<notin> set (calls (world_of (m w)))"
    using disciplined_calls_before [OF d, of Call_mgr_Start] hi notin by auto
  show thesis
  proof (cases "m w")
    case (Inl e)
    then have "bind m f w = Inl e" by (rule bind_Inl)
    with reached before Inl show thesis by simp
  next
    case (Inr p)
    obtain a w' where p: "p = (a, w')" by (cases p)
    with Inr have mw: "m w = Inr (a, w')" by simp
    from reg before show thesis
      unfolding mw by (intro that [OF mw bind_Inr [of m w a w' f, OF mw]]) (simp_all add: registers_def)
  qed
qed

lemma Start_controllers_reached:
  assumes reached: "Call_mgr_Start \<in> set (calls (world_of (Start_controllers x mgr kc config imageName w)))"
    and notin: "Call_mgr_Start \<notin> set (calls w)"
  shows "watches (world_of (Start_controllers x mgr kc config imageName w))
           = watches w @ wiring (mgr_GetCache mgr)"
    and "controllers (world_of (Start_controllers x mgr kc config imageName w)) = controllers w @
      [\<lparr>controller_name = eventbus_ControllerName,
        controller_Reconciler = eventbus_NewReconciler mgr_GetClient kc mgr_GetScheme config logger\<rparr>,
       \<lparr>controller_name = eventsource_ControllerName,
        controller_Reconciler = eventsource_NewReconciler mgr_GetClient mgr_GetScheme imageName logger\<rparr>,
       \<lparr>controller_name = sensor_ControllerName,
        controller_Reconciler = sensor_NewReconciler mgr_GetClient mgr_GetScheme imageName logger\<rparr>]"
proof -
  let ?r = "Start_controllers x mgr kc config imageName w"
  from reached obtain a1 w1 where 1: "?r = bind (Start_eventsource x mgr imageName)
        (\<lambda>_. bind (Start_sensor x mgr imageName) (\<lambda>_. Start_run x)) w1"
    and c1: "controllers w1 = controllers w @
      [\<lparr>controller_name = eventbus_ControllerName,
        controller_Reconciler = eventbus_NewReconciler mgr_GetClient kc mgr_GetScheme config logger\<rparr>]"
    and ws1: "watches w1 = watches w @
      (primary_watch (mgr_GetCache mgr) eventbus_ControllerName EventBus
        # map (secondary_watch (mgr_GetCache mgr) eventbus_ControllerName EventBus)
            [ConfigMap, StatefulSet, Service])"
    and n1: "Call_mgr_Start \<notin> set (calls w1)"
    unfolding Start_controllers_def
    by (rule reached_bind [where m = "Start_eventbus x mgr kc config" and w = w,
          OF _ disciplined_Start_eventbus registers_Start_eventbus notin]) simp_all
  from reached obtain a2 w2 where 2: "?r = bind (Start_sensor x mgr imageName) (\<lambda>_. Start_run x) w2"
    and c2: "controllers w2 = controllers w1 @
      [\<lparr>controller_name = eventsource_ControllerName,
        controller_Reconciler = eventsource_NewReconciler mgr_GetClient mgr_GetScheme imageName logger\<rparr>]"
    and ws2: "watches w2 = watches w1 @
      (primary_watch (mgr_GetCache mgr) eventsource_ControllerName EventSource
        # map (secondary_watch (mgr_GetCache mgr) eventsource_ControllerName EventSource)
            [Deployment, Service])"
    and n2: "Call_mgr_Start \<notin> set (calls w2)"
    unfolding 1
    by (rule reached_bind [where m = "Start_eventsource x mgr imageName" and w = w1,
          OF _ disciplined_Start_eventsource registers_Start_eventsource n1]) simp_all
  from reached obtain a3 w3 where 3: "?r = Start_run x w3"
    and c3: "controllers w3 = controllers w2 @
      [\<lparr>controller_name = sensor_ControllerName,
        controller_Reconciler = sensor_NewReconciler mgr_GetClient mgr_GetScheme imageName logger\<rparr>]"
    and ws3: "watches w3 = watches w2 @
      (primary_watch (mgr_GetCache mgr) sensor_ControllerName Sensor
        # map (secondary_watch (mgr_GetCache mgr) sensor_ControllerName Sensor) [Deployment])"
    unfolding 2
    by (rule reached_bind [where m = "Start_sensor x mgr imageName" and w = w2,
          OF _ disciplined_Start_sensor registers_Start_sensor n2]) simp_all
  show "watches (world_of ?r) = watches w @ wiring (mgr_GetCache mgr)"
    unfolding 3 by (simp add: Start_run_frame ws1 ws2 ws3 wiring_def wiring_table_def)
  show "controllers (world_of ?r) = controllers w @
      [\<lparr>controller_name = eventbus_ControllerName,
        controller_Reconciler = eventbus_NewReconciler mgr_GetClient kc mgr_GetScheme config logger\<rparr>,
       \<lparr>controller_name = eventsource_ControllerName,
        controller_Reconciler = eventsource_NewReconciler mgr_GetClient mgr_GetScheme imageName logger\<rparr>,
       \<lparr>controller_name = sensor_ControllerName,
        controller_Reconciler = sensor_NewReconciler mgr_GetClient mgr_GetScheme imageName logger\<rparr>]"
    unfolding 3 by (simp add: Start_run_frame c1 c2 c3)
qed

lemmas manager_defs = Start_manager_def GetConfigOrDie_def NewManager_def NewForConfigOrDie_def
  orFatal_def Fatalw_def invoke_def log_def bind_def Let_def

lemma Start_manager_Inr:
  assumes "Start_manager x opts w = Inr ((mgr, kc), w')"
  shows "mgr = \<lparr>mgr_Options = opts\<rparr>" "manager w' = Some mgr"
    "controllers w' = controllers w" "watches w' = watches w"
  using assms by (auto simp add: manager_defs split: option.splits)

lemma Start_manager_Inl:
  assumes "Start_manager x opts w = Inl (code, w')"
  shows "controllers w' = controllers w" "watches w' = watches w"
    "manager w' = manager w \<or> manager w' = Some \<lparr>mgr_Options = opts\<rparr>"
  using assms by (auto simp add: manager_defs split: option.splits)

lemma Start_manager_calls:
  assumes "Call_NewManager o' \<in> set (calls (world_of (Start_manager x opts w)))"
  shows "o' = opts \<or> Call_NewManager o' \<in> set (calls w)"
  using assms by (auto simp add: manager_defs split: option.splits)

section \<open>The options and the steps before the manager\<close>

lemma lookupEnvDurationOr_fallback:
  assumes "os_LookupEnv x key = None \<or> os_LookupEnv x key = Some []"
  shows "lookupEnvDurationOr x key d w = Inr (d, invoke (Call_LookupEnv key) w)"
  using assms by (auto simp add: lookupEnvDurationOr_def)

lemma lookupEnvDurationOr_parsed:
  assumes "os_LookupEnv x key = Some v" "v \<noteq> []" "time_ParseDuration x v = Inr d'"
  shows "lookupEnvDurationOr x key d w
    = Inr (d', invoke (Call_ParseDuration key v) (invoke (Call_LookupEnv key) w))"
  using assms by (simp add: lookupEnvDurationOr_def)

lemma lookupEnvDurationOr_malformed:
  assumes "os_LookupEnv x key = Some v" "v \<noteq> []" "time_ParseDuration x v = Inl err"
  shows "lookupEnvDurationOr x key d w
    = Fatalw ''parsing %s duration'' (invoke (Call_ParseDuration key v) (invoke (Call_LookupEnv key) w))"
  using assms by (simp add: lookupEnvDurationOr_def)

lemma Start_options_without_election:
  assumes "\<not> LeaderElection eventsOpts"
  shows "Start_options eventsOpts x w =
    Inr (\<lparr>Metrics_BindAddress = bindAddress (MetricsPort eventsOpts),
          HealthProbeBindAddress = bindAddress (HealthPort eventsOpts),
          Cache = spec_cacheScope eventsOpts,
          Options_LeaderElection = False, LeaderElectionID = [],
          LeaseDuration = None, RenewDeadline = None, RetryPeriod = None\<rparr>, w)"
  using assms by (simp add: Start_options_def spec_cacheScope_def)

lemma Start_options_with_election:
  assumes "LeaderElection eventsOpts"
  shows "Start_options eventsOpts x w =
    bind (lookupEnvDurationOr x ''LEADER_ELECTION_LEASE_DURATION'' (15 * Second))
      (\<lambda>d1. bind (lookupEnvDurationOr x ''LEADER_ELECTION_RENEW_DEADLINE'' (10 * Second))
      (\<lambda>d2. bind (lookupEnvDurationOr x ''LEADER_ELECTION_RETRY_PERIOD'' (5 * Second))
      (\<lambda>d3 w. Inr (\<lparr>Metrics_BindAddress = bindAddress (MetricsPort eventsOpts),
          HealthProbeBindAddress = bindAddress (HealthPort eventsOpts),
          Cache = spec_cacheScope eventsOpts,
          Options_LeaderElection = True, LeaderElectionID = ''argo-events-controller'',
          LeaseDuration = Some d1, RenewDeadline = Some d2, RetryPeriod = Some d3\<rparr>, w)))) w"
  using assms by (simp add: Start_options_def spec_cacheScope_def)

lemma Start_options_Inr:
  assumes "Start_options eventsOpts x w = Inr (opts, w')"
  shows "Metrics_BindAddress opts = bindAddress (MetricsPort eventsOpts)"
    and "HealthProbeBindAddress opts = bindAddress (HealthPort eventsOpts)"
    and "Cache opts = spec_cacheScope eventsOpts"
    and "Options_LeaderElection opts = LeaderElection eventsOpts"
    and "LeaderElectionID opts = (if LeaderElection eventsOpts then ''argo-events-controller'' else [])"
    and "\<not> LeaderElection eventsOpts \<Longrightarrow>
           LeaseDuration opts = None \<and> RenewDeadline opts = None \<and> RetryPeriod opts = None"
proof -
  have "Metrics_BindAddress opts = bindAddress (MetricsPort eventsOpts)
      \<and> HealthProbeBindAddress opts = bindAddress (HealthPort eventsOpts)
      \<and> Cache opts = spec_cacheScope eventsOpts
      \<and> Options_LeaderElection opts = LeaderElection eventsOpts
      \<and> LeaderElectionID opts = (if LeaderElection eventsOpts then ''argo-events-controller'' else [])
      \<and> (\<not> LeaderElection eventsOpts \<longrightarrow>
           LeaseDuration opts = None \<and> RenewDeadline opts = None \<and> RetryPeriod opts = None)"
  proof (cases "LeaderElection eventsOpts")
    case False
    with assms show ?thesis by (auto simp add: Start_options_without_election)
  next
    case True
    with assms show ?thesis
      by (auto simp add: Start_options_with_election bind_def split: sum.splits)
  qed
  then show "Metrics_BindAddress opts = bindAddress (MetricsPort eventsOpts)"
    and "HealthProbeBindAddress opts = bindAddress (HealthPort eventsOpts)"
    and "Cache opts = spec_cacheScope eventsOpts"
    and "Options_LeaderElection opts = LeaderElection eventsOpts"
    and "LeaderElectionID opts = (if LeaderElection eventsOpts then ''argo-events-controller'' else [])"
    and "\<not> LeaderElection eventsOpts \<Longrightarrow>
           LeaseDuration opts = None \<and> RenewDeadline opts = None \<and> RetryPeriod opts = None"
    by simp_all
qed

lemma Start_options_defaults:
  assumes le: "LeaderElection eventsOpts"
    and absent: "\<forall>key \<in> set leaderElectionKeys. os_LookupEnv x key = None \<or> os_LookupEnv x key = Some []"
    and r: "Start_options eventsOpts x w = Inr (opts, w')"
  shows "LeaseDuration opts = Some (15 * Second)" "RenewDeadline opts = Some (10 * Second)"
    "RetryPeriod opts = Some (5 * Second)"
  using r absent
  by (auto simp add: Start_options_with_election [OF le] bind_def leaderElectionKeys_def
      lookupEnvDurationOr_fallback)

lemma LoadConfig_Inr: "LoadConfig x w = Inr (config, w') \<Longrightarrow> controllers_LoadConfig x = Inr config"
  by (auto simp add: LoadConfig_def Fatalw_def Let_def split: sum.splits)

lemma LookupImage_Inr: "LookupImage x w = Inr (imageName, w') \<Longrightarrow> os_LookupEnv x imageEnvVar = Some imageName"
  by (auto simp add: LookupImage_def Fatalw_def Let_def split: option.splits)

lemma LookupImage_unset:
  assumes "os_LookupEnv x imageEnvVar = None"
  shows "exit_code (LookupImage x w) = Some 1"
  using assms by (simp add: LookupImage_def Fatalw_def)

lemma untouched_init: "untouched init_World"
  by (simp add: untouched_def init_World_def)

lemma early_step:
  assumes d: "disciplined le x lo hi w (m w)" and hi: "hi \<le> 10"
    and reg: "registers [] [] w (m w)"
    and one: "exit_code (m w) = None \<or> exit_code (m w) = Some 1"
    and pre: "untouched w"
  obtains (exit) W where "m w = Inl (1, W)" "untouched W"
  | (cont) a w' where "m w = Inr (a, w')" "untouched w'"
proof -
  from d obtain cs where cs: "calls (world_of (m w)) = calls w @ cs"
    and b: "list_all (\<lambda>c. lo \<le> bootstrap_position c \<and> bootstrap_position c < hi) cs"
    by (rule disciplinedD)
  from b hi have "list_all (\<lambda>c. bootstrap_position c < 10) cs"
    by (auto simp add: list_all_iff)
  with pre cs have c: "list_all (\<lambda>c. bootstrap_position c < 10) (calls (world_of (m w)))"
    by (simp add: untouched_def)
  show thesis
  proof (cases "m w")
    case (Inl e)
    obtain code W where e: "e = (code, W)" by (cases e)
    from reg pre c have "untouched W"
      unfolding Inl e by (simp add: registers_def untouched_def)
    moreover from Inl e one have "code = 1" by simp
    ultimately show thesis using Inl e by (intro exit [where W = W]) simp_all
  next
    case (Inr p)
    obtain a w' where p: "p = (a, w')" by (cases p)
    from reg pre c have "untouched w'"
      unfolding Inr p by (simp add: registers_def untouched_def)
    with Inr p show thesis by (intro cont [of a w']) simp_all
  qed
qed

lemma untouched_calls:
  assumes "untouched w" "c \<in> set (calls w)"
  shows "\<not> is_registration c" "c \<noteq> Call_mgr_Start" "c \<noteq> Call_NewManager o'"
proof -
  from assms have "bootstrap_position c < 10" by (auto simp add: untouched_def list_all_iff)
  then show "\<not> is_registration c" "c \<noteq> Call_mgr_Start" "c \<noteq> Call_NewManager o'"
    by (cases c; auto split: ControllerName.splits if_splits)+
qed

lemma LoadConfig_exit:
  "exit_code (LoadConfig x w) = None \<or> exit_code (LoadConfig x w) = Some 1"
  by (cases "controllers_LoadConfig x") (simp_all add: LoadConfig_def Fatalw_def Let_def)

lemma orFatal_exit:
  "exit_code (orFatal c err msg w) = None \<or> exit_code (orFatal c err msg w) = Some 1"
  by (cases err) (simp_all add: orFatal_def Fatalw_def Let_def)

lemma LookupImage_exit:
  "exit_code (LookupImage x w) = None \<or> exit_code (LookupImage x w) = Some 1"
  by (cases "os_LookupEnv x imageEnvVar") (simp_all add: LookupImage_def Fatalw_def Let_def)

lemma lookupEnvDurationOr_Inl: "lookupEnvDurationOr x key d w = Inl (code, W) \<Longrightarrow> code = 1"
  by (auto simp add: lookupEnvDurationOr_def Fatalw_def Let_def split: option.splits sum.splits if_splits)

lemma Start_options_exit:
  "exit_code (Start_options eventsOpts x w) = None \<or> exit_code (Start_options eventsOpts x w) = Some 1"
proof (cases "Start_options eventsOpts x w")
  case (Inr p)
  then show ?thesis by simp
next
  case (Inl e)
  obtain code W where e: "e = (code, W)" by (cases e)
  have "code = 1"
  proof (cases "LeaderElection eventsOpts")
    case False
    with Inl show ?thesis by (simp add: Start_options_without_election)
  next
    case True
    from Inl [unfolded e] show ?thesis
      unfolding Start_options_with_election [OF True] bind_def
      by (auto split: sum.splits dest!: lookupEnvDurationOr_Inl)
  qed
  with Inl e show ?thesis by simp
qed

lemma Start_summary:
  obtains (exited) code W where "Start eventsOpts x = Inl (code, W)"
      "controllers W = []" "watches W = []" "list_all (\<lambda>c. bootstrap_position c < 17) (calls W)"
      "manager W = None \<or>
       (\<exists>opts w w'. Start_options eventsOpts x w = Inr (opts, w') \<and> manager W = Some \<lparr>mgr_Options = opts\<rparr>)"
      "\<forall>o'. Call_NewManager o' \<in> set (calls W) \<longrightarrow>
         (\<exists>w w'. Start_options eventsOpts x w = Inr (o', w'))"
      "os_LookupEnv x imageEnvVar = None \<longrightarrow> untouched W"
      "untouched W \<longrightarrow> code = 1"
      "untouched W \<or> (\<exists>opts w w'. Start_options eventsOpts x w = Inr (opts, w'))"
  | (built) config imageName opts kc w w' w5 where
      "controllers_LoadConfig x = Inr config" "os_LookupEnv x imageEnvVar = Some imageName"
      "Start_options eventsOpts x w = Inr (opts, w')"
      "Start eventsOpts x = Start_controllers x \<lparr>mgr_Options = opts\<rparr> kc config imageName w5"
      "manager w5 = Some \<lparr>mgr_Options = opts\<rparr>" "controllers w5 = []" "watches w5 = []"
      "Call_mgr_Start \<notin> set (calls w5)"
      "\<forall>o'. Call_NewManager o' \<in> set (calls w5) \<longrightarrow> o' = opts"
proof -
  let ?le = "LeaderElection eventsOpts"
  have quiet: "controllers W = []" "watches W = []" "Call_mgr_Start \<notin> set (calls W)"
    "manager W = None" "\<forall>o'. Call_NewManager o' \<notin> set (calls W)"
    "list_all (\<lambda>c. bootstrap_position c < 17) (calls W)"
    if "untouched W" for W :: "'a World"
    using that untouched_calls(2,3) [OF that]
    by (auto simp add: untouched_def list_all_iff)
  have le10: "1 \<le> (10 :: nat)" "2 \<le> (10 :: nat)" "3 \<le> (10 :: nat)" "9 \<le> (10 :: nat)"
    by simp_all
  have dv: "disciplined ?le x 1 2 w
      (orFatal (Call_ValidateConfig config) (controllers_ValidateConfig x config) msg w)"
    for config msg and w :: "'a World"
    by (rule disciplined_orFatal [where p = 1]; simp add: called_def)
  have stop: thesis if "Start eventsOpts x = Inl (1, W)" "untouched W" for W
    using that by (intro exited [where code = 1 and W = W]) (auto dest: quiet)
  show thesis
  proof (cases rule: early_step [where m = "LoadConfig x" and w = init_World and le = ?le,
        OF disciplined_LoadConfig le10(1) registers_LoadConfig LoadConfig_exit untouched_init,
        case_names exit cont])
    case (exit W)
    then show ?thesis by (intro stop [where W = W]) (simp_all add: Start_def bind_def)
  next
    case c: (cont config w1)
    note c1 = LoadConfig_Inr [OF c(1)]
    show ?thesis
    proof (cases rule: early_step [where w = w1
          and m = "orFatal (Call_ValidateConfig config) (controllers_ValidateConfig x config)
             ''Global configuration file validation failed''",
          OF dv le10(2) registers_orFatal orFatal_exit c(2),
          case_names exit cont])
      case (exit W)
      then show ?thesis by (intro stop [where W = W]) (simp_all add: Start_def bind_def c(1))
    next
      case v: (cont a w2)
      show ?thesis
      proof (cases rule: early_step [where m = "LookupImage x" and w = w2 and le = ?le,
            OF disciplined_LookupImage le10(3) registers_LookupImage LookupImage_exit v(2),
            case_names exit cont])
        case (exit W)
        then show ?thesis by (intro stop [where W = W]) (simp_all add: Start_def bind_def c(1) v(1))
      next
        case i: (cont imageName w3)
        note c3 = LookupImage_Inr [OF i(1)]
        show ?thesis
        proof (cases rule: early_step [where m = "Start_options eventsOpts x" and w = w3,
              OF disciplined_Start_options le10(4) registers_Start_options Start_options_exit i(2),
              case_names exit cont])
          case (exit W)
          then show ?thesis
            by (intro stop [where W = W]) (simp_all add: Start_def bind_def c(1) v(1) i(1))
        next
          case o: (cont opts w4)
          note q4 = quiet [OF o(2)]
          let ?m = "Start_manager x opts w4"
          have s: "Start eventsOpts x = bind (Start_manager x opts)
              (\<lambda>(mgr, kc). Start_controllers x mgr kc config imageName) w4"
            by (simp add: Start_def bind_def c(1) v(1) i(1) o(1))
          have nostart: "Call_mgr_Start \<notin> set (calls (world_of ?m))"
            using disciplined_calls_before [OF disciplined_Start_manager [of ?le x w4 opts],
                of Call_mgr_Start] q4(3) by auto
          have before: "list_all (\<lambda>c. bootstrap_position c < 17) (calls (world_of ?m))"
          proof -
            from disciplined_Start_manager [of ?le x w4 opts]
            obtain cs where "calls (world_of ?m) = calls w4 @ cs"
              and "list_all (\<lambda>c. 9 \<le> bootstrap_position c \<and> bootstrap_position c < 17) cs"
              by (rule disciplinedD)
            with q4(6) show ?thesis by (auto simp add: list_all_iff)
          qed
          have newmgr: "o' = opts" if "Call_NewManager o' \<in> set (calls (world_of ?m))" for o'
            using Start_manager_calls [OF that] q4(5) by simp
          show ?thesis
          proof (cases ?m)
            case (Inl e)
            obtain code W where e: "e = (code, W)" by (cases e)
            note m = Inl [unfolded e]
            have "Start eventsOpts x = Inl (code, W)" unfolding s by (simp add: bind_def m)
            moreover have "controllers W = []" "watches W = []"
              using Start_manager_Inl(1,2) [OF m] q4 by simp_all
            moreover have "list_all (\<lambda>c. bootstrap_position c < 17) (calls W)"
              using before m by simp
            moreover have "manager W = None \<or>
                (\<exists>opts w w'. Start_options eventsOpts x w = Inr (opts, w')
                   \<and> manager W = Some \<lparr>mgr_Options = opts\<rparr>)"
              using Start_manager_Inl(3) [OF m] q4(4) o(1) by auto
            moreover have "\<forall>o'. Call_NewManager o' \<in> set (calls W) \<longrightarrow>
                (\<exists>w w'. Start_options eventsOpts x w = Inr (o', w'))"
              using newmgr m o(1) by auto
            moreover have "os_LookupEnv x imageEnvVar = None \<longrightarrow> untouched W"
              using c3 by simp
            moreover have "untouched W \<longrightarrow> code = 1"
            proof
              assume u: "untouched W"
              have "Call_NewManager opts \<in> set (calls W) \<or> code = 1"
                using m by (auto simp add: manager_defs split: option.splits)
              with u show "code = 1" by (auto simp add: untouched_def list_all_iff)
            qed
            moreover have "untouched W \<or> (\<exists>opts w w'. Start_options eventsOpts x w = Inr (opts, w'))"
              using o(1) by auto
            ultimately show ?thesis by (rule exited)
          next
            case (Inr p)
            obtain mgr kc w5 where p: "p = ((mgr, kc), w5)" by (cases p) auto
            note m = Inr [unfolded p]
            note f = Start_manager_Inr [OF m]
            have "Start eventsOpts x = Start_controllers x \<lparr>mgr_Options = opts\<rparr> kc config imageName w5"
              unfolding s using f(1) by (simp add: bind_def m)
            moreover have "manager w5 = Some \<lparr>mgr_Options = opts\<rparr>" using f(1,2) by simp
            moreover have "controllers w5 = []" "watches w5 = []" using f(3,4) q4 by simp_all
            moreover have "Call_mgr_Start \<notin> set (calls w5)" using nostart m by simp
            moreover have "\<forall>o'. Call_NewManager o' \<in> set (calls w5) \<longrightarrow> o' = opts"
              using newmgr m by simp
            ultimately show ?thesis by (rule built [OF c1 c3 o(1)])
          qed
        qed
      qed
    qed
  qed
qed

section \<open>What the whole run leaves behind\<close>

lemma Start_NewManager_options:
  assumes "Call_NewManager opts \<in> set (calls (world_of (Start eventsOpts x)))"
  shows "\<exists>w w'. Start_options eventsOpts x w = Inr (opts, w')"
proof (cases rule: Start_summary [of eventsOpts x])
  case (exited code W)
  with assms show ?thesis by simp
next
  case (built config imageName opts' kc w w' w5)
  have "Call_NewManager opts \<in> set (calls w5)"
    using disciplined_calls_after [OF disciplined_Start_controllers, of "Call_NewManager opts"]
      assms built(4) by simp
  with built(9) have "opts = opts'" by simp
  with built(3) show ?thesis by blast
qed

lemma Start_manager_options:
  assumes "manager (world_of (Start eventsOpts x)) = Some mgr"
  shows "\<exists>w w'. Start_options eventsOpts x w = Inr (mgr_Options mgr, w')"
proof (cases rule: Start_summary [of eventsOpts x])
  case (exited code W)
  from assms exited(1) have "manager W = Some mgr" by simp
  with exited(5) obtain opts w w' where "Start_options eventsOpts x w = Inr (opts, w')"
    and "mgr = \<lparr>mgr_Options = opts\<rparr>" by auto
  then have "Start_options eventsOpts x w = Inr (mgr_Options mgr, w')" by simp
  then show ?thesis by blast
next
  case (built config imageName opts kc w w' w5)
  have "manager (world_of (Start eventsOpts x)) = manager w5"
    using registers_Start_controllers [of kc config imageName "\<lparr>mgr_Options = opts\<rparr>" w5 x]
    unfolding built(4) by (simp add: registers_def)
  with assms built(5) have "mgr = \<lparr>mgr_Options = opts\<rparr>" by simp
  then have "mgr_Options mgr = opts" by simp
  with built(3) show ?thesis by blast
qed

lemma Start_watches_prefix:
  "prefix (watches (world_of (Start eventsOpts x))) (wiring (spec_cacheScope eventsOpts))"
proof (cases rule: Start_summary [of eventsOpts x])
  case (exited code W)
  then show ?thesis by simp
next
  case (built config imageName opts kc w w' w5)
  have c: "mgr_GetCache \<lparr>mgr_Options = opts\<rparr> = spec_cacheScope eventsOpts"
    using Start_options_Inr(3) [OF built(3)] by (simp add: mgr_GetCache_def)
  from registers_Start_controllers [of kc config imageName "\<lparr>mgr_Options = opts\<rparr>" w5 x]
  show ?thesis
    unfolding built(4) c
    by (cases "exit_code (Start_controllers x \<lparr>mgr_Options = opts\<rparr> kc config imageName w5)")
      (simp_all add: registers_def built(7))
qed

lemma Start_watches_complete:
  assumes "Call_mgr_Start \<in> set (calls (world_of (Start eventsOpts x)))"
  shows "watches (world_of (Start eventsOpts x)) = wiring (spec_cacheScope eventsOpts)"
proof (cases rule: Start_summary [of eventsOpts x])
  case (exited code W)
  with assms show ?thesis by (auto simp add: list_all_iff)
next
  case (built config imageName opts kc w w' w5)
  have c: "mgr_GetCache \<lparr>mgr_Options = opts\<rparr> = spec_cacheScope eventsOpts"
    using Start_options_Inr(3) [OF built(3)] by (simp add: mgr_GetCache_def)
  from Start_controllers_reached(1) [OF assms [unfolded built(4)] built(8)] show ?thesis
    unfolding built(4) c by (simp add: built(7))
qed

lemma Start_options_malformed:
  assumes "LeaderElection eventsOpts" "key \<in> set leaderElectionKeys" "malformed x key"
  shows "Start_options eventsOpts x w \<noteq> Inr p"
proof -
  from assms(3) obtain v err where v: "os_LookupEnv x key = Some v" "v \<noteq> []"
    "time_ParseDuration x v = Inl err"
    by (auto simp add: malformed_def isl_def split: option.splits)
  have "lookupEnvDurationOr x key d w' \<noteq> Inr q" for d w' q
    by (simp add: lookupEnvDurationOr_malformed [OF v] Fatalw_def)
  with assms(2) show ?thesis
    unfolding Start_options_with_election [OF assms(1)] bind_def leaderElectionKeys_def
    by (auto split: sum.splits)
qed

section \<open>Where the environment is read\<close>

text \<open>Only two places read the environment: the image lookup and the three durations.\<close>

lemma LoadConfig_env: "LoadConfig (x\<lparr>os_LookupEnv := env\<rparr>) = LoadConfig x"
  by (simp add: LoadConfig_def fun_eq_iff)

lemma GetConfigOrDie_env: "GetConfigOrDie (x\<lparr>os_LookupEnv := env\<rparr>) = GetConfigOrDie x"
  by (simp add: GetConfigOrDie_def fun_eq_iff)

lemma NewManager_env: "NewManager (x\<lparr>os_LookupEnv := env\<rparr>) = NewManager x"
  by (simp add: NewManager_def fun_eq_iff)

lemma NewForConfigOrDie_env: "NewForConfigOrDie (x\<lparr>os_LookupEnv := env\<rparr>) = NewForConfigOrDie x"
  by (simp add: NewForConfigOrDie_def fun_eq_iff)

lemma Start_run_env: "Start_run (x\<lparr>os_LookupEnv := env\<rparr>) = Start_run x"
  by (simp add: Start_run_def fun_eq_iff)

lemma Start_manager_env: "Start_manager (x\<lparr>os_LookupEnv := env\<rparr>) = Start_manager x"
  by (simp add: Start_manager_def GetConfigOrDie_env NewManager_env NewForConfigOrDie_env fun_eq_iff)

lemma New_env: "New (x\<lparr>os_LookupEnv := env\<rparr>) = New x"
  by (simp add: New_def fun_eq_iff)

lemma Watch_on_env: "Watch_on (x\<lparr>os_LookupEnv := env\<rparr>) = Watch_on x"
  by (simp add: Watch_on_def fun_eq_iff)

lemma Start_controllers_env: "Start_controllers (x\<lparr>os_LookupEnv := env\<rparr>) = Start_controllers x"
  by (simp add: Start_controllers_def Start_eventbus_def Start_eventsource_def Start_sensor_def
      Start_run_env New_env Watch_on_env fun_eq_iff)

lemma LookupImage_env:
  assumes "env imageEnvVar = os_LookupEnv x imageEnvVar"
  shows "LookupImage (x\<lparr>os_LookupEnv := env\<rparr>) = LookupImage x"
  using assms by (simp add: LookupImage_def fun_eq_iff)

lemma lookupEnvDurationOr_env:
  assumes "env key = os_LookupEnv x key"
  shows "lookupEnvDurationOr (x\<lparr>os_LookupEnv := env\<rparr>) key = lookupEnvDurationOr x key"
  using assms by (auto simp add: lookupEnvDurationOr_def fun_eq_iff Let_def split: option.splits)

lemma Start_options_env:
  assumes "LeaderElection eventsOpts \<Longrightarrow> \<forall>key \<in> set leaderElectionKeys. env key = os_LookupEnv x key"
  shows "Start_options eventsOpts (x\<lparr>os_LookupEnv := env\<rparr>) = Start_options eventsOpts x"
proof (cases "LeaderElection eventsOpts")
  case False
  then show ?thesis by (simp add: Start_options_without_election fun_eq_iff)
next
  case True
  with assms have "\<forall>key \<in> set leaderElectionKeys. env key = os_LookupEnv x key" by simp
  then show ?thesis
    by (simp add: Start_options_with_election [OF True] fun_eq_iff leaderElectionKeys_def
        lookupEnvDurationOr_env)
qed

lemma Start_env:
  assumes "env imageEnvVar = os_LookupEnv x imageEnvVar"
    and "LeaderElection eventsOpts \<Longrightarrow> \<forall>key \<in> set leaderElectionKeys. env key = os_LookupEnv x key"
  shows "Start eventsOpts (x\<lparr>os_LookupEnv := env\<rparr>) = Start eventsOpts x"
  using LookupImage_env [of env x, OF assms(1)] Start_options_env [of eventsOpts env x, OF assms(2)]
  by (simp add: Start_def LoadConfig_env Start_manager_env Start_controllers_env)

section \<open>Where the image name goes\<close>

lemma commutesI:
  assumes "\<And>w. m2 (F w) = (case m1 w of Inl (code, w') \<Rightarrow> Inl (code, F w')
                                | Inr (a, w') \<Rightarrow> Inr (G a, F w'))"
  shows "commutes F G m1 m2"
  using assms by (simp add: commutes_def)

lemma commutes_bind:
  assumes m: "commutes F G m1 m2"
    and f: "\<And>a. commutes F H (f1 a) (f2 (G a))"
  shows "commutes F H (bind m1 f1) (bind m2 f2)"
proof (rule commutesI)
  fix w
  show "bind m2 f2 (F w) = (case bind m1 f1 w of Inl (code, w') \<Rightarrow> Inl (code, F w')
                                | Inr (a, w') \<Rightarrow> Inr (H a, F w'))"
  proof (cases "m1 w")
    case (Inl e)
    obtain code w' where e: "e = (code, w')" by (cases e)
    from m Inl e have "m2 (F w) = Inl (code, F w')" by (simp add: commutes_def)
    with Inl e show ?thesis by (simp add: bind_def)
  next
    case (Inr p)
    obtain a w' where p: "p = (a, w')" by (cases p)
    from m Inr p have "m2 (F w) = Inr (G a, F w')" by (simp add: commutes_def)
    moreover from f [of a] have "f2 (G a) (F w') = (case f1 a w' of Inl (code, w') \<Rightarrow> Inl (code, F w')
                                | Inr (a, w') \<Rightarrow> Inr (H a, F w'))"
      by (simp add: commutes_def)
    ultimately show ?thesis using Inr p by (simp add: bind_def)
  qed
qed

lemma commutes_bind_id:
  assumes "commutes F id m1 m2" and "\<And>a. commutes F H (f1 a) (f2 a)"
  shows "commutes F H (bind m1 f1) (bind m2 f2)"
  using commutes_bind [of F id m1 m2 H f1 f2] assms by simp

lemmas image_defs = set_image_world_def invoke_def log_def Fatalw_def Let_def

lemma commutes_return: "commutes (set_image_world v) id (\<lambda>w. Inr (a, w)) (\<lambda>w. Inr (a, w))"
  by (simp add: commutes_def)

lemma commutes_LoadConfig: "commutes (set_image_world v) id (LoadConfig x) (LoadConfig x)"
  by (rule commutesI, cases "controllers_LoadConfig x") (simp_all add: LoadConfig_def image_defs)

lemma commutes_orFatal:
  "commutes (set_image_world v) id (orFatal c err msg) (orFatal c err msg)"
  by (rule commutesI, cases err) (simp_all add: orFatal_def image_defs)

lemma commutes_lookupEnvDurationOr:
  "commutes (set_image_world v) id (lookupEnvDurationOr x key d) (lookupEnvDurationOr x key d)"
  by (rule commutesI)
    (simp add: lookupEnvDurationOr_def image_defs split: option.splits sum.splits)

lemma commutes_Start_options:
  "commutes (set_image_world v) id (Start_options eventsOpts x) (Start_options eventsOpts x)"
proof (cases "LeaderElection eventsOpts")
  case False
  then show ?thesis by (simp add: commutes_def Start_options_without_election)
next
  case True
  have "commutes (set_image_world v) id
     (bind (lookupEnvDurationOr x k1 d1) (\<lambda>a. bind (lookupEnvDurationOr x k2 d2)
        (\<lambda>b. bind (lookupEnvDurationOr x k3 d3) (\<lambda>c w. Inr (g a b c, w)))))
     (bind (lookupEnvDurationOr x k1 d1) (\<lambda>a. bind (lookupEnvDurationOr x k2 d2)
        (\<lambda>b. bind (lookupEnvDurationOr x k3 d3) (\<lambda>c w. Inr (g a b c, w)))))"
    for k1 k2 k3 d1 d2 d3 and g :: "Duration \<Rightarrow> Duration \<Rightarrow> Duration \<Rightarrow> ctrl_Options"
    by (intro commutes_bind_id commutes_lookupEnvDurationOr commutes_return)
  then show ?thesis
    by (simp add: commutes_def Start_options_with_election [OF True])
qed

lemma commutes_GetConfigOrDie: "commutes (set_image_world v) id (GetConfigOrDie x) (GetConfigOrDie x)"
  by (rule commutesI, cases "ctrl_GetConfig x") (simp_all add: GetConfigOrDie_def image_defs)

lemma commutes_NewManager:
  "commutes (set_image_world v) id (NewManager x opts) (NewManager x opts)"
  by (rule commutesI, cases "ctrl_NewManager x opts") (simp_all add: NewManager_def image_defs)

lemma commutes_NewForConfigOrDie:
  "commutes (set_image_world v) id (NewForConfigOrDie x) (NewForConfigOrDie x)"
  by (rule commutesI, cases "kubernetes_NewForConfig x")
    (simp_all add: NewForConfigOrDie_def image_defs)

lemma commutes_Start_manager:
  "commutes (set_image_world v) id (Start_manager x opts) (Start_manager x opts)"
  unfolding Start_manager_def
  by (intro commutes_bind_id commutes_GetConfigOrDie commutes_NewManager
      commutes_NewForConfigOrDie commutes_orFatal commutes_return)

lemma commutes_New:
  "commutes (set_image_world v) (set_image_controller v) (New x n r msg) (New x n (set_image v r) msg)"
  by (rule commutesI, cases "controller_New x n")
    (simp_all add: New_def image_defs set_image_controller_def)

lemma commutes_Watch_on:
  "commutes (set_image_world v) id (Watch_on x c src h ps msg)
     (Watch_on x (set_image_controller v c) src h ps msg)"
  by (rule commutesI, cases "controller_Watch x (controller_name c) (source_kind src)")
    (simp_all add: Watch_on_def image_defs set_image_controller_def)

lemma commutes_Start_run: "commutes (set_image_world v) id (Start_run x) (Start_run x)"
  by (rule commutesI, cases "mgr_Start x") (simp_all add: Start_run_def orFatal_def image_defs)

lemma commutes_Start_eventbus:
  "commutes (set_image_world v) id (Start_eventbus x mgr kc config) (Start_eventbus x mgr kc config)"
  unfolding Start_eventbus_def
  by (rule commutes_bind [OF commutes_New [of v x _ "eventbus_NewReconciler c kc s config l" for c s l,
          simplified]])
    (intro commutes_bind_id commutes_Watch_on)

lemma commutes_Start_eventsource:
  "commutes (set_image_world v) id (Start_eventsource x mgr v1) (Start_eventsource x mgr v)"
  unfolding Start_eventsource_def
  by (rule commutes_bind [OF commutes_New [of v x _ "eventsource_NewReconciler c s v1 l" for c s l,
          simplified]])
    (intro commutes_bind_id commutes_Watch_on)

lemma commutes_Start_sensor:
  "commutes (set_image_world v) id (Start_sensor x mgr v1) (Start_sensor x mgr v)"
  unfolding Start_sensor_def
  by (rule commutes_bind [OF commutes_New [of v x _ "sensor_NewReconciler c s v1 l" for c s l,
          simplified]])
    (intro commutes_bind_id commutes_Watch_on)

lemma commutes_Start_controllers:
  "commutes (set_image_world v) id (Start_controllers x mgr kc config v1)
     (Start_controllers x mgr kc config v)"
  unfolding Start_controllers_def
  by (intro commutes_bind_id commutes_Start_eventbus commutes_Start_eventsource
      commutes_Start_sensor commutes_Start_run)

lemma LookupImage_with_image:
  "LookupImage (with_image v x) = (\<lambda>w. Inr (v, invoke (Call_LookupEnv imageEnvVar) w))"
  by (simp add: LookupImage_def with_image_def fun_eq_iff)

lemma commutes_LookupImage:
  "commutes (set_image_world v) (\<lambda>_. v) (LookupImage (with_image v1 x)) (LookupImage (with_image v x))"
  by (simp add: commutes_def LookupImage_with_image image_defs)

lemma Start_with_image:
  "Start eventsOpts (with_image v x) =
     bind (LoadConfig x) (\<lambda>config.
     bind (orFatal (Call_ValidateConfig config) (controllers_ValidateConfig x config)
             ''Global configuration file validation failed'') (\<lambda>_.
     bind (LookupImage (with_image v x)) (\<lambda>imageName.
     bind (Start_options eventsOpts x) (\<lambda>opts.
     bind (Start_manager x opts) (\<lambda>(mgr, kc).
     Start_controllers x mgr kc config imageName))))) init_World"
proof -
  have "Start_options eventsOpts (with_image v x) = Start_options eventsOpts x"
    unfolding with_image_def
    by (rule Start_options_env) (simp add: leaderElectionKeys_def imageEnvVar_def)
  then show ?thesis
    unfolding Start_def
    by (simp add: with_image_def LoadConfig_env Start_manager_env Start_controllers_env)
qed

lemma commutes_Start:
  "commutes (set_image_world v) id
     (\<lambda>w. bind (LoadConfig x) (\<lambda>config.
     bind (orFatal (Call_ValidateConfig config) (controllers_ValidateConfig x config)
             ''Global configuration file validation failed'') (\<lambda>_.
     bind (LookupImage (with_image v1 x)) (\<lambda>imageName.
     bind (Start_options eventsOpts x) (\<lambda>opts.
     bind (Start_manager x opts) (\<lambda>(mgr, kc).
     Start_controllers x mgr kc config imageName))))) w)
     (\<lambda>w. bind (LoadConfig x) (\<lambda>config.
     bind (orFatal (Call_ValidateConfig config) (controllers_ValidateConfig x config)
             ''Global configuration file validation failed'') (\<lambda>_.
     bind (LookupImage (with_image v x)) (\<lambda>imageName.
     bind (Start_options eventsOpts x) (\<lambda>opts.
     bind (Start_manager x opts) (\<lambda>(mgr, kc).
     Start_controllers x mgr kc config imageName))))) w)"
proof -
  have tail: "commutes (set_image_world v) id
      (bind (Start_options eventsOpts x) (\<lambda>opts. bind (Start_manager x opts)
         (\<lambda>(mgr, kc). Start_controllers x mgr kc config a)))
      (bind (Start_options eventsOpts x) (\<lambda>opts. bind (Start_manager x opts)
         (\<lambda>(mgr, kc). Start_controllers x mgr kc config v)))" for config a
  proof (intro commutes_bind_id commutes_Start_options commutes_Start_manager)
    fix opts :: ctrl_Options and p :: "Manager \<times> KubeClient"
    show "commutes (set_image_world v) id
        (case p of (mgr, kc) \<Rightarrow> Start_controllers x mgr kc config a)
        (case p of (mgr, kc) \<Rightarrow> Start_controllers x mgr kc config v)"
      by (cases p) (simp add: commutes_Start_controllers)
  qed
  have "commutes (set_image_world v) id
     (bind (LoadConfig x) (\<lambda>config.
     bind (orFatal (Call_ValidateConfig config) (controllers_ValidateConfig x config)
             ''Global configuration file validation failed'') (\<lambda>_.
     bind (LookupImage (with_image v1 x)) (\<lambda>imageName.
     bind (Start_options eventsOpts x) (\<lambda>opts.
     bind (Start_manager x opts) (\<lambda>(mgr, kc).
     Start_controllers x mgr kc config imageName))))))
     (bind (LoadConfig x) (\<lambda>config.
     bind (orFatal (Call_ValidateConfig config) (controllers_ValidateConfig x config)
             ''Global configuration file validation failed'') (\<lambda>_.
     bind (LookupImage (with_image v x)) (\<lambda>imageName.
     bind (Start_options eventsOpts x) (\<lambda>opts.
     bind (Start_manager x opts) (\<lambda>(mgr, kc).
     Start_controllers x mgr kc config imageName))))))"
    apply (rule commutes_bind_id [OF commutes_LoadConfig])
    apply (rule commutes_bind_id [OF commutes_orFatal])
    apply (rule commutes_bind [OF commutes_LookupImage])
    apply (rule tail)
    done
  then show ?thesis by (simp add: commutes_def)
qed

lemma Start_image_map:
  "Start eventsOpts (with_image v x)
     = map_world (set_image_world v) (Start eventsOpts (with_image v1 x))"
proof -
  have i: "set_image_world v init_World = (init_World :: 'a World)"
    by (simp add: set_image_world_def init_World_def)
  show ?thesis
    using commutes_Start [of v x v1 eventsOpts, unfolded commutes_def, rule_format, of init_World]
    unfolding Start_with_image i
    by (auto split: sum.splits)
qed

lemma Start_controllers_prefix:
  assumes "os_LookupEnv x imageEnvVar = Some imageName"
  shows "controllers (world_of (Start eventsOpts x)) = []
    \<or> (\<exists>config. controllers_LoadConfig x = Inr config
         \<and> prefix (controllers (world_of (Start eventsOpts x)))
      [\<lparr>controller_name = eventbus_ControllerName,
        controller_Reconciler = eventbus_NewReconciler mgr_GetClient kubeClient mgr_GetScheme config logger\<rparr>,
       \<lparr>controller_name = eventsource_ControllerName,
        controller_Reconciler = eventsource_NewReconciler mgr_GetClient mgr_GetScheme imageName logger\<rparr>,
       \<lparr>controller_name = sensor_ControllerName,
        controller_Reconciler = sensor_NewReconciler mgr_GetClient mgr_GetScheme imageName logger\<rparr>])"
proof (cases rule: Start_summary [of eventsOpts x])
  case (exited code W)
  then show ?thesis by simp
next
  case (built config imageName' opts kc w w' w5)
  with assms have i: "imageName' = imageName" by simp
  have k: "kc = kubeClient" by (cases kc) simp
  from registers_Start_controllers [of kc config imageName "\<lparr>mgr_Options = opts\<rparr>" w5 x]
  have "prefix (controllers (world_of (Start eventsOpts x)))
      [\<lparr>controller_name = eventbus_ControllerName,
        controller_Reconciler = eventbus_NewReconciler mgr_GetClient kubeClient mgr_GetScheme config logger\<rparr>,
       \<lparr>controller_name = eventsource_ControllerName,
        controller_Reconciler = eventsource_NewReconciler mgr_GetClient mgr_GetScheme imageName logger\<rparr>,
       \<lparr>controller_name = sensor_ControllerName,
        controller_Reconciler = sensor_NewReconciler mgr_GetClient mgr_GetScheme imageName logger\<rparr>]"
    unfolding built(4) i k
    by (cases "exit_code (Start_controllers x \<lparr>mgr_Options = opts\<rparr> kubeClient config imageName w5)")
      (simp_all add: registers_def built(6))
  with built(1) show ?thesis by blast
qed

section \<open>The controller behind each watch\<close>

lemma owned_iff:
  "owned w \<longleftrightarrow> watch_controller ` set (watches w) \<subseteq> controller_name ` set (controllers w)"
  by (auto simp add: owned_def list_all_iff list_ex_iff image_iff subset_iff; metis)

lemma owned_ball:
  "owned w \<longleftrightarrow>
     (\<forall>wt \<in> set (watches w). \<exists>c \<in> set (controllers w). controller_name c = watch_controller wt)"
  by (simp add: owned_def list_all_iff list_ex_iff)

lemma owned_seq:
  assumes "owned w"
    and "\<And>w. owned w \<Longrightarrow> owned (world_of (m w))"
    and "\<And>a w. owned w \<Longrightarrow> owned (world_of (f a w))"
  shows "owned (world_of (bind m f w))"
proof (cases "m w")
  case (Inl e)
  from assms(2) [OF assms(1)] show ?thesis
    unfolding bind_Inl [where m = m and w = w, OF Inl] by (cases e) (simp add: Inl)
next
  case (Inr p)
  obtain a w' where p: "p = (a, w')" by (cases p)
  from assms(2) [OF assms(1)] have "owned w'" by (simp add: Inr p)
  then show ?thesis
    unfolding bind_Inr [where m = m and w = w, OF Inr [unfolded p]] by (rule assms(3))
qed

lemma owned_Watch_on:
  assumes "owned w" "c \<in> set (controllers w)"
  shows "owned (world_of (Watch_on x c src h ps msg w))"
  using assms
  by (cases "controller_Watch x (controller_name c) (source_kind src)")
    (auto simp add: owned_iff Watch_on_def invoke_def Fatalw_def log_def Let_def)

lemma owned_Watch_on_bind:
  assumes "owned w" "c \<in> set (controllers w)"
    and "\<And>w'. owned w' \<Longrightarrow> c \<in> set (controllers w') \<Longrightarrow> owned (world_of (f w'))"
  shows "owned (world_of (bind (Watch_on x c src h ps msg) (\<lambda>_. f) w))"
proof (cases "Watch_on x c src h ps msg w")
  case (Inl e)
  from owned_Watch_on [OF assms(1,2), of x src h ps msg]
  show ?thesis
    unfolding bind_Inl [where m = "Watch_on x c src h ps msg" and w = w, OF Inl]
    by (cases e) (simp add: Inl)
next
  case (Inr p)
  obtain a w' where p: "p = (a, w')" by (cases p)
  from owned_Watch_on [OF assms(1,2), of x src h ps msg] have o: "owned w'" by (simp add: Inr p)
  from Inr p assms(2) have "c \<in> set (controllers w')"
    by (auto simp add: Watch_on_def invoke_def Fatalw_def Let_def split: option.splits)
  with o show ?thesis
    unfolding bind_Inr [where m = "Watch_on x c src h ps msg" and w = w, OF Inr [unfolded p]]
    by (rule assms(3))
qed

lemma owned_New_bind:
  assumes "owned w"
    and "\<And>c w'. owned w' \<Longrightarrow> c \<in> set (controllers w') \<Longrightarrow> owned (world_of (f c w'))"
  shows "owned (world_of (bind (New x n r msg) f w))"
proof (cases "New x n r msg w")
  case (Inl e)
  then have "watches (snd e) = watches w" "controllers (snd e) = controllers w"
    by (auto simp add: New_def invoke_def Fatalw_def log_def Let_def split: option.splits)
  with assms(1) have "owned (snd e)" by (simp add: owned_iff)
  then show ?thesis
    unfolding bind_Inl [where m = "New x n r msg" and w = w, OF Inl] by (cases e) simp
next
  case (Inr p)
  obtain c w' where p: "p = (c, w')" by (cases p)
  from Inr p have "watches w' = watches w" "controllers w' = controllers w @ [c]"
    by (auto simp add: New_def invoke_def Fatalw_def log_def Let_def split: option.splits)
  with assms(1) have "owned w'" "c \<in> set (controllers w')" by (auto simp add: owned_iff)
  then show ?thesis
    unfolding bind_Inr [where m = "New x n r msg" and w = w, OF Inr [unfolded p]]
    by (rule assms(2))
qed

lemma owned_Start_eventbus: "owned w \<Longrightarrow> owned (world_of (Start_eventbus x mgr kc config w))"
  unfolding Start_eventbus_def
  by (erule owned_New_bind) (intro owned_Watch_on_bind owned_Watch_on; assumption)

lemma owned_Start_eventsource: "owned w \<Longrightarrow> owned (world_of (Start_eventsource x mgr imageName w))"
  unfolding Start_eventsource_def
  by (erule owned_New_bind) (intro owned_Watch_on_bind owned_Watch_on; assumption)

lemma owned_Start_sensor: "owned w \<Longrightarrow> owned (world_of (Start_sensor x mgr imageName w))"
  unfolding Start_sensor_def
  by (erule owned_New_bind) (intro owned_Watch_on_bind owned_Watch_on; assumption)

lemma owned_Start_run: "owned w \<Longrightarrow> owned (world_of (Start_run x w))"
  by (simp add: owned_iff Start_run_frame)

lemma owned_Start_controllers:
  "owned w \<Longrightarrow> owned (world_of (Start_controllers x mgr kc config imageName w))"
  unfolding Start_controllers_def
  by (intro owned_seq owned_Start_eventbus owned_Start_eventsource owned_Start_sensor
      owned_Start_run; assumption)

lemma owned_Start: "owned (world_of (Start eventsOpts x))"
proof (cases rule: Start_summary [of eventsOpts x])
  case (exited code W)
  then show ?thesis by (simp add: owned_iff)
next
  case (built config imageName opts kc w w' w5)
  from built(6,7) have "owned w5" by (simp add: owned_iff)
  then show ?thesis unfolding built(4) by (rule owned_Start_controllers)
qed

lemma Start_controllers_kind:
  assumes "c \<in> set (controllers (world_of (Start eventsOpts x)))"
  shows "reconciler_kind (controller_Reconciler c) =
    (case controller_name c of eventbus_ControllerName \<Rightarrow> EventBus
     | eventsource_ControllerName \<Rightarrow> EventSource | sensor_ControllerName \<Rightarrow> Sensor)"
proof (cases rule: Start_summary [of eventsOpts x])
  case (exited code W)
  with assms show ?thesis by simp
next
  case (built config imageName opts kc w w' w5)
  from Start_controllers_prefix [OF built(2), of eventsOpts] assms
  obtain config' where "prefix (controllers (world_of (Start eventsOpts x)))
      [\<lparr>controller_name = eventbus_ControllerName,
        controller_Reconciler = eventbus_NewReconciler mgr_GetClient kubeClient mgr_GetScheme config' logger\<rparr>,
       \<lparr>controller_name = eventsource_ControllerName,
        controller_Reconciler = eventsource_NewReconciler mgr_GetClient mgr_GetScheme imageName logger\<rparr>,
       \<lparr>controller_name = sensor_ControllerName,
        controller_Reconciler = sensor_NewReconciler mgr_GetClient mgr_GetScheme imageName logger\<rparr>]"
    by auto
  from set_mono_prefix [OF this] assms have "c \<in> set
      [\<lparr>controller_name = eventbus_ControllerName,
        controller_Reconciler = eventbus_NewReconciler mgr_GetClient kubeClient mgr_GetScheme config' logger\<rparr>,
       \<lparr>controller_name = eventsource_ControllerName,
        controller_Reconciler = eventsource_NewReconciler mgr_GetClient mgr_GetScheme imageName logger\<rparr>,
       \<lparr>controller_name = sensor_ControllerName,
        controller_Reconciler = sensor_NewReconciler mgr_GetClient mgr_GetScheme imageName logger\<rparr>]"
    by blast
  then show ?thesis by auto
qed

lemma wiring_eq:
  "wiring c =
     [primary_watch c eventbus_ControllerName EventBus,
      secondary_watch c eventbus_ControllerName EventBus ConfigMap,
      secondary_watch c eventbus_ControllerName EventBus StatefulSet,
      secondary_watch c eventbus_ControllerName EventBus Service,
      primary_watch c eventsource_ControllerName EventSource,
      secondary_watch c eventsource_ControllerName EventSource Deployment,
      secondary_watch c eventsource_ControllerName EventSource Service,
      primary_watch c sensor_ControllerName Sensor,
      secondary_watch c sensor_ControllerName Sensor Deployment]"
  by (simp add: wiring_def wiring_table_def)

lemma wiring_target:
  assumes "wt \<in> set (wiring c)"
  shows "watch_target wt =
    (case watch_controller wt of eventbus_ControllerName \<Rightarrow> EventBus
     | eventsource_ControllerName \<Rightarrow> EventSource | sensor_ControllerName \<Rightarrow> Sensor)"
  using assms unfolding wiring_eq
  by (auto simp add: primary_watch_def secondary_watch_def watch_target_def)

lemma bootstrap_position_29: "bootstrap_position c = 29 \<Longrightarrow> c = Call_mgr_Start"
  by (cases c rule: bootstrap_position.cases)
    (simp_all split: if_splits ControllerName.splits Kind.splits)

lemma Start_returns_reached:
  assumes "exit_code (Start eventsOpts x) = None"
  shows "Call_mgr_Start \<in> set (calls (world_of (Start eventsOpts x)))"
proof -
  from disciplined_Start [of eventsOpts x] assms
  have "list_all (\<lambda>p. expected (LeaderElection eventsOpts) p \<longrightarrow>
          p \<in> set (map bootstrap_position (calls (world_of (Start eventsOpts x))))) [0..<30]"
    by (simp add: disciplined_def Let_def init_World_def)
  then have "expected (LeaderElection eventsOpts) 29 \<longrightarrow>
          29 \<in> set (map bootstrap_position (calls (world_of (Start eventsOpts x))))"
    unfolding list_all_iff by simp
  then obtain c where "c \<in> set (calls (world_of (Start eventsOpts x)))" "bootstrap_position c = 29"
    by (auto simp add: expected_def)
  then show ?thesis by (auto dest: bootstrap_position_29)
qed

section \<open>The last call of a run\<close>

lemma sorted_wrt_le_last:
  assumes "sorted_wrt (<) (map f xs)" "x \<in> set xs"
  shows "(f x :: nat) \<le> f (last xs)"
proof -
  from assms(2) have ne: "xs \<noteq> []" by auto
  then have xs: "xs = butlast xs @ [last xs]" by simp
  from assms(1) have "sorted_wrt (<) (map f (butlast xs @ [last xs]))" using xs by simp
  then have "\<forall>y \<in> set (butlast xs). f y < f (last xs)"
    by (simp add: sorted_wrt_append)
  moreover from assms(2) xs have "x \<in> set (butlast xs) \<or> x = last xs"
    by (metis Un_iff insert_iff list.set(2) set_append empty_iff empty_set)
  ultimately show ?thesis by auto
qed

lemma in_set_butlast_or_last:
  assumes "x \<in> set xs"
  shows "x \<in> set (butlast xs) \<or> x = last xs"
proof -
  from assms have "xs \<noteq> []" by auto
  then have "xs = butlast xs @ [last xs]" by simp
  with assms show ?thesis
    by (metis Un_iff insert_iff list.set(2) set_append empty_iff empty_set)
qed

section \<open>What an update enqueues\<close>

lemma wiring_secondary:
  assumes "wt \<in> set (wiring c)" "\<not> is_primary (source_kind (watch_source wt))"
  shows "watch_predicates wt = [GenerationChangedPredicate]"
    and "watch_handler wt
      = EnqueueRequestForOwner mgr_GetScheme mgr_GetRESTMapper (watch_target wt) [OnlyControllerOwner]"
    and "is_primary (watch_target wt)"
  using assms unfolding wiring_eq
  by (auto simp add: primary_watch_def secondary_watch_def watch_target_def is_primary_def)

lemma wiring_primary:
  assumes "wt \<in> set (wiring c)" "is_primary (source_kind (watch_source wt))"
  shows "watch_predicates wt = [predicate_Or [GenerationChangedPredicate, LabelChangedPredicate]]"
    and "watch_handler wt = EnqueueRequestForObject"
    and "watch_target wt = source_kind (watch_source wt)"
  using assms unfolding wiring_eq
  by (auto simp add: primary_watch_def secondary_watch_def watch_target_def is_primary_def)

lemma watch_enqueues_owner:
  assumes "watch_predicates wt = [GenerationChangedPredicate]"
    and "watch_handler wt = EnqueueRequestForOwner s m owner opts"
  shows "watch_enqueues wt old new =
     (if obj_Kind new = source_kind (watch_source wt) \<and> obj_Generation old \<noteq> obj_Generation new
      then (case find ref_Controller (obj_OwnerReferences new) of
              None \<Rightarrow> []
            | Some r \<Rightarrow> if ref_Kind r = owner then [(obj_Namespace new, ref_Name r)] else [])
      else [])"
  using assms by (auto simp add: watch_enqueues_def)

lemma watch_enqueues_object:
  assumes "watch_predicates wt = [predicate_Or [GenerationChangedPredicate, LabelChangedPredicate]]"
    and "watch_handler wt = EnqueueRequestForObject"
  shows "watch_enqueues wt old new =
     (if obj_Kind new = source_kind (watch_source wt)
         \<and> (obj_Generation old \<noteq> obj_Generation new \<or> obj_Labels old \<noteq> obj_Labels new)
      then [(obj_Namespace new, obj_Name new)]
      else [])"
  using assms by (auto simp add: watch_enqueues_def)

lemma dispatch_wiring_primary:
  assumes "is_primary (obj_Kind new)"
  shows "dispatch (wiring c) old new =
     (if obj_Generation old \<noteq> obj_Generation new \<or> obj_Labels old \<noteq> obj_Labels new
      then [(if obj_Kind new = EventBus then eventbus_ControllerName
             else if obj_Kind new = EventSource then eventsource_ControllerName
             else sensor_ControllerName, (obj_Namespace new, obj_Name new))]
      else [])"
  using assms unfolding wiring_eq
  by (auto simp add: dispatch_def watch_enqueues_def primary_watch_def secondary_watch_def
      is_primary_def)

section \<open>The claims\<close>

lemmas run_defs = Start_def LoadConfig_def LookupImage_def Start_options_def Start_manager_def
  Start_controllers_def Start_eventbus_def Start_eventsource_def Start_sensor_def Start_run_def
  lookupEnvDurationOr_def GetConfigOrDie_def NewManager_def NewForConfigOrDie_def New_def
  Watch_on_def orFatal_def Fatalw_def invoke_def log_def bind_def init_World_def mgr_GetCache_def
  imageEnvVar_def healthy_def sample_Opts_def sample_ParseDuration_def Let_def

text \<open>
  Claim C1, as the specification states it, fails: for a key that is set to a value
  that is not empty and that \<^verbatim>\<open>time.ParseDuration\<close> rejects, the resolver does not
  return the fallback. The example: the lease duration is set to "abc"; the resolver
  logs at the fatal level and the process exits with status 1, and so does \<^verbatim>\<open>Start\<close>
  with leader election, after five calls and before the manager is constructed.
\<close>

theorem lookupEnvDurationOr_malformed_counterexample:
  "os_LookupEnv (healthy [imageEnvVar \<mapsto> ''img'', ''LEADER_ELECTION_LEASE_DURATION'' \<mapsto> ''abc''])
      ''LEADER_ELECTION_LEASE_DURATION'' = Some ''abc''
   \<and> time_ParseDuration (healthy [imageEnvVar \<mapsto> ''img'', ''LEADER_ELECTION_LEASE_DURATION'' \<mapsto> ''abc''])
      ''abc'' = Inl ''time: invalid duration''
   \<and> lookupEnvDurationOr (healthy [imageEnvVar \<mapsto> ''img'', ''LEADER_ELECTION_LEASE_DURATION'' \<mapsto> ''abc''])
      ''LEADER_ELECTION_LEASE_DURATION'' (15 * Second) init_World
      = Inl (1, \<lparr>logs = [(FatalLevel, ''parsing %s duration'')],
                calls = [Call_LookupEnv ''LEADER_ELECTION_LEASE_DURATION'',
                         Call_ParseDuration ''LEADER_ELECTION_LEASE_DURATION'' ''abc''],
                manager = None, controllers = [], watches = []\<rparr>)
   \<and> Start (sample_Opts False True)
        (healthy [imageEnvVar \<mapsto> ''img'', ''LEADER_ELECTION_LEASE_DURATION'' \<mapsto> ''abc''])
      = Inl (1, \<lparr>logs = [(FatalLevel, ''parsing %s duration'')],
                calls = [Call_LoadConfig, Call_ValidateConfig ''config'', Call_LookupEnv imageEnvVar,
                         Call_LookupEnv ''LEADER_ELECTION_LEASE_DURATION'',
                         Call_ParseDuration ''LEADER_ELECTION_LEASE_DURATION'' ''abc''],
                manager = None, controllers = [], watches = []\<rparr>)"
  by (simp add: run_defs)

text \<open>
  Claim C1, amended. For a key that is set to a value that is not empty and that
  \<^verbatim>\<open>time.ParseDuration\<close> rejects, \<^verbatim>\<open>lookupEnvDurationOr\<close> writes one log entry at the
  fatal level and the process exits with status 1; the fallback is not returned. With
  leader election, a malformed value of any of the three keys ends \<^verbatim>\<open>Start\<close> with
  status 1 before the manager is constructed.
\<close>

theorem lookupEnvDurationOr_malformed_fatal:
  assumes "malformed x key"
  shows "exit_code (lookupEnvDurationOr x key fallback w) = Some 1
    \<and> world_of (lookupEnvDurationOr x key fallback w)
        = log FatalLevel ''parsing %s duration''
           (invoke (Call_ParseDuration key (the (os_LookupEnv x key))) (invoke (Call_LookupEnv key) w))
    \<and> (LeaderElection eventsOpts \<and> key \<in> set leaderElectionKeys \<longrightarrow>
          exit_code (Start eventsOpts x) = Some 1 \<and> untouched (world_of (Start eventsOpts x)))"
proof (intro conjI impI)
  from assms obtain v err where v: "os_LookupEnv x key = Some v" "v \<noteq> []"
    "time_ParseDuration x v = Inl err"
    by (auto simp add: malformed_def isl_def split: option.splits)
  note r = lookupEnvDurationOr_malformed [OF v, of fallback w]
  show "exit_code (lookupEnvDurationOr x key fallback w) = Some 1"
    by (simp add: r Fatalw_def)
  show "world_of (lookupEnvDurationOr x key fallback w)
        = log FatalLevel ''parsing %s duration''
           (invoke (Call_ParseDuration key (the (os_LookupEnv x key))) (invoke (Call_LookupEnv key) w))"
    by (simp add: r Fatalw_def v(1))
next
  assume a: "LeaderElection eventsOpts \<and> key \<in> set leaderElectionKeys"
  then have no: "Start_options eventsOpts x w \<noteq> Inr p" for w p
    using Start_options_malformed [OF _ _ assms] by blast
  have "exit_code (Start eventsOpts x) = Some 1 \<and> untouched (world_of (Start eventsOpts x))"
  proof (cases rule: Start_summary [of eventsOpts x])
    case (exited code W)
    from exited(9) no have u: "untouched W" by blast
    with exited(8) have "code = 1" by simp
    with exited(1) u show ?thesis by simp
  next
    case (built config imageName opts kc w w' w5)
    with no show ?thesis by simp
  qed
  then show "exit_code (Start eventsOpts x) = Some 1" "untouched (world_of (Start eventsOpts x))"
    by simp_all
qed

text \<open>The example of the counterexample satisfies the hypotheses.\<close>

theorem lookupEnvDurationOr_malformed_fatal_witness:
  "malformed (healthy [imageEnvVar \<mapsto> ''img'', ''LEADER_ELECTION_LEASE_DURATION'' \<mapsto> ''abc''])
      ''LEADER_ELECTION_LEASE_DURATION''
   \<and> exit_code (lookupEnvDurationOr
        (healthy [imageEnvVar \<mapsto> ''img'', ''LEADER_ELECTION_LEASE_DURATION'' \<mapsto> ''abc''])
        ''LEADER_ELECTION_LEASE_DURATION'' (15 * Second) init_World) = Some 1
   \<and> LeaderElection (sample_Opts False True)
   \<and> ''LEADER_ELECTION_LEASE_DURATION'' \<in> set leaderElectionKeys
   \<and> exit_code (Start (sample_Opts False True)
        (healthy [imageEnvVar \<mapsto> ''img'', ''LEADER_ELECTION_LEASE_DURATION'' \<mapsto> ''abc''])) = Some 1
   \<and> untouched (world_of (Start (sample_Opts False True)
        (healthy [imageEnvVar \<mapsto> ''img'', ''LEADER_ELECTION_LEASE_DURATION'' \<mapsto> ''abc''])))"
proof -
  let ?x = "healthy [imageEnvVar \<mapsto> ''img'', ''LEADER_ELECTION_LEASE_DURATION'' \<mapsto> ''abc'']"
  have m: "malformed ?x ''LEADER_ELECTION_LEASE_DURATION''"
    by (simp add: malformed_def healthy_def sample_ParseDuration_def)
  have h: "LeaderElection (sample_Opts False True)
      \<and> ''LEADER_ELECTION_LEASE_DURATION'' \<in> set leaderElectionKeys"
    by (simp add: sample_Opts_def leaderElectionKeys_def)
  from lookupEnvDurationOr_malformed_fatal [OF m, of "15 * Second" init_World "sample_Opts False True"]
    m h show ?thesis by blast
qed

text \<open>
  Claim C4. If the required image variable (\<^verbatim>\<open>ARGO_EVENTS_IMAGE\<close>) is unset,
  \<^verbatim>\<open>Start\<close> exits with status 1 and nothing has been built: there is no manager, no
  controller and no watch, every call made stands before the construction of the
  manager, and none of the calls builds a controller or registers a watch. This holds
  whatever the other collaborators return (a failed load or validation of the
  configuration exits even earlier).
\<close>

theorem Start_requires_image:
  assumes "os_LookupEnv x imageEnvVar = None"
  shows "exit_code (Start eventsOpts x) = Some 1
    \<and> untouched (world_of (Start eventsOpts x))
    \<and> list_all (\<lambda>c. \<not> is_registration c) (calls (world_of (Start eventsOpts x)))"
proof (cases rule: Start_summary [of eventsOpts x])
  case (exited code W)
  with assms have u: "untouched W" and "code = 1" by simp_all
  with exited(1) untouched_calls(1) [OF u] show ?thesis by (simp add: list_all_iff)
next
  case (built config imageName opts kc w w' w5)
  with assms show ?thesis by simp
qed

text \<open>
  The example: every collaborator succeeds and the environment is empty. The run makes
  three calls and exits.
\<close>

theorem Start_requires_image_witness:
  "os_LookupEnv (healthy Map.empty) imageEnvVar = None
   \<and> exit_code (Start (sample_Opts False False) (healthy Map.empty)) = Some 1
   \<and> untouched (world_of (Start (sample_Opts False False) (healthy Map.empty)))
   \<and> calls (world_of (Start (sample_Opts False False) (healthy Map.empty)))
       = [Call_LoadConfig, Call_ValidateConfig ''config'', Call_LookupEnv imageEnvVar]"
proof -
  have h: "os_LookupEnv (healthy Map.empty) imageEnvVar = None" by (simp add: healthy_def)
  have c: "calls (world_of (Start (sample_Opts False False) (healthy Map.empty)))
       = [Call_LoadConfig, Call_ValidateConfig ''config'', Call_LookupEnv imageEnvVar]"
    by (simp add: run_defs)
  from h c Start_requires_image [OF h, of "sample_Opts False False"] show ?thesis by simp
qed

text \<open>
  Claim C5. For a key that is absent from the environment or set to the empty string,
  \<^verbatim>\<open>lookupEnvDurationOr\<close> returns exactly the fallback, after one lookup and without a
  log entry. With leader election and the three keys absent or empty, the options
  every call of \<^verbatim>\<open>ctrl.NewManager\<close> is given hold 15, 10 and 5 seconds for the lease
  duration, the renew deadline and the retry period (a second is 1000000000
  nanoseconds).
\<close>

theorem lookupEnvDurationOr_default:
  "(os_LookupEnv x key = None \<or> os_LookupEnv x key = Some [] \<longrightarrow>
      lookupEnvDurationOr x key fallback w = Inr (fallback, invoke (Call_LookupEnv key) w))
   \<and> (LeaderElection eventsOpts
        \<and> (\<forall>key \<in> set leaderElectionKeys. os_LookupEnv x key = None \<or> os_LookupEnv x key = Some [])
      \<longrightarrow> (\<forall>opts. Call_NewManager opts \<in> set (calls (world_of (Start eventsOpts x))) \<longrightarrow>
             LeaseDuration opts = Some (15 * Second) \<and> RenewDeadline opts = Some (10 * Second)
             \<and> RetryPeriod opts = Some (5 * Second)))
   \<and> Second = 1000000000"
proof (intro conjI impI allI)
  assume "os_LookupEnv x key = None \<or> os_LookupEnv x key = Some []"
  then show "lookupEnvDurationOr x key fallback w = Inr (fallback, invoke (Call_LookupEnv key) w)"
    by (rule lookupEnvDurationOr_fallback)
next
  fix opts
  assume a: "LeaderElection eventsOpts
        \<and> (\<forall>key \<in> set leaderElectionKeys. os_LookupEnv x key = None \<or> os_LookupEnv x key = Some [])"
    and "Call_NewManager opts \<in> set (calls (world_of (Start eventsOpts x)))"
  then obtain w w' where r: "Start_options eventsOpts x w = Inr (opts, w')"
    using Start_NewManager_options by blast
  from a have le: "LeaderElection eventsOpts"
    and ab: "\<forall>key \<in> set leaderElectionKeys. os_LookupEnv x key = None \<or> os_LookupEnv x key = Some []"
    by simp_all
  show "LeaseDuration opts = Some (15 * Second)" "RenewDeadline opts = Some (10 * Second)"
    "RetryPeriod opts = Some (5 * Second)"
    by (rule Start_options_defaults [OF le ab r])+
next
  show "Second = 1000000000" by (rule Second_def)
qed

text \<open>
  The example: only the image variable is set, leader election is on, every
  collaborator succeeds. The manager is built from the defaults.
\<close>

theorem lookupEnvDurationOr_default_witness:
  "os_LookupEnv (healthy [imageEnvVar \<mapsto> ''img'']) ''LEADER_ELECTION_RETRY_PERIOD'' = None
   \<and> lookupEnvDurationOr (healthy [imageEnvVar \<mapsto> ''img'']) ''LEADER_ELECTION_RETRY_PERIOD''
        (5 * Second) init_World
       = Inr (5000000000, invoke (Call_LookupEnv ''LEADER_ELECTION_RETRY_PERIOD'') init_World)
   \<and> LeaderElection (sample_Opts False True)
   \<and> list_all (\<lambda>key. os_LookupEnv (healthy [imageEnvVar \<mapsto> ''img'']) key = None) leaderElectionKeys
   \<and> Call_NewManager
        \<lparr>Metrics_BindAddress = '':7777'', HealthProbeBindAddress = '':8081'',
         Cache = \<lparr>DefaultNamespaces = Map.empty\<rparr>,
         Options_LeaderElection = True, LeaderElectionID = ''argo-events-controller'',
         LeaseDuration = Some 15000000000, RenewDeadline = Some 10000000000,
         RetryPeriod = Some 5000000000\<rparr>
       \<in> set (calls (world_of (Start (sample_Opts False True) (healthy [imageEnvVar \<mapsto> ''img'']))))"
proof -
  let ?x = "healthy [imageEnvVar \<mapsto> ''img'']" and ?o = "sample_Opts False True"
  let ?k = "''LEADER_ELECTION_RETRY_PERIOD''"
  let ?opts = "\<lparr>Metrics_BindAddress = '':7777'', HealthProbeBindAddress = '':8081'',
         Cache = \<lparr>DefaultNamespaces = Map.empty\<rparr>,
         Options_LeaderElection = True, LeaderElectionID = ''argo-events-controller'',
         LeaseDuration = Some 15000000000, RenewDeadline = Some 10000000000,
         RetryPeriod = Some 5000000000\<rparr>"
  have h1: "os_LookupEnv ?x ?k = None \<or> os_LookupEnv ?x ?k = Some []"
    by (simp add: healthy_def imageEnvVar_def)
  have h2: "LeaderElection ?o
      \<and> (\<forall>key \<in> set leaderElectionKeys. os_LookupEnv ?x key = None \<or> os_LookupEnv ?x key = Some [])"
    by (simp add: healthy_def imageEnvVar_def sample_Opts_def leaderElectionKeys_def)
  have m: "Call_NewManager ?opts \<in> set (calls (world_of (Start ?o ?x)))"
    by (simp add: run_defs Second_def bindAddress_def itoa_def digits10.simps)
  note t = lookupEnvDurationOr_default [of ?x ?k "5 * Second" init_World ?o]
  from t h1 have a: "lookupEnvDurationOr ?x ?k (5 * Second) init_World
      = Inr (5 * Second, invoke (Call_LookupEnv ?k) init_World)" by blast
  from t h2 m have b: "LeaseDuration ?opts = Some (15 * Second)" by blast
  from m a b h1 h2 show ?thesis
    by (simp add: Second_def healthy_def imageEnvVar_def leaderElectionKeys_def)
qed

text \<open>
  Claim C7. The options every call of \<^verbatim>\<open>ctrl.NewManager\<close> is given, the manager that is
  built and the source of every watch that is registered carry the cache scope of the
  specification: with "namespaced" the one namespace "managedNamespace", without it no
  namespace at all. The claim is settled on the options: what the controller runtime
  makes of a map whose only key is the empty string is outside the file.
\<close>

theorem Start_cache_scope:
  "(\<forall>opts. Call_NewManager opts \<in> set (calls (world_of (Start eventsOpts x))) \<longrightarrow>
      Cache opts = spec_cacheScope eventsOpts)
   \<and> (\<forall>mgr. manager (world_of (Start eventsOpts x)) = Some mgr \<longrightarrow>
      mgr_GetCache mgr = spec_cacheScope eventsOpts)
   \<and> (\<forall>wt \<in> set (watches (world_of (Start eventsOpts x))).
      source_cache (watch_source wt) = spec_cacheScope eventsOpts)
   \<and> dom (DefaultNamespaces (spec_cacheScope eventsOpts))
      = (if Namespaced eventsOpts then {ManagedNamespace eventsOpts} else {})"
proof (intro conjI allI impI ballI)
  fix opts
  assume "Call_NewManager opts \<in> set (calls (world_of (Start eventsOpts x)))"
  then obtain w w' where "Start_options eventsOpts x w = Inr (opts, w')"
    using Start_NewManager_options by blast
  then show "Cache opts = spec_cacheScope eventsOpts" by (rule Start_options_Inr(3))
next
  fix mgr
  assume "manager (world_of (Start eventsOpts x)) = Some mgr"
  then obtain w w' where "Start_options eventsOpts x w = Inr (mgr_Options mgr, w')"
    using Start_manager_options by blast
  then show "mgr_GetCache mgr = spec_cacheScope eventsOpts"
    unfolding mgr_GetCache_def by (rule Start_options_Inr(3))
next
  fix wt
  assume "wt \<in> set (watches (world_of (Start eventsOpts x)))"
  with Start_watches_prefix [of eventsOpts x]
  have "wt \<in> set (wiring (spec_cacheScope eventsOpts))"
    by (auto dest: set_mono_prefix)
  then show "source_cache (watch_source wt) = spec_cacheScope eventsOpts"
    by (auto simp add: wiring_def wiring_table_def primary_watch_def secondary_watch_def)
next
  show "dom (DefaultNamespaces (spec_cacheScope eventsOpts))
      = (if Namespaced eventsOpts then {ManagedNamespace eventsOpts} else {})"
    by (simp add: spec_cacheScope_def)
qed


text \<open>
  The example: a namespaced run in which every collaborator succeeds; and the scope of
  a run that is not namespaced.
\<close>

theorem Start_cache_scope_witness:
  "manager (world_of (Start (sample_Opts True False) (healthy [imageEnvVar \<mapsto> ''img''])))
     = Some \<lparr>mgr_Options =
         \<lparr>Metrics_BindAddress = '':7777'', HealthProbeBindAddress = '':8081'',
          Cache = \<lparr>DefaultNamespaces = [''argo-events'' \<mapsto> ()]\<rparr>,
          Options_LeaderElection = False, LeaderElectionID = [],
          LeaseDuration = None, RenewDeadline = None, RetryPeriod = None\<rparr>\<rparr>
   \<and> primary_watch \<lparr>DefaultNamespaces = [''argo-events'' \<mapsto> ()]\<rparr> sensor_ControllerName Sensor
       \<in> set (watches (world_of (Start (sample_Opts True False) (healthy [imageEnvVar \<mapsto> ''img'']))))
   \<and> spec_cacheScope (sample_Opts True False) = \<lparr>DefaultNamespaces = [''argo-events'' \<mapsto> ()]\<rparr>
   \<and> spec_cacheScope (sample_Opts False False) = \<lparr>DefaultNamespaces = Map.empty\<rparr>"
proof -
  let ?x = "healthy [imageEnvVar \<mapsto> ''img'']" and ?o = "sample_Opts True False"
  let ?c = "\<lparr>DefaultNamespaces = [''argo-events'' \<mapsto> ()]\<rparr>"
  let ?mgr = "\<lparr>mgr_Options =
         \<lparr>Metrics_BindAddress = '':7777'', HealthProbeBindAddress = '':8081'',
          Cache = ?c, Options_LeaderElection = False, LeaderElectionID = [],
          LeaseDuration = None, RenewDeadline = None, RetryPeriod = None\<rparr>\<rparr>"
  note t = Start_cache_scope [of ?o ?x]
  have m: "manager (world_of (Start ?o ?x)) = Some ?mgr"
    by (simp add: run_defs bindAddress_def itoa_def digits10.simps)
  have w: "primary_watch ?c sensor_ControllerName Sensor \<in> set (watches (world_of (Start ?o ?x)))"
    by (simp add: run_defs primary_watch_def)
  from t m have 1: "mgr_GetCache ?mgr = spec_cacheScope ?o" by blast
  from t w have 2: "source_cache (watch_source (primary_watch ?c sensor_ControllerName Sensor))
      = spec_cacheScope ?o" by blast
  have 3: "spec_cacheScope (sample_Opts False False) = \<lparr>DefaultNamespaces = Map.empty\<rparr>"
    by (simp add: spec_cacheScope_def sample_Opts_def)
  from m w 1 2 3 show ?thesis by (simp add: mgr_GetCache_def primary_watch_def)
qed

text \<open>
  Claim C9. Without leader election, a run does not depend on the three optional keys:
  replacing the environment by one that differs only in these keys gives the same
  result (the same exit status, trace, log, manager, controllers and watches); no call
  of the run looks one of the keys up or parses its value; and the options every call
  of \<^verbatim>\<open>ctrl.NewManager\<close> is given leave leader election off, with no identifier and
  no timing.
\<close>

theorem Start_without_election:
  assumes "\<not> LeaderElection eventsOpts"
    and "\<forall>key. key \<notin> set leaderElectionKeys \<longrightarrow> env key = os_LookupEnv x key"
  shows "Start eventsOpts (x\<lparr>os_LookupEnv := env\<rparr>) = Start eventsOpts x
    \<and> (\<forall>key \<in> set leaderElectionKeys. \<forall>v.
          Call_LookupEnv key \<notin> set (calls (world_of (Start eventsOpts x)))
          \<and> Call_ParseDuration key v \<notin> set (calls (world_of (Start eventsOpts x))))
    \<and> (\<forall>opts. Call_NewManager opts \<in> set (calls (world_of (Start eventsOpts x))) \<longrightarrow>
          \<not> Options_LeaderElection opts \<and> LeaderElectionID opts = [] \<and> LeaseDuration opts = None
          \<and> RenewDeadline opts = None \<and> RetryPeriod opts = None)"
proof (intro conjI ballI allI impI)
  from assms(2) have "env imageEnvVar = os_LookupEnv x imageEnvVar"
    by (simp add: leaderElectionKeys_def imageEnvVar_def)
  with assms(1) show "Start eventsOpts (x\<lparr>os_LookupEnv := env\<rparr>) = Start eventsOpts x"
    by (intro Start_env) simp_all
next
  fix key v
  assume k: "key \<in> set leaderElectionKeys"
  from disciplined_Start [of eventsOpts x] assms(1)
  obtain cs where "calls (world_of (Start eventsOpts x)) = calls init_World @ cs"
    and "list_all (\<lambda>c. called False (bootstrap_position c)) cs"
    by (auto elim: disciplinedD)
  then have c: "\<forall>c \<in> set (calls (world_of (Start eventsOpts x))).
      bootstrap_position c < 3 \<or> 9 \<le> bootstrap_position c"
    by (simp add: init_World_def called_def list_all_iff)
  from k have "\<not> (bootstrap_position (Call_LookupEnv key :: 'a Call) < 3
      \<or> 9 \<le> bootstrap_position (Call_LookupEnv key :: 'a Call))"
    "\<not> (bootstrap_position (Call_ParseDuration key v :: 'a Call) < 3
      \<or> 9 \<le> bootstrap_position (Call_ParseDuration key v :: 'a Call))"
    by (auto simp add: leaderElectionKeys_def)
  with c show "Call_LookupEnv key \<notin> set (calls (world_of (Start eventsOpts x)))"
    "Call_ParseDuration key v \<notin> set (calls (world_of (Start eventsOpts x)))"
    by blast+
next
  fix opts
  assume "Call_NewManager opts \<in> set (calls (world_of (Start eventsOpts x)))"
  then obtain w w' where r: "Start_options eventsOpts x w = Inr (opts, w')"
    using Start_NewManager_options by blast
  from Start_options_Inr(4,5,6) [OF r] assms(1)
  show "\<not> Options_LeaderElection opts" "LeaderElectionID opts = []" "LeaseDuration opts = None"
    "RenewDeadline opts = None" "RetryPeriod opts = None"
    by simp_all
qed

text \<open>
  The example: a run without leader election, with and without a malformed lease
  duration in the environment.
\<close>

theorem Start_without_election_witness:
  "\<not> LeaderElection (sample_Opts False False)
   \<and> list_all (\<lambda>key. key \<in> set leaderElectionKeys
        \<or> [imageEnvVar \<mapsto> ''img'', ''LEADER_ELECTION_LEASE_DURATION'' \<mapsto> ''abc''] key
            = os_LookupEnv (healthy [imageEnvVar \<mapsto> ''img'']) key)
       [imageEnvVar, ''LEADER_ELECTION_LEASE_DURATION'', ''HOME'']
   \<and> Start (sample_Opts False False)
       (healthy [imageEnvVar \<mapsto> ''img'', ''LEADER_ELECTION_LEASE_DURATION'' \<mapsto> ''abc''])
     = Start (sample_Opts False False) (healthy [imageEnvVar \<mapsto> ''img''])
   \<and> exit_code (Start (sample_Opts False False) (healthy [imageEnvVar \<mapsto> ''img''])) = None
   \<and> Call_NewManager
        \<lparr>Metrics_BindAddress = '':7777'', HealthProbeBindAddress = '':8081'',
         Cache = \<lparr>DefaultNamespaces = Map.empty\<rparr>,
         Options_LeaderElection = False, LeaderElectionID = [],
         LeaseDuration = None, RenewDeadline = None, RetryPeriod = None\<rparr>
       \<in> set (calls (world_of (Start (sample_Opts False False) (healthy [imageEnvVar \<mapsto> ''img'']))))"
proof -
  let ?x = "healthy [imageEnvVar \<mapsto> ''img'']" and ?o = "sample_Opts False False"
  let ?env = "[imageEnvVar \<mapsto> ''img'', ''LEADER_ELECTION_LEASE_DURATION'' \<mapsto> ''abc'']"
  let ?opts = "\<lparr>Metrics_BindAddress = '':7777'', HealthProbeBindAddress = '':8081'',
         Cache = \<lparr>DefaultNamespaces = Map.empty\<rparr>,
         Options_LeaderElection = False, LeaderElectionID = [],
         LeaseDuration = None, RenewDeadline = None, RetryPeriod = None\<rparr>"
  have h1: "\<not> LeaderElection ?o" by (simp add: sample_Opts_def)
  have h2: "\<forall>key. key \<notin> set leaderElectionKeys \<longrightarrow> ?env key = os_LookupEnv ?x key"
    by (simp add: healthy_def leaderElectionKeys_def)
  have e: "?x\<lparr>os_LookupEnv := ?env\<rparr> = healthy ?env" by (simp add: healthy_def)
  have m: "Call_NewManager ?opts \<in> set (calls (world_of (Start ?o ?x)))"
    and n: "exit_code (Start ?o ?x) = None"
    by (simp_all add: run_defs bindAddress_def itoa_def digits10.simps)
  note t = Start_without_election [OF h1 h2]
  from t have 1: "Start ?o (healthy ?env) = Start ?o ?x" unfolding e by blast
  from t m have 2: "\<not> Options_LeaderElection ?opts" by blast
  from h1 h2 1 2 m n show ?thesis
    by (simp add: healthy_def leaderElectionKeys_def imageEnvVar_def)
qed


subsection \<open>Claim C10: where the image name is passed\<close>

text \<open>
  Claim C10. The value read from \<^verbatim>\<open>ARGO_EVENTS_IMAGE\<close> is passed only to the EventSource and
  Sensor reconciler constructors; the EventBus reconciler is built from the client, the kube
  client, the scheme, the loaded configuration and the logger. Two runs that differ only in the
  value the variable is set to end in worlds that differ only in the image held by the
  EventSource and Sensor reconcilers: the EventBus controllers are the same, and so are the exit
  code, the trace of calls, the manager and the watches.
\<close>

theorem Start_image_frame:
  "Start eventsOpts (with_image v2 x)
     = map_world (set_image_world v2) (Start eventsOpts (with_image v1 x))
   \<and> (\<forall>c \<in> set (controllers (world_of (Start eventsOpts (with_image v1 x)))).
        reconciler_image (controller_Reconciler c)
          = (if controller_name c = eventbus_ControllerName then None else Some v1)
        \<and> (\<exists>config. controllers_LoadConfig x = Inr config
             \<and> controller_Reconciler c = (case controller_name c of
                  eventbus_ControllerName \<Rightarrow>
                    eventbus_NewReconciler mgr_GetClient kubeClient mgr_GetScheme config logger
                | eventsource_ControllerName \<Rightarrow>
                    eventsource_NewReconciler mgr_GetClient mgr_GetScheme v1 logger
                | sensor_ControllerName \<Rightarrow>
                    sensor_NewReconciler mgr_GetClient mgr_GetScheme v1 logger)))
   \<and> filter (\<lambda>c. controller_name c = eventbus_ControllerName)
        (controllers (world_of (Start eventsOpts (with_image v2 x))))
     = filter (\<lambda>c. controller_name c = eventbus_ControllerName)
        (controllers (world_of (Start eventsOpts (with_image v1 x))))
   \<and> exit_code (Start eventsOpts (with_image v2 x)) = exit_code (Start eventsOpts (with_image v1 x))
   \<and> calls (world_of (Start eventsOpts (with_image v2 x)))
       = calls (world_of (Start eventsOpts (with_image v1 x)))
   \<and> manager (world_of (Start eventsOpts (with_image v2 x)))
       = manager (world_of (Start eventsOpts (with_image v1 x)))
   \<and> watches (world_of (Start eventsOpts (with_image v2 x)))
       = watches (world_of (Start eventsOpts (with_image v1 x)))"
proof -
  let ?r1 = "Start eventsOpts (with_image v1 x)" and ?r2 = "Start eventsOpts (with_image v2 x)"
  have m: "?r2 = map_world (set_image_world v2) ?r1" by (rule Start_image_map)
  have w: "world_of ?r2 = set_image_world v2 (world_of ?r1)" and e: "exit_code ?r2 = exit_code ?r1"
    unfolding m by (cases ?r1; auto)+
  have l: "os_LookupEnv (with_image v1 x) imageEnvVar = Some v1"
    and lc: "controllers_LoadConfig (with_image v1 x) = controllers_LoadConfig x"
    by (simp_all add: with_image_def)
  have img: "\<forall>c \<in> set (controllers (world_of ?r1)).
        reconciler_image (controller_Reconciler c)
          = (if controller_name c = eventbus_ControllerName then None else Some v1)
        \<and> (\<exists>config. controllers_LoadConfig x = Inr config
             \<and> controller_Reconciler c = (case controller_name c of
                  eventbus_ControllerName \<Rightarrow>
                    eventbus_NewReconciler mgr_GetClient kubeClient mgr_GetScheme config logger
                | eventsource_ControllerName \<Rightarrow>
                    eventsource_NewReconciler mgr_GetClient mgr_GetScheme v1 logger
                | sensor_ControllerName \<Rightarrow>
                    sensor_NewReconciler mgr_GetClient mgr_GetScheme v1 logger))"
  proof
    fix c assume c: "c \<in> set (controllers (world_of ?r1))"
    with Start_controllers_prefix [OF l, of eventsOpts, unfolded lc]
    obtain config where lc': "controllers_LoadConfig x = Inr config"
      and p: "prefix (controllers (world_of ?r1))
      [\<lparr>controller_name = eventbus_ControllerName,
        controller_Reconciler = eventbus_NewReconciler mgr_GetClient kubeClient mgr_GetScheme config logger\<rparr>,
       \<lparr>controller_name = eventsource_ControllerName,
        controller_Reconciler = eventsource_NewReconciler mgr_GetClient mgr_GetScheme v1 logger\<rparr>,
       \<lparr>controller_name = sensor_ControllerName,
        controller_Reconciler = sensor_NewReconciler mgr_GetClient mgr_GetScheme v1 logger\<rparr>]"
      by auto
    from c set_mono_prefix [OF p] have "c \<in> set
      [\<lparr>controller_name = eventbus_ControllerName,
        controller_Reconciler = eventbus_NewReconciler mgr_GetClient kubeClient mgr_GetScheme config logger\<rparr>,
       \<lparr>controller_name = eventsource_ControllerName,
        controller_Reconciler = eventsource_NewReconciler mgr_GetClient mgr_GetScheme v1 logger\<rparr>,
       \<lparr>controller_name = sensor_ControllerName,
        controller_Reconciler = sensor_NewReconciler mgr_GetClient mgr_GetScheme v1 logger\<rparr>]"
      by blast
    with lc' show "reconciler_image (controller_Reconciler c)
          = (if controller_name c = eventbus_ControllerName then None else Some v1)
        \<and> (\<exists>config. controllers_LoadConfig x = Inr config
             \<and> controller_Reconciler c = (case controller_name c of
                  eventbus_ControllerName \<Rightarrow>
                    eventbus_NewReconciler mgr_GetClient kubeClient mgr_GetScheme config logger
                | eventsource_ControllerName \<Rightarrow>
                    eventsource_NewReconciler mgr_GetClient mgr_GetScheme v1 logger
                | sensor_ControllerName \<Rightarrow>
                    sensor_NewReconciler mgr_GetClient mgr_GetScheme v1 logger))"
      by auto
  qed
  have same: "set_image_controller v2 c = c"
    if "c \<in> set (controllers (world_of ?r1))" "controller_name c = eventbus_ControllerName" for c
  proof -
    from img that have "reconciler_image (controller_Reconciler c) = None" by simp
    then show ?thesis
      by (cases "controller_Reconciler c") (simp_all add: set_image_controller_def)
  qed
  have f: "filter (\<lambda>c. controller_name c = eventbus_ControllerName) (controllers (world_of ?r2))
     = filter (\<lambda>c. controller_name c = eventbus_ControllerName) (controllers (world_of ?r1))"
  proof -
    have "filter (\<lambda>c. controller_name c = eventbus_ControllerName) (controllers (world_of ?r2))
      = map (set_image_controller v2)
          (filter (\<lambda>c. controller_name c = eventbus_ControllerName) (controllers (world_of ?r1)))"
      unfolding w
      by (simp add: set_image_world_def filter_map comp_def set_image_controller_def)
    also have "\<dots> = filter (\<lambda>c. controller_name c = eventbus_ControllerName) (controllers (world_of ?r1))"
      by (rule map_idI) (simp add: same)
    finally show ?thesis .
  qed
  have rest: "calls (world_of ?r2) = calls (world_of ?r1)"
    "manager (world_of ?r2) = manager (world_of ?r1)"
    "watches (world_of ?r2) = watches (world_of ?r1)"
    unfolding w by (simp_all add: set_image_world_def)
  from m img f e rest show ?thesis by blast
qed

text \<open>A complete run with two values of the variable.\<close>

theorem Start_image_frame_witness:
  "controllers (world_of (Start (sample_Opts False False) (healthy [imageEnvVar \<mapsto> ''img:v1''])))
     = [\<lparr>controller_name = eventbus_ControllerName,
         controller_Reconciler = eventbus_NewReconciler mgr_GetClient kubeClient mgr_GetScheme ''config'' logger\<rparr>,
        \<lparr>controller_name = eventsource_ControllerName,
         controller_Reconciler = eventsource_NewReconciler mgr_GetClient mgr_GetScheme ''img:v1'' logger\<rparr>,
        \<lparr>controller_name = sensor_ControllerName,
         controller_Reconciler = sensor_NewReconciler mgr_GetClient mgr_GetScheme ''img:v1'' logger\<rparr>]
   \<and> controllers (world_of (Start (sample_Opts False False) (healthy [imageEnvVar \<mapsto> ''img:v2''])))
     = [\<lparr>controller_name = eventbus_ControllerName,
         controller_Reconciler = eventbus_NewReconciler mgr_GetClient kubeClient mgr_GetScheme ''config'' logger\<rparr>,
        \<lparr>controller_name = eventsource_ControllerName,
         controller_Reconciler = eventsource_NewReconciler mgr_GetClient mgr_GetScheme ''img:v2'' logger\<rparr>,
        \<lparr>controller_name = sensor_ControllerName,
         controller_Reconciler = sensor_NewReconciler mgr_GetClient mgr_GetScheme ''img:v2'' logger\<rparr>]
   \<and> watches (world_of (Start (sample_Opts False False) (healthy [imageEnvVar \<mapsto> ''img:v2''])))
     = watches (world_of (Start (sample_Opts False False) (healthy [imageEnvVar \<mapsto> ''img:v1''])))"
proof -
  let ?x = "healthy Map.empty"
  have x: "with_image v ?x = healthy [imageEnvVar \<mapsto> v]" for v
    by (simp add: with_image_def healthy_def)
  have c1: "controllers (world_of (Start (sample_Opts False False) (healthy [imageEnvVar \<mapsto> ''img:v1''])))
     = [\<lparr>controller_name = eventbus_ControllerName,
         controller_Reconciler = eventbus_NewReconciler mgr_GetClient kubeClient mgr_GetScheme ''config'' logger\<rparr>,
        \<lparr>controller_name = eventsource_ControllerName,
         controller_Reconciler = eventsource_NewReconciler mgr_GetClient mgr_GetScheme ''img:v1'' logger\<rparr>,
        \<lparr>controller_name = sensor_ControllerName,
         controller_Reconciler = sensor_NewReconciler mgr_GetClient mgr_GetScheme ''img:v1'' logger\<rparr>]"
    by (simp add: run_defs)
  from Start_image_frame [of "sample_Opts False False" "''img:v2''" ?x "''img:v1''"]
  have m: "Start (sample_Opts False False) (healthy [imageEnvVar \<mapsto> ''img:v2''])
      = map_world (set_image_world ''img:v2'')
          (Start (sample_Opts False False) (healthy [imageEnvVar \<mapsto> ''img:v1'']))"
    and w: "watches (world_of (Start (sample_Opts False False) (healthy [imageEnvVar \<mapsto> ''img:v2''])))
     = watches (world_of (Start (sample_Opts False False) (healthy [imageEnvVar \<mapsto> ''img:v1''])))"
    unfolding x by blast+
  have "world_of (Start (sample_Opts False False) (healthy [imageEnvVar \<mapsto> ''img:v2'']))
      = set_image_world ''img:v2''
          (world_of (Start (sample_Opts False False) (healthy [imageEnvVar \<mapsto> ''img:v1''])))"
    unfolding m
    by (cases "Start (sample_Opts False False) (healthy [imageEnvVar \<mapsto> ''img:v1''])"; auto)
  then have c2: "controllers (world_of (Start (sample_Opts False False) (healthy [imageEnvVar \<mapsto> ''img:v2''])))
     = map (set_image_controller ''img:v2'')
        (controllers (world_of (Start (sample_Opts False False) (healthy [imageEnvVar \<mapsto> ''img:v1'']))))"
    by (simp add: set_image_world_def)
  show ?thesis
    unfolding c2 w unfolding c1 by (simp add: set_image_controller_def)
qed


subsection \<open>Claim C6: the watch wiring\<close>

text \<open>
  Claim C6. The watches a run registers are those of the specification's table, in its
  order, and no other: the EventBus controller watches EventBus (primary) and ConfigMap,
  StatefulSet and Service (secondary, owner EventBus); the EventSource controller watches
  EventSource (primary) and Deployment and Service (secondary, owner EventSource); the Sensor
  controller watches Sensor (primary) and Deployment (secondary, owner Sensor). A run that
  exits early has registered a front part of the table; a run that reaches \<^verbatim>\<open>mgr.Start\<close> has
  registered all of it. Every watch was registered on a controller the run built, and the
  kind a watch enqueues requests for is the kind its controller reconciles, and of no other
  controller.
\<close>

theorem Start_wiring:
  "prefix (watches (world_of (Start eventsOpts x))) (wiring (spec_cacheScope eventsOpts))
   \<and> (exit_code (Start eventsOpts x) = None
        \<or> Call_mgr_Start \<in> set (calls (world_of (Start eventsOpts x)))
      \<longrightarrow> watches (world_of (Start eventsOpts x)) = wiring (spec_cacheScope eventsOpts))
   \<and> wiring (spec_cacheScope eventsOpts) =
       [primary_watch (spec_cacheScope eventsOpts) eventbus_ControllerName EventBus,
        secondary_watch (spec_cacheScope eventsOpts) eventbus_ControllerName EventBus ConfigMap,
        secondary_watch (spec_cacheScope eventsOpts) eventbus_ControllerName EventBus StatefulSet,
        secondary_watch (spec_cacheScope eventsOpts) eventbus_ControllerName EventBus Service,
        primary_watch (spec_cacheScope eventsOpts) eventsource_ControllerName EventSource,
        secondary_watch (spec_cacheScope eventsOpts) eventsource_ControllerName EventSource Deployment,
        secondary_watch (spec_cacheScope eventsOpts) eventsource_ControllerName EventSource Service,
        primary_watch (spec_cacheScope eventsOpts) sensor_ControllerName Sensor,
        secondary_watch (spec_cacheScope eventsOpts) sensor_ControllerName Sensor Deployment]
   \<and> (\<forall>wt \<in> set (watches (world_of (Start eventsOpts x))).
        \<exists>c \<in> set (controllers (world_of (Start eventsOpts x))).
          controller_name c = watch_controller wt)
   \<and> (\<forall>wt \<in> set (watches (world_of (Start eventsOpts x))).
        \<forall>c \<in> set (controllers (world_of (Start eventsOpts x))).
          (controller_name c = watch_controller wt)
            = (reconciler_kind (controller_Reconciler c) = watch_target wt))"
proof -
  let ?W = "world_of (Start eventsOpts x)"
  have 1: "prefix (watches ?W) (wiring (spec_cacheScope eventsOpts))"
    by (rule Start_watches_prefix)
  have 2: "watches ?W = wiring (spec_cacheScope eventsOpts)"
    if "exit_code (Start eventsOpts x) = None \<or> Call_mgr_Start \<in> set (calls ?W)"
    using that by (auto intro: Start_watches_complete Start_returns_reached)
  have 4: "\<forall>wt \<in> set (watches ?W). \<exists>c \<in> set (controllers ?W). controller_name c = watch_controller wt"
    using owned_Start [of eventsOpts x] by (simp add: owned_ball)
  have 5: "(controller_name c = watch_controller wt)
            = (reconciler_kind (controller_Reconciler c) = watch_target wt)"
    if wt: "wt \<in> set (watches ?W)" and c: "c \<in> set (controllers ?W)" for wt c
  proof -
    from wt set_mono_prefix [OF 1] have "wt \<in> set (wiring (spec_cacheScope eventsOpts))" by blast
    from wiring_target [OF this] Start_controllers_kind [OF c] show ?thesis
      by (cases "controller_name c"; cases "watch_controller wt"; simp)
  qed
  from 1 2 4 5 wiring_eq [of "spec_cacheScope eventsOpts"] show ?thesis by blast
qed

text \<open>A complete run: the nine watches, each with its controller, its source kind and its target.\<close>

theorem Start_wiring_witness:
  "exit_code (Start (sample_Opts False False) (healthy [imageEnvVar \<mapsto> ''img''])) = None
   \<and> watches (world_of (Start (sample_Opts False False) (healthy [imageEnvVar \<mapsto> ''img''])))
      = wiring \<lparr>DefaultNamespaces = Map.empty\<rparr>
   \<and> map controller_name
       (controllers (world_of (Start (sample_Opts False False) (healthy [imageEnvVar \<mapsto> ''img'']))))
      = [eventbus_ControllerName, eventsource_ControllerName, sensor_ControllerName]
   \<and> map (\<lambda>wt. (watch_controller wt, source_kind (watch_source wt), watch_target wt))
       (wiring \<lparr>DefaultNamespaces = Map.empty\<rparr>)
      = [(eventbus_ControllerName, EventBus, EventBus),
         (eventbus_ControllerName, ConfigMap, EventBus),
         (eventbus_ControllerName, StatefulSet, EventBus),
         (eventbus_ControllerName, Service, EventBus),
         (eventsource_ControllerName, EventSource, EventSource),
         (eventsource_ControllerName, Deployment, EventSource),
         (eventsource_ControllerName, Service, EventSource),
         (sensor_ControllerName, Sensor, Sensor),
         (sensor_ControllerName, Deployment, Sensor)]"
proof -
  let ?x = "healthy [imageEnvVar \<mapsto> ''img'']" and ?o = "sample_Opts False False"
  have e: "exit_code (Start ?o ?x) = None"
    by (simp add: run_defs)
  have s: "spec_cacheScope ?o = \<lparr>DefaultNamespaces = Map.empty\<rparr>"
    by (simp add: spec_cacheScope_def sample_Opts_def)
  from Start_wiring [of ?o ?x] e
  have w: "watches (world_of (Start ?o ?x)) = wiring \<lparr>DefaultNamespaces = Map.empty\<rparr>"
    unfolding s by blast
  have c: "map controller_name (controllers (world_of (Start ?o ?x)))
      = [eventbus_ControllerName, eventsource_ControllerName, sensor_ControllerName]"
    by (simp add: run_defs)
  have t: "map (\<lambda>wt. (watch_controller wt, source_kind (watch_source wt), watch_target wt))
       (wiring \<lparr>DefaultNamespaces = Map.empty\<rparr>)
      = [(eventbus_ControllerName, EventBus, EventBus),
         (eventbus_ControllerName, ConfigMap, EventBus),
         (eventbus_ControllerName, StatefulSet, EventBus),
         (eventbus_ControllerName, Service, EventBus),
         (eventsource_ControllerName, EventSource, EventSource),
         (eventsource_ControllerName, Deployment, EventSource),
         (eventsource_ControllerName, Service, EventSource),
         (sensor_ControllerName, Sensor, Sensor),
         (sensor_ControllerName, Deployment, Sensor)]"
    by (simp add: wiring_def wiring_table_def primary_watch_def secondary_watch_def watch_target_def)
  from e w c t show ?thesis by blast
qed


subsection \<open>Claim C8: bootstrap is all or nothing\<close>

text \<open>
  Claim C8. The calls of a run stand in the order of the bootstrap sequence, each place at
  most once (no step is retried). A call that returned an error is the last call of the run,
  and the process then exited with a status other than 0: no later step ran. No expected step
  before a call that was made was skipped. A run that did not exit passed every expected
  step, none of which returned an error; a run that exited did so with a status other than
  0, at a call that returned an error.
\<close>

theorem Start_all_or_nothing:
  "sorted_wrt (<) (map bootstrap_position (calls (world_of (Start eventsOpts x))))
   \<and> (\<forall>c \<in> set (calls (world_of (Start eventsOpts x))). call_failed x c \<longrightarrow>
        c = last (calls (world_of (Start eventsOpts x)))
        \<and> (\<exists>code. exit_code (Start eventsOpts x) = Some code \<and> code \<noteq> 0))
   \<and> (\<forall>c \<in> set (calls (world_of (Start eventsOpts x))). \<forall>p < bootstrap_position c.
        expected (LeaderElection eventsOpts) p \<longrightarrow>
        p \<in> bootstrap_position ` set (calls (world_of (Start eventsOpts x))))
   \<and> (case exit_code (Start eventsOpts x) of
         None \<Rightarrow>
           list_all (\<lambda>c. \<not> call_failed x c) (calls (world_of (Start eventsOpts x)))
           \<and> (\<forall>p < 30. expected (LeaderElection eventsOpts) p \<longrightarrow>
                p \<in> bootstrap_position ` set (calls (world_of (Start eventsOpts x))))
       | Some code \<Rightarrow>
           code \<noteq> 0 \<and> calls (world_of (Start eventsOpts x)) \<noteq> []
           \<and> call_failed x (last (calls (world_of (Start eventsOpts x)))))"
proof -
  let ?r = "Start eventsOpts x" and ?le = "LeaderElection eventsOpts"
  let ?cs = "calls (world_of ?r)"
  from disciplined_Start [of eventsOpts x] obtain cs where
    "calls (world_of ?r) = calls (init_World :: 'a World) @ cs"
    and s': "sorted_wrt (<) (map bootstrap_position cs)"
    and b': "list_all (\<lambda>c. 0 \<le> bootstrap_position c \<and> bootstrap_position c < 30) cs"
    and f': "list_all (\<lambda>c. \<not> call_failed x c) (butlast cs)"
    and e': "\<forall>p. 0 \<le> p \<longrightarrow> expected ?le p \<longrightarrow>
           p < (case exit_code ?r of None \<Rightarrow> 30 | Some code \<Rightarrow> bootstrap_position (last cs)) \<longrightarrow>
           p \<in> bootstrap_position ` set cs"
    and x': "case exit_code ?r of
           None \<Rightarrow> list_all (\<lambda>c. \<not> call_failed x c) cs
         | Some code \<Rightarrow> code \<noteq> 0 \<and> cs \<noteq> [] \<and> call_failed x (last cs)"
    by (rule disciplinedD)
  then have cs: "cs = ?cs" by (simp add: init_World_def)
  note s = s' [unfolded cs] and b = b' [unfolded cs] and f = f' [unfolded cs]
    and e = e' [unfolded cs] and x = x' [unfolded cs]
  have 2: "c = last ?cs \<and> (\<exists>code. exit_code ?r = Some code \<and> code \<noteq> 0)"
    if c: "c \<in> set ?cs" and cf: "call_failed x c" for c
  proof
    from f cf have "c \<notin> set (butlast ?cs)" by (auto simp add: list_all_iff)
    with in_set_butlast_or_last [OF c] show "c = last ?cs" by simp
    from x c cf show "\<exists>code. exit_code ?r = Some code \<and> code \<noteq> 0"
      by (cases "exit_code ?r") (auto simp add: list_all_iff)
  qed
  have 3: "p \<in> bootstrap_position ` set ?cs"
    if c: "c \<in> set ?cs" and p: "p < bootstrap_position c" and ex: "expected ?le p" for c p
  proof -
    have "p < (case exit_code ?r of None \<Rightarrow> 30 | Some code \<Rightarrow> bootstrap_position (last ?cs))"
    proof (cases "exit_code ?r")
      case None
      from b c have "bootstrap_position c < 30" by (auto simp add: list_all_iff)
      with p None show ?thesis by simp
    next
      case (Some code)
      from sorted_wrt_le_last [OF s c] p Some show ?thesis by simp
    qed
    with e ex show ?thesis by simp
  qed
  have 4: "case exit_code ?r of
         None \<Rightarrow> list_all (\<lambda>c. \<not> call_failed x c) ?cs
           \<and> (\<forall>p < 30. expected ?le p \<longrightarrow> p \<in> bootstrap_position ` set ?cs)
       | Some code \<Rightarrow> code \<noteq> 0 \<and> ?cs \<noteq> [] \<and> call_failed x (last ?cs)"
    using x e by (cases "exit_code ?r") simp_all
  from s 2 3 4 show ?thesis by blast
qed

text \<open>
  A run in which the registration of the EventSource controller's watch on Deployments fails:
  the trace ends at that call, the status is 1, and the manager was never started.
\<close>

theorem Start_all_or_nothing_witness:
  "calls (world_of (Start (sample_Opts False False) failing_Watch))
     = [Call_LoadConfig, Call_ValidateConfig ''config'', Call_LookupEnv imageEnvVar,
        Call_GetConfigOrDie,
        Call_NewManager
          \<lparr>Metrics_BindAddress = '':7777'', HealthProbeBindAddress = '':8081'',
           Cache = \<lparr>DefaultNamespaces = Map.empty\<rparr>,
           Options_LeaderElection = False, LeaderElectionID = [],
           LeaseDuration = None, RenewDeadline = None, RetryPeriod = None\<rparr>,
        Call_NewForConfigOrDie, Call_AddReadyzCheck ''readiness'', Call_AddHealthzCheck ''liveness'',
        Call_AddToScheme EventBus, Call_AddToScheme EventSource, Call_AddToScheme Sensor,
        Call_controller_New eventbus_ControllerName,
        Call_Watch eventbus_ControllerName EventBus, Call_Watch eventbus_ControllerName ConfigMap,
        Call_Watch eventbus_ControllerName StatefulSet, Call_Watch eventbus_ControllerName Service,
        Call_controller_New eventsource_ControllerName,
        Call_Watch eventsource_ControllerName EventSource,
        Call_Watch eventsource_ControllerName Deployment]
   \<and> call_failed failing_Watch (Call_Watch eventsource_ControllerName Deployment)
   \<and> exit_code (Start (sample_Opts False False) failing_Watch) = Some 1
   \<and> Call_mgr_Start \<notin> set (calls (world_of (Start (sample_Opts False False) failing_Watch)))
   \<and> (\<exists>code. exit_code (Start (sample_Opts False False) failing_Watch) = Some code \<and> code \<noteq> 0)"
proof -
  let ?o = "sample_Opts False False"
  let ?cs = "[Call_LoadConfig, Call_ValidateConfig ''config'', Call_LookupEnv imageEnvVar,
        Call_GetConfigOrDie,
        Call_NewManager
          \<lparr>Metrics_BindAddress = '':7777'', HealthProbeBindAddress = '':8081'',
           Cache = \<lparr>DefaultNamespaces = Map.empty\<rparr>,
           Options_LeaderElection = False, LeaderElectionID = [],
           LeaseDuration = None, RenewDeadline = None, RetryPeriod = None\<rparr>,
        Call_NewForConfigOrDie, Call_AddReadyzCheck ''readiness'', Call_AddHealthzCheck ''liveness'',
        Call_AddToScheme EventBus, Call_AddToScheme EventSource, Call_AddToScheme Sensor,
        Call_controller_New eventbus_ControllerName,
        Call_Watch eventbus_ControllerName EventBus, Call_Watch eventbus_ControllerName ConfigMap,
        Call_Watch eventbus_ControllerName StatefulSet, Call_Watch eventbus_ControllerName Service,
        Call_controller_New eventsource_ControllerName,
        Call_Watch eventsource_ControllerName EventSource,
        Call_Watch eventsource_ControllerName Deployment]"
  have c: "calls (world_of (Start ?o failing_Watch)) = ?cs"
    by (simp add: failing_Watch_def run_defs bindAddress_def itoa_def digits10.simps)
  have f: "call_failed failing_Watch (Call_Watch eventsource_ControllerName Deployment)"
    by (simp add: failing_Watch_def healthy_def)
  have e: "exit_code (Start ?o failing_Watch) = Some 1"
    by (simp add: failing_Watch_def run_defs)
  have m: "Call_Watch eventsource_ControllerName Deployment
      \<in> set (calls (world_of (Start ?o failing_Watch)))"
    unfolding c by simp
  from Start_all_or_nothing [of ?o failing_Watch] m f
  have "\<exists>code. exit_code (Start ?o failing_Watch) = Some code \<and> code \<noteq> 0"
    by blast
  moreover have "Call_mgr_Start \<notin> set (calls (world_of (Start ?o failing_Watch)))"
    unfolding c by simp
  ultimately show ?thesis using c f e by blast
qed


subsection \<open>Claim C2: the secondary watches\<close>

text \<open>
  Claim C2. Every watch a run registers on a subordinate kind (ConfigMap, StatefulSet,
  Deployment, Service) has the single predicate "generation changed" and the handler
  \<^verbatim>\<open>EnqueueRequestForOwner\<close> with \<^verbatim>\<open>OnlyControllerOwner\<close> for a primary kind, the kind
  its controller reconciles. With the predicates and handlers of the controller runtime as
  the specification describes them, an update through such a watch enqueues the namespaced
  name of the object's controller-owner when the generation changed and the owner is of the
  registered kind, and nothing otherwise.
\<close>

theorem Start_secondary_watches:
  "\<forall>wt \<in> set (watches (world_of (Start eventsOpts x))).
     \<not> is_primary (source_kind (watch_source wt)) \<longrightarrow>
       watch_predicates wt = [GenerationChangedPredicate]
     \<and> watch_handler wt
         = EnqueueRequestForOwner mgr_GetScheme mgr_GetRESTMapper (watch_target wt) [OnlyControllerOwner]
     \<and> is_primary (watch_target wt)
     \<and> (\<forall>c \<in> set (controllers (world_of (Start eventsOpts x))).
          controller_name c = watch_controller wt \<longrightarrow>
          reconciler_kind (controller_Reconciler c) = watch_target wt)
     \<and> (\<forall>old new. watch_enqueues wt old new =
          (if obj_Kind new = source_kind (watch_source wt)
              \<and> obj_Generation old \<noteq> obj_Generation new
           then (case find ref_Controller (obj_OwnerReferences new) of
                   None \<Rightarrow> []
                 | Some r \<Rightarrow>
                     if ref_Kind r = watch_target wt then [(obj_Namespace new, ref_Name r)] else [])
           else []))"
proof (intro ballI impI)
  fix wt
  let ?W = "world_of (Start eventsOpts x)"
  assume wt: "wt \<in> set (watches ?W)"
    and s: "\<not> is_primary (source_kind (watch_source wt))"
  from wt set_mono_prefix [OF Start_watches_prefix [of eventsOpts x]]
  have w: "wt \<in> set (wiring (spec_cacheScope eventsOpts))" by blast
  note p = wiring_secondary [OF w s]
  have k: "\<forall>c \<in> set (controllers ?W). controller_name c = watch_controller wt \<longrightarrow>
          reconciler_kind (controller_Reconciler c) = watch_target wt"
  proof (intro ballI impI)
    fix c assume c: "c \<in> set (controllers ?W)" and n: "controller_name c = watch_controller wt"
    from wiring_target [OF w] Start_controllers_kind [OF c] n
    show "reconciler_kind (controller_Reconciler c) = watch_target wt" by simp
  qed
  have e: "\<forall>old new. watch_enqueues wt old new =
          (if obj_Kind new = source_kind (watch_source wt)
              \<and> obj_Generation old \<noteq> obj_Generation new
           then (case find ref_Controller (obj_OwnerReferences new) of
                   None \<Rightarrow> []
                 | Some r \<Rightarrow>
                     if ref_Kind r = watch_target wt then [(obj_Namespace new, ref_Name r)] else [])
           else [])"
    by (intro allI) (rule watch_enqueues_owner [OF p(1,2)])
  from p k e show "watch_predicates wt = [GenerationChangedPredicate]
     \<and> watch_handler wt
         = EnqueueRequestForOwner mgr_GetScheme mgr_GetRESTMapper (watch_target wt) [OnlyControllerOwner]
     \<and> is_primary (watch_target wt)
     \<and> (\<forall>c \<in> set (controllers ?W).
          controller_name c = watch_controller wt \<longrightarrow>
          reconciler_kind (controller_Reconciler c) = watch_target wt)
     \<and> (\<forall>old new. watch_enqueues wt old new =
          (if obj_Kind new = source_kind (watch_source wt)
              \<and> obj_Generation old \<noteq> obj_Generation new
           then (case find ref_Controller (obj_OwnerReferences new) of
                   None \<Rightarrow> []
                 | Some r \<Rightarrow>
                     if ref_Kind r = watch_target wt then [(obj_Namespace new, ref_Name r)] else [])
           else []))"
    by blast
qed

text \<open>
  The EventBus controller's watch on config maps in a complete run: a config map owned by the
  event bus "default" enqueues that bus; one owned by a sensor, or one whose labels alone
  changed, enqueues nothing.
\<close>

theorem Start_secondary_watches_witness:
  "secondary_watch \<lparr>DefaultNamespaces = Map.empty\<rparr> eventbus_ControllerName EventBus ConfigMap
     \<in> set (watches (world_of (Start (sample_Opts False False) (healthy [imageEnvVar \<mapsto> ''img'']))))
   \<and> watch_enqueues
        (secondary_watch \<lparr>DefaultNamespaces = Map.empty\<rparr> eventbus_ControllerName EventBus ConfigMap)
        (sample_ConfigMap 1 Map.empty
           [\<lparr>ref_Kind = EventBus, ref_Name = ''default'', ref_Controller = True\<rparr>])
        (sample_ConfigMap 2 Map.empty
           [\<lparr>ref_Kind = EventBus, ref_Name = ''default'', ref_Controller = True\<rparr>])
      = [(''argo-events'', ''default'')]
   \<and> watch_enqueues
        (secondary_watch \<lparr>DefaultNamespaces = Map.empty\<rparr> eventbus_ControllerName EventBus ConfigMap)
        (sample_ConfigMap 1 Map.empty
           [\<lparr>ref_Kind = Sensor, ref_Name = ''webhook'', ref_Controller = True\<rparr>])
        (sample_ConfigMap 2 Map.empty
           [\<lparr>ref_Kind = Sensor, ref_Name = ''webhook'', ref_Controller = True\<rparr>])
      = []
   \<and> watch_enqueues
        (secondary_watch \<lparr>DefaultNamespaces = Map.empty\<rparr> eventbus_ControllerName EventBus ConfigMap)
        (sample_ConfigMap 1 Map.empty
           [\<lparr>ref_Kind = EventBus, ref_Name = ''default'', ref_Controller = True\<rparr>])
        (sample_ConfigMap 1 [''app'' \<mapsto> ''bus'']
           [\<lparr>ref_Kind = EventBus, ref_Name = ''default'', ref_Controller = True\<rparr>])
      = []
   \<and> \<lparr>controller_name = eventbus_ControllerName,
       controller_Reconciler =
         eventbus_NewReconciler mgr_GetClient kubeClient mgr_GetScheme ''config'' logger\<rparr>
     \<in> set (controllers (world_of (Start (sample_Opts False False) (healthy [imageEnvVar \<mapsto> ''img'']))))
   \<and> reconciler_kind (eventbus_NewReconciler mgr_GetClient kubeClient mgr_GetScheme ''config'' logger)
      = watch_target
          (secondary_watch \<lparr>DefaultNamespaces = Map.empty\<rparr> eventbus_ControllerName EventBus ConfigMap)"
proof -
  let ?x = "healthy [imageEnvVar \<mapsto> ''img'']" and ?o = "sample_Opts False False"
  let ?wt = "secondary_watch \<lparr>DefaultNamespaces = Map.empty\<rparr> eventbus_ControllerName EventBus ConfigMap"
  have m: "?wt \<in> set (watches (world_of (Start ?o ?x)))"
    by (simp add: run_defs secondary_watch_def)
  have s: "\<not> is_primary (source_kind (watch_source ?wt))"
    by (simp add: secondary_watch_def is_primary_def)
  let ?c = "\<lparr>controller_name = eventbus_ControllerName,
       controller_Reconciler =
         eventbus_NewReconciler mgr_GetClient kubeClient mgr_GetScheme ''config'' logger\<rparr>"
  have c: "?c \<in> set (controllers (world_of (Start ?o ?x)))"
    by (simp add: run_defs)
  have n: "controller_name ?c = watch_controller ?wt"
    by (simp add: secondary_watch_def)
  from Start_secondary_watches [of ?o ?x] m s c n
  have k: "reconciler_kind (controller_Reconciler ?c) = watch_target ?wt"
    by blast
  from Start_secondary_watches [of ?o ?x] m s
  have e: "watch_enqueues ?wt old new =
          (if obj_Kind new = source_kind (watch_source ?wt)
              \<and> obj_Generation old \<noteq> obj_Generation new
           then (case find ref_Controller (obj_OwnerReferences new) of
                   None \<Rightarrow> []
                 | Some r \<Rightarrow>
                     if ref_Kind r = watch_target ?wt then [(obj_Namespace new, ref_Name r)] else [])
           else [])" for old new
    by blast
  have t: "watch_target ?wt = EventBus" "source_kind (watch_source ?wt) = ConfigMap"
    by (simp_all add: secondary_watch_def watch_target_def)
  have "watch_enqueues ?wt
        (sample_ConfigMap 1 Map.empty
           [\<lparr>ref_Kind = EventBus, ref_Name = ''default'', ref_Controller = True\<rparr>])
        (sample_ConfigMap 2 Map.empty
           [\<lparr>ref_Kind = EventBus, ref_Name = ''default'', ref_Controller = True\<rparr>])
      = [(''argo-events'', ''default'')]"
    and "watch_enqueues ?wt
        (sample_ConfigMap 1 Map.empty
           [\<lparr>ref_Kind = Sensor, ref_Name = ''webhook'', ref_Controller = True\<rparr>])
        (sample_ConfigMap 2 Map.empty
           [\<lparr>ref_Kind = Sensor, ref_Name = ''webhook'', ref_Controller = True\<rparr>])
      = []"
    and "watch_enqueues ?wt
        (sample_ConfigMap 1 Map.empty
           [\<lparr>ref_Kind = EventBus, ref_Name = ''default'', ref_Controller = True\<rparr>])
        (sample_ConfigMap 1 [''app'' \<mapsto> ''bus'']
           [\<lparr>ref_Kind = EventBus, ref_Name = ''default'', ref_Controller = True\<rparr>])
      = []"
    unfolding e t by (simp_all add: sample_ConfigMap_def)
  with m c k show ?thesis by simp
qed


subsection \<open>Claim C3: the primary watches\<close>

text \<open>
  Claim C3. Every watch a run registers on a primary kind (EventBus, EventSource, Sensor)
  has the predicate "generation changed or labels changed" and the handler
  \<^verbatim>\<open>EnqueueRequestForObject\<close>. With the predicates and handlers of the controller runtime as
  the specification describes them, an update through such a watch enqueues the object's own
  namespaced name when its generation or its labels changed, and nothing otherwise; and in a
  run that reached \<^verbatim>\<open>mgr.Start\<close>, an update of a primary object enqueues, over all watches,
  exactly one request, for that object, on the controller of its kind, when its generation or
  labels changed, and none when neither did.
\<close>

theorem Start_primary_watches:
  "(\<forall>wt \<in> set (watches (world_of (Start eventsOpts x))).
      is_primary (source_kind (watch_source wt)) \<longrightarrow>
        watch_predicates wt = [predicate_Or [GenerationChangedPredicate, LabelChangedPredicate]]
      \<and> watch_handler wt = EnqueueRequestForObject
      \<and> (\<forall>old new. watch_enqueues wt old new =
           (if obj_Kind new = source_kind (watch_source wt)
               \<and> (obj_Generation old \<noteq> obj_Generation new \<or> obj_Labels old \<noteq> obj_Labels new)
            then [(obj_Namespace new, obj_Name new)]
            else [])))
   \<and> (Call_mgr_Start \<in> set (calls (world_of (Start eventsOpts x))) \<longrightarrow>
        (\<forall>k \<in> {EventBus, EventSource, Sensor}.
           \<exists>wt \<in> set (watches (world_of (Start eventsOpts x))). source_kind (watch_source wt) = k)
        \<and> (\<forall>old new. is_primary (obj_Kind new) \<longrightarrow>
             dispatch (watches (world_of (Start eventsOpts x))) old new =
               (if obj_Generation old \<noteq> obj_Generation new \<or> obj_Labels old \<noteq> obj_Labels new
                then [(if obj_Kind new = EventBus then eventbus_ControllerName
                       else if obj_Kind new = EventSource then eventsource_ControllerName
                       else sensor_ControllerName, (obj_Namespace new, obj_Name new))]
                else [])))"
proof (intro conjI ballI impI allI)
  fix wt
  let ?W = "world_of (Start eventsOpts x)"
  assume wt: "wt \<in> set (watches ?W)"
    and s: "is_primary (source_kind (watch_source wt))"
  from wt set_mono_prefix [OF Start_watches_prefix [of eventsOpts x]]
  have w: "wt \<in> set (wiring (spec_cacheScope eventsOpts))" by blast
  note p = wiring_primary [OF w s]
  show "watch_predicates wt = [predicate_Or [GenerationChangedPredicate, LabelChangedPredicate]]"
    by (rule p(1))
  show "watch_handler wt = EnqueueRequestForObject" by (rule p(2))
  fix old new
  show "watch_enqueues wt old new =
           (if obj_Kind new = source_kind (watch_source wt)
               \<and> (obj_Generation old \<noteq> obj_Generation new \<or> obj_Labels old \<noteq> obj_Labels new)
            then [(obj_Namespace new, obj_Name new)]
            else [])"
    by (rule watch_enqueues_object [OF p(1,2)])
next
  fix k :: Kind
  assume r: "Call_mgr_Start \<in> set (calls (world_of (Start eventsOpts x)))"
    and k: "k \<in> {EventBus, EventSource, Sensor}"
  from k show "\<exists>wt \<in> set (watches (world_of (Start eventsOpts x))). source_kind (watch_source wt) = k"
    unfolding Start_watches_complete [OF r] wiring_eq
    by (auto simp add: primary_watch_def)
next
  fix old new :: Object
  assume r: "Call_mgr_Start \<in> set (calls (world_of (Start eventsOpts x)))"
    and k: "is_primary (obj_Kind new)"
  show "dispatch (watches (world_of (Start eventsOpts x))) old new =
               (if obj_Generation old \<noteq> obj_Generation new \<or> obj_Labels old \<noteq> obj_Labels new
                then [(if obj_Kind new = EventBus then eventbus_ControllerName
                       else if obj_Kind new = EventSource then eventsource_ControllerName
                       else sensor_ControllerName, (obj_Namespace new, obj_Name new))]
                else [])"
    unfolding Start_watches_complete [OF r] by (rule dispatch_wiring_primary [OF k])
qed

text \<open>
  An event bus in a complete run: a change of status alone enqueues nothing; a change of
  labels, or of generation, enqueues the bus once on the EventBus controller.
\<close>

theorem Start_primary_watches_witness:
  "Call_mgr_Start
     \<in> set (calls (world_of (Start (sample_Opts False False) (healthy [imageEnvVar \<mapsto> ''img'']))))
   \<and> dispatch (watches (world_of (Start (sample_Opts False False) (healthy [imageEnvVar \<mapsto> ''img'']))))
        (sample_EventBus 1 Map.empty ''pending'') (sample_EventBus 1 Map.empty ''running'') = []
   \<and> dispatch (watches (world_of (Start (sample_Opts False False) (healthy [imageEnvVar \<mapsto> ''img'']))))
        (sample_EventBus 1 Map.empty ''running'') (sample_EventBus 1 [''app'' \<mapsto> ''bus''] ''running'')
      = [(eventbus_ControllerName, (''argo-events'', ''default''))]
   \<and> dispatch (watches (world_of (Start (sample_Opts False False) (healthy [imageEnvVar \<mapsto> ''img'']))))
        (sample_EventBus 1 Map.empty ''running'') (sample_EventBus 2 Map.empty ''running'')
      = [(eventbus_ControllerName, (''argo-events'', ''default''))]
   \<and> primary_watch \<lparr>DefaultNamespaces = Map.empty\<rparr> eventbus_ControllerName EventBus
     \<in> set (watches (world_of (Start (sample_Opts False False) (healthy [imageEnvVar \<mapsto> ''img'']))))
   \<and> watch_enqueues (primary_watch \<lparr>DefaultNamespaces = Map.empty\<rparr> eventbus_ControllerName EventBus)
        (sample_EventBus 1 Map.empty ''pending'') (sample_EventBus 1 Map.empty ''running'') = []
   \<and> watch_enqueues (primary_watch \<lparr>DefaultNamespaces = Map.empty\<rparr> eventbus_ControllerName EventBus)
        (sample_EventBus 1 Map.empty ''running'') (sample_EventBus 2 Map.empty ''running'')
      = [(''argo-events'', ''default'')]"
proof -
  let ?x = "healthy [imageEnvVar \<mapsto> ''img'']" and ?o = "sample_Opts False False"
  let ?wt = "primary_watch \<lparr>DefaultNamespaces = Map.empty\<rparr> eventbus_ControllerName EventBus"
  have m: "?wt \<in> set (watches (world_of (Start ?o ?x)))"
    by (simp add: run_defs primary_watch_def)
  have s: "is_primary (source_kind (watch_source ?wt))"
    by (simp add: primary_watch_def is_primary_def)
  from Start_primary_watches [of ?o ?x] m s
  have e: "watch_enqueues ?wt old new =
           (if obj_Kind new = source_kind (watch_source ?wt)
               \<and> (obj_Generation old \<noteq> obj_Generation new \<or> obj_Labels old \<noteq> obj_Labels new)
            then [(obj_Namespace new, obj_Name new)]
            else [])" for old new
    by blast
  have 4: "watch_enqueues ?wt
        (sample_EventBus 1 Map.empty ''pending'') (sample_EventBus 1 Map.empty ''running'') = []"
    and 5: "watch_enqueues ?wt
        (sample_EventBus 1 Map.empty ''running'') (sample_EventBus 2 Map.empty ''running'')
      = [(''argo-events'', ''default'')]"
    unfolding e by (simp_all add: sample_EventBus_def primary_watch_def)
  have r: "Call_mgr_Start \<in> set (calls (world_of (Start ?o ?x)))"
    by (simp add: run_defs)
  have k: "is_primary (obj_Kind (sample_EventBus g ls st))" for g ls st
    by (simp add: is_primary_def sample_EventBus_def)
  from Start_primary_watches [of ?o ?x] r
  have d: "is_primary (obj_Kind new) \<Longrightarrow> dispatch (watches (world_of (Start ?o ?x))) old new =
               (if obj_Generation old \<noteq> obj_Generation new \<or> obj_Labels old \<noteq> obj_Labels new
                then [(if obj_Kind new = EventBus then eventbus_ControllerName
                       else if obj_Kind new = EventSource then eventsource_ControllerName
                       else sensor_ControllerName, (obj_Namespace new, obj_Name new))]
                else [])" for old new
    by blast
  have 1: "dispatch (watches (world_of (Start ?o ?x)))
        (sample_EventBus 1 Map.empty ''pending'') (sample_EventBus 1 Map.empty ''running'') = []"
    unfolding d [OF k] by (simp add: sample_EventBus_def)
  have 2: "dispatch (watches (world_of (Start ?o ?x)))
        (sample_EventBus 1 Map.empty ''running'') (sample_EventBus 1 [''app'' \<mapsto> ''bus''] ''running'')
      = [(eventbus_ControllerName, (''argo-events'', ''default''))]"
    unfolding d [OF k] by (simp add: sample_EventBus_def fun_eq_iff)
  have 3: "dispatch (watches (world_of (Start ?o ?x)))
        (sample_EventBus 1 Map.empty ''running'') (sample_EventBus 2 Map.empty ''running'')
      = [(eventbus_ControllerName, (''argo-events'', ''default''))]"
    unfolding d [OF k] by (simp add: sample_EventBus_def)
  from r 1 2 3 m 4 5 show ?thesis by blast
qed

end
